theory Spec2Isabelle
  imports Main "HOL-Library.Word" "HOL-Library.Signed_Division"
begin

unbundle bit_operations_syntax

section \<open>Capacitor and ESR measurement (cap.c)\<close>

text \<open>
  The functions of cap.c as functions on an explicit state. The firmware runs on an 8-bit
  AVR: \<open>int\<close> has 16 bits, \<open>long\<close> has 32 bits. \<open>uint8_t\<close>, \<open>uint16_t\<close> and
  \<open>uint32_t\<close> are words of that width; the signed types \<open>int8_t\<close>, \<open>int16_t\<close> and
  \<open>int32_t\<close> are words of the same width that are read with \<open>sint\<close> wherever the
  source compares or divides them as signed values.

  Writes to the port and timer registers that only drive pins (\<open>ADC_DDR\<close>, \<open>R_PORT\<close>,
  \<open>R_DDR\<close>, \<open>ADMUX\<close>, \<open>TCCR1B\<close>, ...), the fixed waits and \<open>wdt_reset()\<close> compute
  nothing and are left out; what the hardware answers to a read is an input. A result
  \<open>None\<close> stands for a run that gives no result: a loop that never ends, or an
  operation C leaves undefined (a division by zero, an index outside an array).
\<close>

type_synonym u8 = "8 word"
type_synonym u16 = "16 word"
type_synonym u32 = "32 word"

subsection \<open>Data\<close>

text \<open>
  Modelled from the spec: the type declarations of common.h and variables.h. The
  capacitor record of the data model: the terminals \<open>A\<close> and \<open>B\<close>, the decimal exponent
  \<open>Scale\<close>, the magnitudes \<open>Raw\<close> and \<open>Value\<close>, the leakage current and the voltage loss,
  in the widths of the local variables cap.c assigns them from (\<open>Scale\<close> and
  \<open>I_leak_Scale\<close> are \<open>int8_t\<close>).
\<close>

record Capacitor_Type =
  A :: u8
  B :: u8
  Scale :: u8
  Raw :: u32
  Value :: u32
  I_leak_Value :: u16
  I_leak_Scale :: u8
  U_loss :: u16

text \<open>
  Modelled from the spec: the entries of the resistor and diode registries, with the
  fields cap.c reads (\<open>Resistor->A\<close>, \<open>B\<close>, \<open>Scale\<close>, \<open>Value\<close>; \<open>Diode->V_f\<close> in mV).
\<close>

record Resistor_Type =
  R_A :: u8
  R_B :: u8
  R_Scale :: u8
  R_Value :: u32

record Diode_Type =
  D_A :: u8
  D_C :: u8
  V_f :: u16

text \<open>
  Modelled from the spec: the probe assignment \<open>Probes\<close>, with the fields that take part
  in a computation, a read or a pulse (the pin masks are only written to ports).
\<close>

record Probes_Type =
  ID_1 :: u8
  ID_2 :: u8
  Ch_1 :: u8
  Ch_2 :: u8
  Rl_1 :: u8

text \<open>
  Modelled from the spec: the calibration store \<open>NV\<close>. \<open>RiL\<close> and \<open>RZero\<close> are 16-bit
  and \<open>CapZero\<close> is 8-bit (in pF), \<open>RefOffset\<close> and \<open>CompOffset\<close> are \<open>int8_t\<close>. The
  zero offsets are arrays indexed by the probe pair when \<open>R_MULTIOFFSET\<close> /
  \<open>CAP_MULTIOFFSET\<close> is set and scalars otherwise; both are kept as tables here, the
  scalar in slot 0. cap.c only reads them.
\<close>

record Adjust_Type =
  RiL :: u16
  RZero :: "u8 \<Rightarrow> u16"
  CapZero :: "u8 \<Rightarrow> u8"
  RefOffset :: u8
  CompOffset :: u8

text \<open>
  Modelled from the spec: the runtime configuration \<open>Cfg\<close> and the classification state
  \<open>Check\<close> (\<open>Check_Resistors\<close> is the field \<open>Check.Resistors\<close>, the number of resistors
  found).
\<close>

record Config_Type =
  Ref :: u8
  AutoScale :: u8
  Bandgap :: u16
  Samples :: u8

record Check_Type =
  Found :: u8
  Check_Resistors :: u8

text \<open>
  Everything cap.c takes from outside its own file, as parameters: the constants and
  build switches of config.h and common.h, the bit numbers of the Timer1 flags, the
  functions of the other source files, and the answers of the hardware. The k-th answer
  of the hardware to a read is given by a function of k (the k-th voltage read on a
  channel, the k-th raw conversion, the k-th poll of \<open>TIFR1\<close>, \<open>ICR1\<close> and \<open>TCNT1\<close> after
  k polls, whether the k-th discharge fails); the state counts the reads made so far.
\<close>

record env =
  CPU_FREQ :: nat
  MCU_CYCLES_PER_ADC :: nat
  MCU_CYCLES_PER_US :: nat
  CAP_FACTOR_SMALL :: int
  CAP_FACTOR_MID :: int
  CAP_FACTOR_LARGE :: int
  R_MULTIOFFSET :: bool
  CAP_MULTIOFFSET :: bool
  HW_ADJUST_CAP :: bool
  SW_C_VLOSS :: bool
  ADC_REF_BANDGAP :: u8
  ADC_SAMPLES :: u8
  COMP_ERROR :: u8
  COMP_RESISTOR :: u8
  COMP_CAPACITOR :: u8
  COMP_DIODE :: u8
  PULL_UP :: u8
  PULL_1MS :: u8
  PULL_10MS :: u8
  TABLE_SMALL_CAP :: u8
  TABLE_LARGE_CAP :: u8
  TP_CAP :: u8
  CAP_DISCHARGED :: u16
  CmpValue :: "u32 \<Rightarrow> u8 \<Rightarrow> u32 \<Rightarrow> u8 \<Rightarrow> u8"
  GetFactor :: "u16 \<Rightarrow> u8 \<Rightarrow> u16"
  GetOffsetIndex :: "u8 \<Rightarrow> u8 \<Rightarrow> u8"
  UpdateProbes2 :: "u8 \<Rightarrow> u8 \<Rightarrow> Probes_Type"
  SearchDiode :: "Diode_Type list \<Rightarrow> u8 \<Rightarrow> u8 \<Rightarrow> Diode_Type option"
  ReadU_in :: "nat \<Rightarrow> u8 \<Rightarrow> u16"
  ADCW_in :: "nat \<Rightarrow> u16"
  TIFR1_in :: "nat \<Rightarrow> u8"
  ICR1_in :: "nat \<Rightarrow> u16"
  TCNT1_in :: "nat \<Rightarrow> u16"
  Discharge_fails :: "nat \<Rightarrow> bool"
  ICF1 :: nat
  TOV1 :: nat

text \<open>
  The global variables cap.c works on, and the hardware interaction so far: the number
  of voltage reads, raw converter reads, Timer1 flag polls and probe discharges made,
  and the charging pulses given (pull mask and mode of each, latest first).
\<close>

record world =
  NV :: Adjust_Type
  Cfg :: Config_Type
  Check :: Check_Type
  Probes :: Probes_Type
  Caps :: "Capacitor_Type list"
  Resistors :: "Resistor_Type list"
  Diodes :: "Diode_Type list"
  n_ReadU :: nat
  n_ADCW :: nat
  n_TIFR1 :: nat
  n_Discharge :: nat
  Pulses_given :: "(u8 \<times> u8) list"

subsection \<open>Hardware primitives\<close>

text \<open>
  Modelled from the spec: \<open>DischargeProbes()\<close>, which lives in another file. What cap.c
  relies on: the call either succeeds or leaves \<open>Check.Found = COMP_ERROR\<close> (a discharge
  failure is a hard error).
\<close>

definition DischargeProbes :: "env \<Rightarrow> world \<Rightarrow> world" where
  "DischargeProbes e w =
     (let w1 = w\<lparr>n_Discharge := Suc (n_Discharge w)\<rparr>
      in if Discharge_fails e (n_Discharge w)
         then w1\<lparr>Check := (Check w1)\<lparr>Found := COMP_ERROR e\<rparr>\<rparr>
         else w1)"

text \<open>
  Modelled from the spec: \<open>ReadU(Channel)\<close>, the probe driver's \<open>read_voltage\<close>: the
  voltage in mV the converter reports for this read.
\<close>

definition ReadU :: "env \<Rightarrow> u8 \<Rightarrow> world \<Rightarrow> u16 \<times> world" where
  "ReadU e ch w = (ReadU_in e (n_ReadU w) ch, w\<lparr>n_ReadU := Suc (n_ReadU w)\<rparr>)"

text \<open>
  Modelled from the spec: \<open>PullProbe(Mask, Mode)\<close>, one charging pulse through the
  resistor \<open>Mask\<close>; the state keeps a list of the pulses given.
\<close>

definition PullProbe :: "u8 \<Rightarrow> u8 \<Rightarrow> world \<Rightarrow> world" where
  "PullProbe Rl Mode w = w\<lparr>Pulses_given := (Rl, Mode) # Pulses_given w\<rparr>"

subsection \<open>ESR measurement: \<open>MeasureESR\<close> of the build with \<open>SW_ESR\<close>\<close>

text \<open>\<open>SetUpDelayTimer\<close>: 0 when fewer than \<open>CYCLE_OFFSET = 17\<close> cycles are asked for.\<close>

definition SetUpDelayTimer :: "u8 \<Rightarrow> u8" where
  "SetUpDelayTimer Cycles = (if Cycles < 17 then 0 else 1)"

text \<open>The pulse delay \<open>n = (uint8_t)U_1\<close> handed to \<open>SetUpDelayTimer\<close>.\<close>

definition ESR_delay :: "env \<Rightarrow> u8" where
  "ESR_delay e =
     (let U_1 = (word_of_int (int ((MCU_CYCLES_PER_ADC e * 25) div 10)
                   - int (MCU_CYCLES_PER_US e * 10)
                   - int (MCU_CYCLES_PER_US e * 2) - 10) :: u16);
          U_1a = (if CPU_FREQ e = 8000000 then U_1 - 4 else U_1)
      in ucast U_1a)"

text \<open>
  The measurement loop \<open>while (n > 0)\<close>, started with \<open>n = 255\<close>: each run converts
  \<open>U_1\<close> (probe 1 unloaded), \<open>U_2\<close> (probe 2 in the positive pulse), \<open>U_3\<close> (probe 2
  unloaded) and \<open>U_4\<close> (probe 1 in the negative pulse), in this order, and adds them to
  the two sums. The top-up pulses for \<open>U_2 < 50\<close> and \<open>U_4 < 50\<close> only drive pins.
\<close>

function ESR_loop :: "env \<Rightarrow> u8 \<Rightarrow> u32 \<Rightarrow> u32 \<Rightarrow> world \<Rightarrow> u32 \<times> u32 \<times> world" where
  "ESR_loop e n Sum_1 Sum_2 w =
     (if n > 0 then
        (let U_1 = ADCW_in e (n_ADCW w);
             U_2 = ADCW_in e (n_ADCW w + 1);
             U_3 = ADCW_in e (n_ADCW w + 2);
             U_4 = ADCW_in e (n_ADCW w + 3)
         in ESR_loop e (n - 1)
              (Sum_1 + ucast U_1 + ucast U_3)
              (Sum_2 + ucast U_2 + ucast U_4)
              (w\<lparr>n_ADCW := n_ADCW w + 4\<rparr>))
      else (Sum_1, Sum_2, w))"
  by pat_completeness auto
termination
  by (relation "measure (\<lambda>(e, n, s1, s2, w). unat n)")
     (auto simp: unat_minus_one word_greater_zero_iff unat_gt_0)

declare ESR_loop.simps [simp del]

text \<open>The offset resistance \<open>U_2 = NV.RZero[n]\<close> or \<open>U_2 = NV.RZero\<close>.\<close>

definition RZero_cur :: "env \<Rightarrow> world \<Rightarrow> u16" where
  "RZero_cur e w =
     (if R_MULTIOFFSET e
      then RZero (NV w) (GetOffsetIndex e (ID_1 (Probes w)) (ID_2 (Probes w)))
      else RZero (NV w) 0)"

text \<open>
  The raw ESR \<open>U_1 = (uint16_t)Value\<close> for a valid measurement: \<open>NV.RiL * 10\<close> is a
  16-bit product, \<open>Value\<close> is 32 bits wide, and \<open>Sum_2\<close> has \<open>Sum_1\<close> subtracted.
\<close>

definition ESR_raw :: "world \<Rightarrow> u32 \<Rightarrow> u32 \<Rightarrow> u16" where
  "ESR_raw w Sum_1 Sum_2 =
     (let Sum_2a = Sum_2 - Sum_1;
          Val0 = (ucast (RiL (NV w) * 10) :: u32);
          Val1 = Val0 * Sum_2a;
          Val2 = Val1 div Sum_1
      in ucast Val2)"

text \<open>The block "process measurements": the value of \<open>ESR\<close> after it.\<close>

definition ESR_process :: "env \<Rightarrow> world \<Rightarrow> Capacitor_Type \<Rightarrow> u32 \<Rightarrow> u32 \<Rightarrow> u16" where
  "ESR_process e w c Sum_1 Sum_2 =
     (if Sum_2 > Sum_1 then
        (let U_1 = ESR_raw w Sum_1 Sum_2;
             U_2 = RZero_cur e w
         in if U_1 > U_2 then U_1 - U_2
            else if 0 < sint (CmpValue e (Value c) (Scale c) 1000 (- 6)) then 0
            else 0xFFFF)
      else 0xFFFF)"

text \<open>The state in which the measurement loop starts.\<close>

definition ESR_prepare :: "env \<Rightarrow> Capacitor_Type \<Rightarrow> world \<Rightarrow> world" where
  "ESR_prepare e c w = (DischargeProbes e w)\<lparr>Probes := UpdateProbes2 e (A c) (B c)\<rparr>"

text \<open>
  \<open>MeasureESR(Cap)\<close>; \<open>None\<close> is the NULL pointer. The result is the ESR in 0.01 Ohm,
  or \<open>UINT16_MAX\<close>.
\<close>

definition MeasureESR :: "env \<Rightarrow> Capacitor_Type option \<Rightarrow> world \<Rightarrow> u16 \<times> world" where
  "MeasureESR e Cap w =
     (case Cap of
        None \<Rightarrow> (0xFFFF, w)
      | Some c \<Rightarrow>
          if sint (CmpValue e (Value c) (Scale c) 10 (- 9)) < 0 then (0xFFFF, w)
          else if Found (Check (DischargeProbes e w)) = COMP_ERROR e
          then (0xFFFF, DischargeProbes e w)
          else if SetUpDelayTimer (ESR_delay e) = 0 then (0xFFFF, ESR_prepare e c w)
          else
            (case ESR_loop e 255 1 1 (ESR_prepare e c w) of
               (Sum_1, Sum_2, w3) \<Rightarrow>
                 (ESR_process e w3 c Sum_1 Sum_2,
                  DischargeProbes e (w3\<lparr>Cfg := (Cfg w3)\<lparr>Ref := ADC_REF_BANDGAP e\<rparr>\<rparr>))))"

subsection \<open>Large capacitors: \<open>LargeCap\<close>\<close>

text \<open>
  The zero offset \<open>U_Zero = ReadU(Probes.Ch_1); U_Zero -= ReadU(Probes.Ch_2)\<close>, an
  \<open>int16_t\<close>.
\<close>

definition LargeCap_zero :: "env \<Rightarrow> world \<Rightarrow> u16 \<times> world" where
  "LargeCap_zero e w =
     (let r1 = ReadU e (Ch_1 (Probes w)) w;
          r2 = ReadU e (Ch_2 (Probes w)) (snd r1)
      in (fst r1 - fst r2, snd r2))"

text \<open>
  "consider zero offset": in \<open>U_Cap > U_Zero\<close> and \<open>U_Cap -= U_Zero\<close> the \<open>int16_t\<close>
  is converted to \<open>unsigned int\<close>, so both are 16-bit unsigned operations.
\<close>

definition LargeCap_offset :: "u16 \<Rightarrow> u16 \<Rightarrow> u16" where
  "LargeCap_offset U_Zero U = (if U > U_Zero then U - U_Zero else 0)"

text \<open>
  The charge loop \<open>while (TempByte)\<close>, entered with \<open>Pulses = 0\<close>; it returns \<open>Pulses\<close>
  and \<open>U_Cap\<close>.
\<close>

function LargeCap_charge :: "env \<Rightarrow> u8 \<Rightarrow> u16 \<Rightarrow> u16 \<Rightarrow> world \<Rightarrow> u16 \<times> u16 \<times> world" where
  "LargeCap_charge e Mode U_Zero Pulses w =
     (let r = ReadU e (Ch_1 (Probes w)) (PullProbe (Rl_1 (Probes w)) Mode w);
          U_Cap = LargeCap_offset U_Zero (fst r)
      in if (Pulses + 1 = 126 \<and> U_Cap < 75) \<or> U_Cap \<ge> 300 \<or> Pulses + 1 = 500
         then (Pulses + 1, U_Cap, snd r)
         else LargeCap_charge e Mode U_Zero (Pulses + 1) (snd r))"
  by pat_completeness auto
termination
proof (relation "measure (\<lambda>(e, Mode, U_Zero, Pulses, w). unat (499 - Pulses))")
  show "wf (measure (\<lambda>(e, Mode, U_Zero, Pulses, w). unat (499 - Pulses)))"
    by simp
next
  fix e :: env and Mode :: u8 and U_Zero Pulses :: u16 and w :: world
    and x :: "u16 \<times> world" and xa :: u16
  assume "\<not> (Pulses + 1 = 126 \<and> xa < 75 \<or> 300 \<le> xa \<or> Pulses + 1 = 500)"
  then have ne: "Pulses \<noteq> 499"
    by auto
  define d where "d = 499 - Pulses"
  have nz: "d \<noteq> 0"
    using ne by (auto simp: d_def)
  have eq: "498 - Pulses = d - 1"
    by (simp add: d_def)
  have "unat (d - 1) < unat d"
    using nz by (simp add: unat_minus_one unat_gt_0)
  then have "unat (498 - Pulses) < unat (499 - Pulses)"
    unfolding eq d_def [symmetric] .
  then show "((e, Mode, U_Zero, Pulses + 1, snd x), e, Mode, U_Zero, Pulses, w)
       \<in> measure (\<lambda>(e, Mode, U_Zero, Pulses, w). unat (499 - Pulses))"
    by simp
qed

declare LargeCap_charge.simps [simp del]

text \<open>
  The delay loop \<open>while (TempInt > 0)\<close> of the self-discharge check, entered with
  \<open>TempInt = Pulses\<close>; it returns the last reading \<open>U_leak\<close>.
\<close>

function LargeCap_delay :: "env \<Rightarrow> u16 \<Rightarrow> u16 \<Rightarrow> world \<Rightarrow> u16 \<times> world" where
  "LargeCap_delay e TempInt U_leak w =
     (if TempInt > 0
      then LargeCap_delay e (TempInt - 1)
             (fst (ReadU e (Ch_1 (Probes w)) w)) (snd (ReadU e (Ch_1 (Probes w)) w))
      else (U_leak, w))"
  by pat_completeness auto
termination
  by (relation "measure (\<lambda>(e, TempInt, U_leak, w). unat TempInt)")
     (auto simp: unat_minus_one word_greater_zero_iff unat_gt_0)

declare LargeCap_delay.simps [simp del]

text \<open>
  The first \<open>if (Flag == 3)\<close> block: the voltage drop while waiting as long as the
  charging took, and the drop over 1000 ms or 100 ms. It returns \<open>Flag\<close>, \<open>U_Drop\<close>,
  \<open>U_leak\<close> and the capacitor record (\<open>U_loss\<close> is written with \<open>SW_C_VLOSS\<close>).
\<close>

definition LargeCap_drop ::
  "env \<Rightarrow> u16 \<Rightarrow> u16 \<Rightarrow> Capacitor_Type \<Rightarrow> world
     \<Rightarrow> u8 \<times> u16 \<times> u16 \<times> Capacitor_Type \<times> world" where
  "LargeCap_drop e Pulses U_Cap c w =
     (let r0 = ReadU e (Ch_1 (Probes w)) w;
          r1 = LargeCap_delay e Pulses 0 (snd r0);
          U_Drop = (if fst r0 > fst r1 then fst r0 - fst r1 else 0);
          c1 = (if fst r0 > fst r1 \<and> SW_C_VLOSS e
                then c\<lparr>U_loss := ucast (((ucast U_Drop :: u32) * 1000) div ucast U_Cap)\<rparr>
                else c);
          Flag = (if U_Drop > 100 then 0 else 3);
          r2 = ReadU e (Ch_1 (Probes w)) (snd r1);
          r3 = ReadU e (Ch_1 (Probes w)) (snd r2);
          U_leak = (if fst r2 > fst r3 then fst r2 - fst r3 else 0)
      in (Flag, U_Drop, U_leak, c1, snd r3))"

text \<open>The two rescaling loops \<open>while (Value > limit) { Value /= 10; Scale++; }\<close>.\<close>

function LargeCap_rescale :: "u32 \<Rightarrow> u32 \<Rightarrow> u8 \<Rightarrow> u32 \<times> u8" where
  "LargeCap_rescale lim Val Sc =
     (if Val > lim then LargeCap_rescale lim (Val div 10) (Sc + 1) else (Val, Sc))"
  by pat_completeness auto
termination
proof (relation "measure (\<lambda>(lim, Val, Sc). unat Val)")
  show "wf (measure (\<lambda>(lim, Val, Sc). unat Val))"
    by simp
next
  fix lim Val :: u32 and Sc :: u8
  assume "lim < Val"
  then have "0 < unat Val"
    by (simp add: word_less_nat_alt)
  then have "unat Val div 10 < unat Val"
    by simp
  then show "((lim, Val div 10, Sc + 1), lim, Val, Sc) \<in> measure (\<lambda>(lim, Val, Sc). unat Val)"
    by (simp add: unat_div)
qed

declare LargeCap_rescale.simps [simp del]

text \<open>
  The second \<open>if (Flag == 3)\<close> block: capacitance and leakage current. The divisor
  \<open>1000 - CAP_FACTOR_LARGE\<close> (or \<open>..._MID\<close>) is an \<open>int\<close> converted to \<open>uint32_t\<close>;
  a division by zero has no result (\<open>None\<close>).
\<close>

definition LargeCap_calc ::
  "env \<Rightarrow> u8 \<Rightarrow> u16 \<Rightarrow> u16 \<Rightarrow> u16 \<Rightarrow> u16 \<Rightarrow> world \<Rightarrow> Capacitor_Type
     \<Rightarrow> Capacitor_Type option" where
  "LargeCap_calc e Mode Pulses U_Cap U_Drop U_leak w c =
     (let Raw0 = (ucast (GetFactor e (U_Cap + U_Drop) (TABLE_LARGE_CAP e)) :: u32) * ucast Pulses;
          Raw1 = (if Mode AND PULL_10MS e \<noteq> 0 then Raw0 * 10 else Raw0);
          Raw2 = (if Raw1 > 4294967 then Raw1 div 1000 else Raw1);
          Scale0 = (if Raw1 > 4294967 then - 9 + 3 else - 9);
          dv = (word_of_int (1000 - (if Mode AND PULL_10MS e \<noteq> 0
                                     then CAP_FACTOR_LARGE e else CAP_FACTOR_MID e)) :: u32)
      in if dv = 0 then None
         else
           (let Val = (Raw2 * 1000) div dv;
                c1 = c\<lparr>A := ID_2 (Probes w), B := ID_1 (Probes w), Scale := Scale0,
                       Raw := Raw2, Value := Val\<rparr>;
                r1 = LargeCap_rescale 800000 Val Scale0;
                Val1 = (fst r1 * ucast U_leak) div 1000;
                Scale1 = (if Mode AND PULL_1MS e \<noteq> 0 then snd r1 + 1 else snd r1);
                r2 = LargeCap_rescale 65535 Val1 Scale1
            in Some (c1\<lparr>I_leak_Value := ucast (fst r2), I_leak_Scale := snd r2\<rparr>)))"

text \<open>Everything after the decision about the re-run, for a given \<open>Flag\<close>.\<close>

definition LargeCap_finish ::
  "env \<Rightarrow> u8 \<Rightarrow> u8 \<Rightarrow> u16 \<Rightarrow> u16 \<Rightarrow> Capacitor_Type \<Rightarrow> world
     \<Rightarrow> (u8 \<times> Capacitor_Type \<times> world) option" where
  "LargeCap_finish e Mode Flag Pulses U_Cap c w =
     (if Flag = 3 then
        (case LargeCap_drop e Pulses U_Cap c w of
           (Flag1, U_Drop, U_leak, c1, w1) \<Rightarrow>
             if Flag1 = 3 then
               (case LargeCap_calc e Mode Pulses U_Cap U_Drop U_leak w1 c1 of
                  None \<Rightarrow> None
                | Some c2 \<Rightarrow> Some (Flag1, c2, w1))
             else Some (Flag1, c1, w1))
      else Some (Flag, c, w))"

text \<open>
  One charge-and-measure attempt after the probes are discharged: the zero offset and
  the charge loop. It returns \<open>Pulses\<close> and \<open>U_Cap\<close>.
\<close>

definition LargeCap_attempt :: "env \<Rightarrow> u8 \<Rightarrow> world \<Rightarrow> u16 \<times> u16 \<times> world" where
  "LargeCap_attempt e Mode w =
     LargeCap_charge e Mode (fst (LargeCap_zero e w)) 0 (snd (LargeCap_zero e w))"

text \<open>
  \<open>LargeCap\<close> from the label \<open>large_cap\<close> on, for the current \<open>Mode\<close>; the \<open>goto\<close>
  is the recursive call. \<open>Flag\<close> is still 3 at every \<open>goto\<close>, since \<open>U_Cap > 1300\<close> there.
  The result is the return value, the capacitor record and the state; \<open>None\<close> stands
  for a run without a result.
\<close>

partial_function (option) LargeCap_from ::
  "env \<Rightarrow> u8 \<Rightarrow> Capacitor_Type \<Rightarrow> world \<Rightarrow> (u8 \<times> Capacitor_Type \<times> world) option" where
  "LargeCap_from e Mode c w =
     (if Found (Check (DischargeProbes e w)) = COMP_ERROR e
      then Some (0, c, DischargeProbes e w)
      else
        (let at = LargeCap_attempt e Mode (DischargeProbes e w);
             Pulses = fst at;
             U_Cap = fst (snd at);
             Flag = (if U_Cap < 300 then 1 else 3)
         in if Pulses = 1 \<and> U_Cap > 1300
            then (if Mode AND PULL_10MS e \<noteq> 0
                  then LargeCap_from e (PULL_1MS e OR PULL_UP e) c (snd (snd at))
                  else LargeCap_finish e Mode 2 Pulses U_Cap c (snd (snd at)))
            else LargeCap_finish e Mode Flag Pulses U_Cap c (snd (snd at))))"

declare LargeCap_from.simps [code]

definition LargeCap :: "env \<Rightarrow> Capacitor_Type \<Rightarrow> world \<Rightarrow> (u8 \<times> Capacitor_Type \<times> world) option" where
  "LargeCap e c w = LargeCap_from e (PULL_10MS e OR PULL_UP e) c w"

subsection \<open>Small capacitors: \<open>SmallCap\<close>\<close>

text \<open>
  The timer loop \<open>while (1)\<close>: each run reads the Timer1 flags \<open>TIFR1\<close> once. It ends
  when the input capture flag \<open>ICF1\<close> is set, or when the overflow counter \<open>Ticks2\<close>
  reaches \<open>CPU_FREQ / 5000\<close>. It returns \<open>TempByte\<close> and \<open>Ticks2\<close>; \<open>None\<close> stands
  for a loop that never ends.
\<close>

partial_function (option) SmallCap_timer ::
  "env \<Rightarrow> u16 \<Rightarrow> world \<Rightarrow> (u8 \<times> u16 \<times> world) option" where
  "SmallCap_timer e Ticks2 w =
     (if TIFR1_in e (n_TIFR1 w) AND push_bit (ICF1 e) 1 \<noteq> 0
      then Some (TIFR1_in e (n_TIFR1 w), Ticks2, w\<lparr>n_TIFR1 := Suc (n_TIFR1 w)\<rparr>)
      else if TIFR1_in e (n_TIFR1 w) AND push_bit (TOV1 e) 1 \<noteq> 0
      then (if unat (Ticks2 + 1) = CPU_FREQ e div 5000
            then Some (TIFR1_in e (n_TIFR1 w), Ticks2 + 1, w\<lparr>n_TIFR1 := Suc (n_TIFR1 w)\<rparr>)
            else SmallCap_timer e (Ticks2 + 1) (w\<lparr>n_TIFR1 := Suc (n_TIFR1 w)\<rparr>))
      else SmallCap_timer e Ticks2 (w\<lparr>n_TIFR1 := Suc (n_TIFR1 w)\<rparr>))"

declare SmallCap_timer.simps [code]

text \<open>
  From the start of the timer to the start of the discharge: \<open>Ticks = ICR1\<close>, the
  missed overflow, and the voltage \<open>U_c\<close> of the DUT (not read with
  \<open>HW_ADJUST_CAP\<close>). It returns \<open>Ticks\<close>, \<open>Ticks2\<close> and \<open>U_c\<close>.
\<close>

definition SmallCap_measure :: "env \<Rightarrow> world \<Rightarrow> (u16 \<times> u16 \<times> u16 \<times> world) option" where
  "SmallCap_measure e w =
     (case SmallCap_timer e 0 w of
        None \<Rightarrow> None
      | Some (TempByte, Ticks2, w1) \<Rightarrow>
          (let Ticks = ICR1_in e (n_TIFR1 w1);
               Ticks2a = (if TCNT1_in e (n_TIFR1 w1) > Ticks
                             \<and> TempByte AND push_bit (TOV1 e) 1 \<noteq> 0
                          then Ticks2 + 1 else Ticks2);
               r = (if HW_ADJUST_CAP e then (0, w1) else ReadU e (Ch_1 (Probes w1)) w1)
           in Some (Ticks, Ticks2a, fst r, snd r)))"

text \<open>
  The 32-bit tick count: \<open>Raw = Ticks | (Ticks2 << 16)\<close>, less 2 ticks of overhead
  \<open>if (Raw > 2)\<close>.
\<close>

definition SmallCap_ticks :: "u16 \<Rightarrow> u16 \<Rightarrow> u32" where
  "SmallCap_ticks Ticks Ticks2 =
     (let Raw0 = ucast Ticks OR push_bit 16 (ucast Ticks2)
      in if Raw0 > 2 then Raw0 - 2 else Raw0)"

text \<open>The zero offset \<open>NV.CapZero[TempByte]\<close> or \<open>NV.CapZero\<close>.\<close>

definition CapZero_cur :: "env \<Rightarrow> world \<Rightarrow> u8" where
  "CapZero_cur e w =
     (if CAP_MULTIOFFSET e
      then CapZero (NV w) (GetOffsetIndex e (ID_1 (Probes w)) (ID_2 (Probes w)))
      else CapZero (NV w) 0)"

text \<open>
  The calculation: it returns \<open>Scale\<close>, \<open>Raw\<close> and \<open>Value\<close>. A division by zero
  (\<open>CPU_FREQ / 10000\<close> or \<open>1000 - CAP_FACTOR_SMALL\<close>) has no result.
\<close>

definition SmallCap_calc :: "env \<Rightarrow> world \<Rightarrow> u16 \<Rightarrow> u16 \<Rightarrow> (u8 \<times> u32 \<times> u32) option" where
  "SmallCap_calc e w Ticks Ticks2 =
     (let Raw1 = SmallCap_ticks Ticks Ticks2;
          Scale0 = (if Raw1 > 4294967 then - 12 + 3 else - 12 :: u8);
          Raw2 = (if Raw1 > 4294967 then Raw1 div 1000 else Raw1);
          Raw3 = Raw2 * ucast (GetFactor e (Bandgap (Cfg w) + scast (CompOffset (NV w)))
                                 (TABLE_SMALL_CAP e));
          dv1 = (of_nat (CPU_FREQ e div 10000) :: u32);
          dv2 = (word_of_int (1000 - CAP_FACTOR_SMALL e) :: u32)
      in if dv1 = 0 \<or> (CAP_FACTOR_SMALL e \<noteq> 0 \<and> dv2 = 0) then None
         else
           (let Raw4 = Raw3 div dv1;
                Raw5 = (if CAP_FACTOR_SMALL e \<noteq> 0 then (Raw4 * 1000) div dv2 else Raw4);
                Val = (if Scale0 = - 12
                       then (if Raw5 \<ge> ucast (CapZero_cur e w)
                             then Raw5 - ucast (CapZero_cur e w) else 0)
                       else Raw5)
            in Some (Scale0, Raw5, Val)))"

text \<open>The loop \<open>while (ReadU(Probes.Ch_1) > 980)\<close> of the self-adjustment.\<close>

partial_function (option) SmallCap_discharge :: "env \<Rightarrow> world \<Rightarrow> world option" where
  "SmallCap_discharge e w =
     (if fst (ReadU e (Ch_1 (Probes w)) w) > 980
      then SmallCap_discharge e (snd (ReadU e (Ch_1 (Probes w)) w))
      else Some (snd (ReadU e (Ch_1 (Probes w)) w)))"

declare SmallCap_discharge.simps [code]

text \<open>
  The offset of the analog comparator: \<open>Offset = U_c - Ticks\<close>, stored in
  \<open>NV.CompOffset\<close> \<open>if ((Offset > -50) && (Offset < 50))\<close>.
\<close>

definition SmallCap_comp :: "u16 \<Rightarrow> u16 \<Rightarrow> world \<Rightarrow> world" where
  "SmallCap_comp U_c Ticks w =
     (let Offset = U_c - Ticks
      in if - 50 < sint Offset \<and> sint Offset < 50
         then w\<lparr>NV := (NV w)\<lparr>CompOffset := ucast Offset\<rparr>\<rparr>
         else w)"

text \<open>
  The self-adjustment of \<open>NV.RefOffset\<close> and \<open>NV.CompOffset\<close>. \<open>TempLong\<close> is an
  \<open>int32_t\<close>, and its division truncates towards zero; a division by \<open>Ticks2 = 0\<close>
  has no result.
\<close>

definition SmallCap_adjust :: "env \<Rightarrow> u16 \<Rightarrow> u32 \<Rightarrow> world \<Rightarrow> world option" where
  "SmallCap_adjust e U_c Val w =
     (case SmallCap_discharge e w of
        None \<Rightarrow> None
      | Some w1 \<Rightarrow>
          (let r1 = ReadU e (Ch_1 (Probes w1)) w1;
               r2 = ReadU e (Ch_1 (Probes w1)) (snd r1);
               w2 = (snd r2)\<lparr>Cfg := (Cfg (snd r2))\<lparr>AutoScale := 1\<rparr>\<rparr>;
               Offset = fst r1 - fst r2;
               Ticks = Bandgap (Cfg w2)
           in if sint Offset < - 4 \<or> sint Offset > 4
              then (if fst r2 = 0 then None
                    else
                      (let TempLong = (word_of_int ((sint Offset * uint Ticks) sdiv uint (fst r2)) :: u32);
                           w3 = w2\<lparr>NV := (NV w2)\<lparr>RefOffset := RefOffset (NV w2) + ucast TempLong\<rparr>\<rparr>
                       in Some (SmallCap_comp U_c (Ticks + scast (ucast Val :: u8)) w3)))
              else Some (SmallCap_comp U_c Ticks w2)))"

text \<open>
  The voltage loss (\<open>SW_C_VLOSS\<close>); the \<open>wait5us\<close> loops only pass time. It returns
  the return value of \<open>SmallCap\<close>: 0 when the probes cannot be discharged.
\<close>

definition SmallCap_vloss ::
  "env \<Rightarrow> u8 \<Rightarrow> u32 \<Rightarrow> Capacitor_Type \<Rightarrow> world \<Rightarrow> u8 \<times> Capacitor_Type \<times> world" where
  "SmallCap_vloss e Sc Val c w =
     (if CmpValue e Val Sc 50 (- 9) = 1 then
        (if Found (Check (DischargeProbes e w)) = COMP_ERROR e
         then (0, c, DischargeProbes e w)
         else
           (let r0 = ReadU e (Ch_1 (Probes w)) (DischargeProbes e w);
                U_Zero = fst r0;
                r1 = ReadU e (Ch_1 (Probes w)) ((snd r0)\<lparr>Cfg := (Cfg (snd r0))\<lparr>Samples := 5\<rparr>\<rparr>);
                Ticks2 = (if fst r1 > U_Zero then fst r1 - U_Zero else 0);
                r2 = ReadU e (Ch_1 (Probes w)) (snd r1);
                w3 = (snd r2)\<lparr>Cfg := (Cfg (snd r2))\<lparr>Samples := ADC_SAMPLES e\<rparr>\<rparr>;
                Ticks = (if fst r2 > U_Zero then fst r2 - U_Zero else 0)
            in (3,
                if Ticks2 > Ticks
                then c\<lparr>U_loss := ucast (((ucast (Ticks2 - Ticks) :: u32) * 500) div ucast Ticks2)\<rparr>
                else c,
                w3)))
      else (3, c, w))"

text \<open>
  \<open>SmallCap(Cap)\<close>: the return value, the capacitor record and the state; \<open>None\<close>
  stands for a run without a result.
\<close>

definition SmallCap :: "env \<Rightarrow> Capacitor_Type \<Rightarrow> world \<Rightarrow> (u8 \<times> Capacitor_Type \<times> world) option" where
  "SmallCap e c w =
     (if Found (Check (DischargeProbes e w)) = COMP_ERROR e
      then Some (0, c, DischargeProbes e w)
      else
        (case SmallCap_measure e (DischargeProbes e w) of
           None \<Rightarrow> None
         | Some (Ticks, Ticks2, U_c, w1) \<Rightarrow>
             if unat Ticks2 \<ge> CPU_FREQ e div 5000 then Some (1, c, w1)
             else
               (case SmallCap_calc e w1 Ticks Ticks2 of
                  None \<Rightarrow> None
                | Some (Sc, Rw, Val) \<Rightarrow>
                    (let c1 = c\<lparr>A := ID_2 (Probes w1), B := ID_1 (Probes w1), Scale := Sc,
                                Raw := Rw, Value := Val\<rparr>
                     in case (if \<not> HW_ADJUST_CAP e
                                 \<and> ((Sc = - 12 \<and> Val \<ge> 100000) \<or> (Sc = - 9 \<and> Val \<le> 20000))
                              then SmallCap_adjust e U_c Val w1 else Some w1) of
                          None \<Rightarrow> None
                        | Some w2 \<Rightarrow>
                            if SW_C_VLOSS e then Some (SmallCap_vloss e Sc Val c1 w2)
                            else Some (3, c1, w2)))))"

subsection \<open>The reference capacitor: \<open>RefCap\<close> of the build with \<open>HW_ADJUST_CAP\<close>\<close>

text \<open>
  The discharge loop \<open>while (TempByte <= 50)\<close>: the voltage of the reference capacitor
  on channel \<open>TP_CAP\<close> is read up to 51 times, 20 ms apart, until it is at most
  \<open>CAP_DISCHARGED\<close>. It returns \<open>TempByte\<close>, which is 100 when the capacitor is
  discharged.
\<close>

function RefCap_wait :: "env \<Rightarrow> u8 \<Rightarrow> world \<Rightarrow> u8 \<times> world" where
  "RefCap_wait e TempByte w =
     (if TempByte \<le> 50
      then (if fst (ReadU e (TP_CAP e) w) \<le> CAP_DISCHARGED e
            then RefCap_wait e 100 (snd (ReadU e (TP_CAP e) w))
            else RefCap_wait e (TempByte + 1) (snd (ReadU e (TP_CAP e) w)))
      else (TempByte, w))"
  by pat_completeness auto
termination
proof (relation "measure (\<lambda>(e, TempByte, w). 51 - unat TempByte)")
  show "wf (measure (\<lambda>(e, TempByte, w). 51 - unat TempByte))"
    by simp
next
  fix e :: env and TempByte :: u8 and w :: world
  assume "TempByte \<le> 50"
  then have "unat TempByte \<le> 50"
    by (simp add: word_le_nat_alt)
  then show "((e, 100, snd (ReadU e (TP_CAP e) w)), e, TempByte, w)
       \<in> measure (\<lambda>(e, TempByte, w). 51 - unat TempByte)"
    by simp
next
  fix e :: env and TempByte :: u8 and w :: world
  assume "TempByte \<le> 50"
  then have le: "unat TempByte \<le> 50"
    by (simp add: word_le_nat_alt)
  then have "unat (TempByte + 1) = unat TempByte + 1"
    by (simp add: unat_word_ariths(1))
  with le show "((e, TempByte + 1, snd (ReadU e (TP_CAP e) w)), e, TempByte, w)
       \<in> measure (\<lambda>(e, TempByte, w). 51 - unat TempByte)"
    by simp
qed

declare RefCap_wait.simps [simp del]

text \<open>
  From the start of the timer to the start of the discharge. The timer loop of
  \<open>RefCap\<close> is, statement for statement, the timer loop of \<open>SmallCap\<close>. After it the
  flags \<open>TIFR1\<close> are read once more to clear a missed overflow, which is not counted
  here, and the voltage \<open>U_c\<close> of the capacitor is read. It returns \<open>Ticks2\<close> and
  \<open>U_c\<close>.
\<close>

definition RefCap_measure :: "env \<Rightarrow> world \<Rightarrow> (u16 \<times> u16 \<times> world) option" where
  "RefCap_measure e w =
     (case SmallCap_timer e 0 w of
        None \<Rightarrow> None
      | Some (TempByte, Ticks2, w1) \<Rightarrow>
          (let r = ReadU e (TP_CAP e) (w1\<lparr>n_TIFR1 := Suc (n_TIFR1 w1)\<rparr>)
           in Some (Ticks2, fst r, snd r)))"

text \<open>The loop \<open>while (ReadU(TP_CAP) > 980)\<close>.\<close>

partial_function (option) RefCap_discharge :: "env \<Rightarrow> world \<Rightarrow> world option" where
  "RefCap_discharge e w =
     (if fst (ReadU e (TP_CAP e) w) > 980
      then RefCap_discharge e (snd (ReadU e (TP_CAP e) w))
      else Some (snd (ReadU e (TP_CAP e) w)))"

declare RefCap_discharge.simps [code]

text \<open>
  The offset of the analog comparator: \<open>Offset = U_c - Ticks\<close>, stored in
  \<open>NV.CompOffset\<close> \<open>if ((Offset > -50) && (Offset < 50))\<close>.
\<close>

definition RefCap_comp :: "u16 \<Rightarrow> u16 \<Rightarrow> world \<Rightarrow> world" where
  "RefCap_comp U_c Ticks w =
     (let Offset = U_c - Ticks
      in if - 50 < sint Offset \<and> sint Offset < 50
         then w\<lparr>NV := (NV w)\<lparr>CompOffset := ucast Offset\<rparr>\<rparr>
         else w)"

text \<open>
  The block \<open>if (Flag)\<close>: the offsets. \<open>Value\<close> is an \<open>int32_t\<close>, and its division
  truncates towards zero; a division by \<open>Ticks2 = 0\<close> has no result. The correction
  \<open>(int8_t)Value\<close> is added to \<open>NV.RefOffset\<close>, to the local \<open>U_bandgap\<close> and so to
  \<open>Cfg.Bandgap\<close>.
\<close>

definition RefCap_adjust :: "env \<Rightarrow> u16 \<Rightarrow> world \<Rightarrow> world option" where
  "RefCap_adjust e U_c w =
     (case RefCap_discharge e w of
        None \<Rightarrow> None
      | Some w1 \<Rightarrow>
          (let r1 = ReadU e (TP_CAP e) w1;
               r2 = ReadU e (TP_CAP e) (snd r1);
               w2 = (snd r2)\<lparr>Cfg := (Cfg (snd r2))\<lparr>AutoScale := 1\<rparr>\<rparr>;
               Offset = fst r1 - fst r2;
               Ticks = Bandgap (Cfg w2)
           in if sint Offset < - 4 \<or> sint Offset > 4
              then (if fst r2 = 0 then None
                    else
                      (let Val = (word_of_int ((sint Offset * uint Ticks) sdiv uint (fst r2)) :: u32);
                           Ticks1 = Ticks + scast (ucast Val :: u8);
                           w3 = w2\<lparr>NV := (NV w2)\<lparr>RefOffset := RefOffset (NV w2) + ucast Val\<rparr>,
                                   Cfg := (Cfg w2)\<lparr>Bandgap := Ticks1\<rparr>\<rparr>
                       in Some (RefCap_comp U_c Ticks1 w3)))
              else Some (RefCap_comp U_c Ticks w2)))"

text \<open>
  \<open>RefCap()\<close>: the return value (1 on success, 0 on a timeout of the discharge or of
  the charge) and the state; \<open>None\<close> stands for a run without a result.
\<close>

definition RefCap :: "env \<Rightarrow> world \<Rightarrow> (u8 \<times> world) option" where
  "RefCap e w =
     (let r = RefCap_wait e 0 w
      in if fst r \<noteq> 100 then Some (0, snd r)
         else
           (case RefCap_measure e (snd r) of
              None \<Rightarrow> None
            | Some (Ticks2, U_c, w1) \<Rightarrow>
                if unat Ticks2 < CPU_FREQ e div 5000
                then (case RefCap_adjust e U_c w1 of
                        None \<Rightarrow> None
                      | Some w2 \<Rightarrow> Some (1, w2))
                else Some (0, w1)))"

subsection \<open>The orchestrator: \<open>MeasureCap\<close>\<close>

text \<open>"reset cap data": the values \<open>MeasureCap\<close> first writes to \<open>Caps[ID]\<close>.\<close>

definition Cap_reset :: "env \<Rightarrow> Capacitor_Type \<Rightarrow> Capacitor_Type" where
  "Cap_reset e c =
     (let c1 = c\<lparr>A := 0, B := 0, Scale := - 12, Raw := 0, Value := 0, I_leak_Value := 0\<rparr>
      in if SW_C_VLOSS e then c1\<lparr>U_loss := 0\<rparr> else c1)"

text \<open>
  The loop \<open>while (TempByte < Check.Resistors)\<close> over the resistors found; \<open>i\<close> is the
  position of the pointer \<open>Resistor\<close> in the array. It returns \<open>TempByte\<close>; a read
  behind the end of the array has no result.
\<close>

function MeasureCap_resistors ::
  "env \<Rightarrow> Resistor_Type list \<Rightarrow> u8 \<Rightarrow> u8 \<Rightarrow> u8 \<Rightarrow> u8 \<Rightarrow> nat \<Rightarrow> u8 option" where
  "MeasureCap_resistors e rs cnt Probe1 Probe2 TempByte i =
     (if TempByte < cnt then
        (if i < length rs then
           MeasureCap_resistors e rs cnt Probe1 Probe2
             ((if ((R_A (rs ! i) = Probe1 \<and> R_B (rs ! i) = Probe2)
                     \<or> (R_A (rs ! i) = Probe2 \<and> R_B (rs ! i) = Probe1))
                    \<and> sint (CmpValue e (R_Value (rs ! i)) (R_Scale (rs ! i)) 10 0) = - 1
               then 99 else TempByte) + 1)
             (Suc i)
         else None)
      else Some TempByte)"
  by pat_completeness auto
termination
  by (relation "measure (\<lambda>(e, rs, cnt, Probe1, Probe2, TempByte, i). length rs - i)") auto

declare MeasureCap_resistors.simps [simp del]

text \<open>
  The block \<open>if (Check.Found == COMP_RESISTOR)\<close>: \<open>True\<close> when \<open>MeasureCap\<close> returns
  there (\<open>TempByte != 100\<close>).
\<close>

definition MeasureCap_skip_resistor :: "env \<Rightarrow> u8 \<Rightarrow> u8 \<Rightarrow> world \<Rightarrow> bool option" where
  "MeasureCap_skip_resistor e Probe1 Probe2 w =
     (if Found (Check w) = COMP_RESISTOR e then
        (case MeasureCap_resistors e (Resistors w) (Check_Resistors (Check w)) Probe1 Probe2 0 0 of
           None \<Rightarrow> None
         | Some TempByte \<Rightarrow> Some (TempByte \<noteq> 100))
      else Some False)"

text \<open>The block "Skip measurement for dangerous diodes": \<open>True\<close> for the return.\<close>

definition MeasureCap_skip_diode :: "env \<Rightarrow> u8 \<Rightarrow> u8 \<Rightarrow> world \<Rightarrow> bool" where
  "MeasureCap_skip_diode e Probe1 Probe2 w =
     (case SearchDiode e (Diodes w) Probe1 Probe2 of
        None \<Rightarrow> False
      | Some Diode \<Rightarrow> V_f Diode < 1500)"

text \<open>The block "check for plausibility".\<close>

definition MeasureCap_plausible :: "env \<Rightarrow> Capacitor_Type \<Rightarrow> world \<Rightarrow> world" where
  "MeasureCap_plausible e c w =
     (if Found (Check w) < COMP_DIODE e then
        (if Found (Check w) = COMP_RESISTOR e then
           (if - 6 \<le> sint (Scale c)
            then w\<lparr>Check := (Check w)\<lparr>Found := COMP_CAPACITOR e\<rparr>\<rparr> else w)
         else if - 12 < sint (Scale c) \<or> Value c \<ge> 5
         then w\<lparr>Check := (Check w)\<lparr>Found := COMP_CAPACITOR e\<rparr>\<rparr>
         else w)
      else w)"

text \<open>"run measurements": \<open>LargeCap\<close>, and \<open>SmallCap\<close> if that returns 2.\<close>

definition MeasureCap_run ::
  "env \<Rightarrow> Capacitor_Type \<Rightarrow> world \<Rightarrow> (u8 \<times> Capacitor_Type \<times> world) option" where
  "MeasureCap_run e c w =
     (case LargeCap e c w of
        None \<Rightarrow> None
      | Some (TempByte, c1, w1) \<Rightarrow>
          if TempByte = 2 then SmallCap e c1 w1 else Some (TempByte, c1, w1))"

text \<open>
  \<open>MeasureCap(Probe1, Probe2, ID)\<close>. \<open>Cap = &Caps[ID]\<close> is the only pointer to the
  record, so the estimators get the record and hand it back. An \<open>ID\<close> outside the
  array has no result.
\<close>

definition MeasureCap :: "env \<Rightarrow> u8 \<Rightarrow> u8 \<Rightarrow> u8 \<Rightarrow> world \<Rightarrow> world option" where
  "MeasureCap e Probe1 Probe2 ID w =
     (if length (Caps w) \<le> unat ID then None
      else
        (let c0 = Cap_reset e (Caps w ! unat ID);
             w0 = w\<lparr>Caps := (Caps w)[unat ID := c0]\<rparr>
         in if Found (Check w0) = COMP_ERROR e then Some w0
            else
              (case MeasureCap_skip_resistor e Probe1 Probe2 w0 of
                 None \<Rightarrow> None
               | Some True \<Rightarrow> Some w0
               | Some False \<Rightarrow>
                   if MeasureCap_skip_diode e Probe1 Probe2 w0 then Some w0
                   else
                     (case MeasureCap_run e c0 (w0\<lparr>Probes := UpdateProbes2 e Probe1 Probe2\<rparr>) of
                        None \<Rightarrow> None
                      | Some (TempByte, c2, w2) \<Rightarrow>
                          Some (DischargeProbes e
                                  (MeasureCap_plausible e c2
                                     (w2\<lparr>Caps := (Caps w2)[unat ID := c2]\<rparr>)))))))"

subsection \<open>What the timer shows\<close>

text \<open>
  Two ways to say what the polls of \<open>TIFR1\<close> number \<open>n0\<close> to \<open>n0 + N - 1\<close> show: none
  of them has the input capture flag \<open>ICF1\<close> set; and how many of them have the
  overflow flag \<open>TOV1\<close> set.
\<close>

definition no_capture :: "env \<Rightarrow> nat \<Rightarrow> nat \<Rightarrow> bool" where
  "no_capture e n0 N = (\<forall>k \<in> {n0..<n0 + N}. TIFR1_in e k AND push_bit (ICF1 e) 1 = 0)"

definition overflows_seen :: "env \<Rightarrow> nat \<Rightarrow> nat \<Rightarrow> nat" where
  "overflows_seen e n0 N =
     length (filter (\<lambda>k. TIFR1_in e k AND push_bit (TOV1 e) 1 \<noteq> 0) [n0..<n0 + N])"

subsection \<open>What the voltage reads show\<close>

text \<open>
  The voltage reads number \<open>n0\<close>, \<open>n0 + 1\<close>, ... of channel \<open>ch\<close>: the first \<open>k\<close> of
  them are above \<open>lim\<close> and the next one is not.
\<close>

definition reads_above :: "env \<Rightarrow> u8 \<Rightarrow> u16 \<Rightarrow> nat \<Rightarrow> nat \<Rightarrow> bool" where
  "reads_above e ch lim n0 k \<longleftrightarrow>
     list_all (\<lambda>j. lim < ReadU_in e (n0 + j) ch) [0..<k] \<and> ReadU_in e (n0 + k) ch \<le> lim"

text \<open>
  The offset-corrected voltage of the capacitor after pulse \<open>k\<close> (counted from 1) of the
  first attempt of \<open>LargeCap\<close> in state \<open>w\<close>, in mV. The first two reads give the zero
  offset, probe 1 less probe 2 as a 16-bit number; read \<open>k + 1\<close> is taken after pulse
  \<open>k\<close>. The corrected voltage is that reading less the zero offset, and 0 when the
  reading is not above the zero offset.
\<close>

definition offset_corrected :: "env \<Rightarrow> world \<Rightarrow> nat \<Rightarrow> nat" where
  "offset_corrected e w k =
     unat (ReadU_in e (n_ReadU w + 1 + k) (Ch_1 (Probes w)))
       - unat (ReadU_in e (n_ReadU w) (Ch_1 (Probes w))
                 - ReadU_in e (n_ReadU w + 1) (Ch_2 (Probes w)))"

subsection \<open>A reference build and state\<close>

text \<open>
  A comparison of two scaled values \<open>Value * 10^Scale\<close> for \<open>CmpValue\<close>, for scales
  from -12 on: -1, 0 or 1.
\<close>

definition CmpValue_ref :: "u32 \<Rightarrow> u8 \<Rightarrow> u32 \<Rightarrow> u8 \<Rightarrow> u8" where
  "CmpValue_ref v1 s1 v2 s2 =
     (let x = int (unat v1) * 10 ^ nat (sint s1 + 12);
          y = int (unat v2) * 10 ^ nat (sint s2 + 12)
      in if x < y then - 1 else if x = y then 0 else 1)"

text \<open>
  An 8 MHz build with single offsets, the flag and component numbers of common.h, and
  hardware that answers every read with 0, sets no timer flag and always discharges.
\<close>

definition env_ref :: env where
  "env_ref = \<lparr> CPU_FREQ = 8000000, MCU_CYCLES_PER_ADC = 64, MCU_CYCLES_PER_US = 8,
     CAP_FACTOR_SMALL = 0, CAP_FACTOR_MID = - 40, CAP_FACTOR_LARGE = - 90,
     R_MULTIOFFSET = False, CAP_MULTIOFFSET = False, HW_ADJUST_CAP = False,
     SW_C_VLOSS = False, ADC_REF_BANDGAP = 0xC0, ADC_SAMPLES = 25,
     COMP_ERROR = 1, COMP_RESISTOR = 10, COMP_CAPACITOR = 11, COMP_DIODE = 20,
     PULL_UP = 1, PULL_1MS = 8, PULL_10MS = 16,
     TABLE_SMALL_CAP = 1, TABLE_LARGE_CAP = 2, TP_CAP = 5, CAP_DISCHARGED = 2,
     CmpValue = CmpValue_ref,
     GetFactor = (\<lambda>u t. 500),
     GetOffsetIndex = (\<lambda>p q. 0),
     UpdateProbes2 = (\<lambda>p q. \<lparr>ID_1 = p, ID_2 = q, Ch_1 = p, Ch_2 = q, Rl_1 = 1\<rparr>),
     SearchDiode = (\<lambda>ds p q. find (\<lambda>d. D_A d = p \<and> D_C d = q) ds),
     ReadU_in = (\<lambda>k ch. 0),
     ADCW_in = (\<lambda>k. 0),
     TIFR1_in = (\<lambda>k. 0),
     ICR1_in = (\<lambda>k. 0),
     TCNT1_in = (\<lambda>k. 0),
     Discharge_fails = (\<lambda>k. False),
     ICF1 = 5, TOV1 = 0 \<rparr>"

definition cap_ref :: Capacitor_Type where
  "cap_ref = \<lparr>A = 1, B = 2, Scale = - 9, Raw = 470, Value = 470, I_leak_Value = 3,
              I_leak_Scale = - 6, U_loss = 0\<rparr>"

definition world_ref :: world where
  "world_ref = \<lparr>
     NV = \<lparr>RiL = 200, RZero = (\<lambda>i. 20), CapZero = (\<lambda>i. 40), RefOffset = 0, CompOffset = 7\<rparr>,
     Cfg = \<lparr>Ref = 0x40, AutoScale = 1, Bandgap = 1100, Samples = 25\<rparr>,
     Check = \<lparr>Found = 0, Check_Resistors = 0\<rparr>,
     Probes = \<lparr>ID_1 = 0, ID_2 = 1, Ch_1 = 0, Ch_2 = 1, Rl_1 = 1\<rparr>,
     Caps = [cap_ref, cap_ref, cap_ref], Resistors = [], Diodes = [],
     n_ReadU = 0, n_ADCW = 0, n_TIFR1 = 0, n_Discharge = 0, Pulses_given = [] \<rparr>"

text \<open>The same build and hardware, with raw converter values \<open>a\<close> (unloaded) and \<open>b\<close> (loaded).\<close>

definition env_esr :: "u16 \<Rightarrow> u16 \<Rightarrow> env" where
  "env_esr a b = env_ref\<lparr>ADCW_in := (\<lambda>k. if even k then a else b)\<rparr>"

text \<open>
  The same build with a DUT that charges slowly: the first \<open>n\<close> polls of \<open>TIFR1\<close> show
  a timer overflow, all later ones the input capture with \<open>ICR1 = icr\<close>; the first
  voltage read is \<open>u_c\<close>, all later ones are 900 mV.
\<close>

definition env_small :: "nat \<Rightarrow> u16 \<Rightarrow> u16 \<Rightarrow> env" where
  "env_small n icr u_c = env_ref\<lparr>TIFR1_in := (\<lambda>k. if k < n then 1 else 32),
     ICR1_in := (\<lambda>k. icr), ReadU_in := (\<lambda>k ch. if k = 0 then u_c else 900)\<rparr>"

text \<open>
  The same build with a DUT that a single pulse charges to 2000 mV: the third voltage
  read of each attempt of \<open>LargeCap\<close> is 2000 mV, every other read is 0.
\<close>

definition env_large :: env where
  "env_large = env_ref\<lparr>ReadU_in := (\<lambda>k ch. if k = 2 \<or> k = 5 then 2000 else 0)\<rparr>"

text \<open>
  The same build with a zero offset of 40 mV (the first two voltage reads are 140 mV and
  100 mV) and a DUT that every charging pulse leaves at \<open>u\<close> mV.
\<close>

definition env_charge :: "u16 \<Rightarrow> env" where
  "env_charge u = env_ref\<lparr>ReadU_in := (\<lambda>k ch. if k = 0 then 140 else if k = 1 then 100 else u)\<rparr>"

text \<open>
  The slowly charging DUT of \<open>env_small\<close> with the voltage reads of a self-adjustment:
  \<open>u_c\<close> at the capture, then 1050, 1000 and 900 mV while the DUT is discharged below
  the bandgap reference, then \<open>u_vcc\<close> and \<open>u_bg\<close>.
\<close>

definition env_cal :: "u16 \<Rightarrow> u16 \<Rightarrow> u16 \<Rightarrow> env" where
  "env_cal u_c u_vcc u_bg = (env_small 66 0 u_c)\<lparr>ReadU_in :=
     (\<lambda>k ch. if k = 0 then u_c else if k = 1 then 1050 else if k = 2 then 1000
             else if k = 3 then 900 else if k = 4 then u_vcc else u_bg)\<rparr>"

text \<open>
  A build with the reference capacitor: it is discharged at the third voltage read, the
  capture shows at the fourth poll of the timer flags after three overflows, and the
  reads that follow are those of \<open>env_cal\<close>.
\<close>

definition env_refcap :: "u16 \<Rightarrow> u16 \<Rightarrow> u16 \<Rightarrow> env" where
  "env_refcap u_c u_vcc u_bg = env_ref\<lparr>HW_ADJUST_CAP := True,
     TIFR1_in := (\<lambda>k. if k < 3 then 1 else 32),
     ReadU_in :=
       (\<lambda>k ch. if k = 0 then 30 else if k = 1 then 10 else if k = 2 then 2
               else if k = 3 then u_c else if k = 4 then 1050 else if k = 5 then 1000
               else if k = 6 then 900 else if k = 7 then u_vcc else u_bg)\<rparr>"

text \<open>The same build with a reference capacitor that stays at 30 mV.\<close>

definition env_stuck :: env where
  "env_stuck = env_ref\<lparr>HW_ADJUST_CAP := True, ReadU_in := (\<lambda>k ch. 30)\<rparr>"

text \<open>The reference state with a diode of 700 mV found between probes 0 and 1.\<close>

definition world_diode :: world where
  "world_diode = world_ref\<lparr>Diodes := [\<lparr>D_A = 0, D_C = 1, V_f = 700\<rparr>]\<rparr>"

subsection \<open>The formulas of the specification\<close>

text \<open>
  The raw ESR as the specification writes it, in exact arithmetic:
  \<open>(RiL * 10) * (loaded_sum - unloaded_sum) / unloaded_sum\<close>.
\<close>

definition spec_ESR_raw :: "nat \<Rightarrow> nat \<Rightarrow> nat \<Rightarrow> nat" where
  "spec_ESR_raw ril sum_1 sum_2 = ((ril * 10) * (sum_2 - sum_1)) div sum_1"

text \<open>A value clamped to \<open>+-50\<close>, as the specification words the comparator offset.\<close>

definition spec_clamp_50 :: "int \<Rightarrow> int" where
  "spec_clamp_50 x = max (- 50) (min 50 x)"

section \<open>Properties\<close>

subsection \<open>Auxiliary facts\<close>

lemma env_ref_sel:
  "CPU_FREQ env_ref = 8000000" "MCU_CYCLES_PER_ADC env_ref = 64" "MCU_CYCLES_PER_US env_ref = 8"
  "CAP_FACTOR_SMALL env_ref = 0" "CAP_FACTOR_MID env_ref = - 40" "CAP_FACTOR_LARGE env_ref = - 90"
  "R_MULTIOFFSET env_ref = False" "CAP_MULTIOFFSET env_ref = False" "HW_ADJUST_CAP env_ref = False"
  "SW_C_VLOSS env_ref = False" "ADC_REF_BANDGAP env_ref = 0xC0" "ADC_SAMPLES env_ref = 25"
  "COMP_ERROR env_ref = 1" "COMP_RESISTOR env_ref = 10" "COMP_CAPACITOR env_ref = 11"
  "COMP_DIODE env_ref = 20" "PULL_UP env_ref = 1" "PULL_1MS env_ref = 8" "PULL_10MS env_ref = 16"
  "TABLE_SMALL_CAP env_ref = 1" "TABLE_LARGE_CAP env_ref = 2"
  "TP_CAP env_ref = 5" "CAP_DISCHARGED env_ref = 2"
  "CmpValue env_ref = CmpValue_ref" "GetFactor env_ref = (\<lambda>u t. 500)"
  "GetOffsetIndex env_ref = (\<lambda>p q. 0)"
  "UpdateProbes2 env_ref = (\<lambda>p q. \<lparr>ID_1 = p, ID_2 = q, Ch_1 = p, Ch_2 = q, Rl_1 = 1\<rparr>)"
  "SearchDiode env_ref = (\<lambda>ds p q. find (\<lambda>d. D_A d = p \<and> D_C d = q) ds)"
  "ReadU_in env_ref = (\<lambda>k ch. 0)" "ADCW_in env_ref = (\<lambda>k. 0)" "TIFR1_in env_ref = (\<lambda>k. 0)"
  "ICR1_in env_ref = (\<lambda>k. 0)" "TCNT1_in env_ref = (\<lambda>k. 0)"
  "Discharge_fails env_ref = (\<lambda>k. False)" "ICF1 env_ref = 5" "TOV1 env_ref = 0"
  by (simp_all add: env_ref_def)

lemma world_ref_sel:
  "NV world_ref = \<lparr>RiL = 200, RZero = (\<lambda>i. 20), CapZero = (\<lambda>i. 40), RefOffset = 0, CompOffset = 7\<rparr>"
  "Cfg world_ref = \<lparr>Ref = 0x40, AutoScale = 1, Bandgap = 1100, Samples = 25\<rparr>"
  "Check world_ref = \<lparr>Found = 0, Check_Resistors = 0\<rparr>"
  "Probes world_ref = \<lparr>ID_1 = 0, ID_2 = 1, Ch_1 = 0, Ch_2 = 1, Rl_1 = 1\<rparr>"
  "Caps world_ref = [cap_ref, cap_ref, cap_ref]" "Resistors world_ref = []" "Diodes world_ref = []"
  "n_ReadU world_ref = 0" "n_ADCW world_ref = 0" "n_TIFR1 world_ref = 0"
  "n_Discharge world_ref = 0" "Pulses_given world_ref = []"
  by (simp_all add: world_ref_def)

lemma cap_ref_sel:
  "A cap_ref = 1" "B cap_ref = 2" "Scale cap_ref = - 9" "Raw cap_ref = 470" "Value cap_ref = 470"
  "I_leak_Value cap_ref = 3" "I_leak_Scale cap_ref = - 6" "U_loss cap_ref = 0"
  by (simp_all add: cap_ref_def)

lemma ESR_loop_sums:
  "ESR_loop e n S1 S2 w =
     (S1 + (\<Sum>i<unat n. ucast (ADCW_in e (n_ADCW w + 4 * i)) + ucast (ADCW_in e (n_ADCW w + 4 * i + 2))),
      S2 + (\<Sum>i<unat n. ucast (ADCW_in e (n_ADCW w + 4 * i + 1)) + ucast (ADCW_in e (n_ADCW w + 4 * i + 3))),
      w\<lparr>n_ADCW := n_ADCW w + 4 * unat n\<rparr>)"
proof (induction e n S1 S2 w rule: ESR_loop.induct)
  case (1 e n Sum_1 Sum_2 w)
  show ?case
  proof (cases "n > 0")
    case False
    then have "n = 0" by (simp add: word_greater_zero_iff)
    then show ?thesis by (simp add: ESR_loop.simps)
  next
    case True
    then have n: "unat n = Suc (unat (n - 1))"
      by (simp add: unat_minus_one word_greater_zero_iff unat_gt_0)
    show ?thesis
      apply (subst ESR_loop.simps)
      apply (simp only: True if_True Let_def)
      apply (subst "1.IH" [OF True refl refl refl refl])
      apply (simp add: n sum.lessThan_Suc_shift algebra_simps del: sum.lessThan_Suc)
      done
  qed
qed

lemma ESR_loop_alternating:
  assumes ev: "even (n_ADCW w)" and alt: "\<And>k. ADCW_in e k = (if even k then a else b)"
  shows "ESR_loop e n S1 S2 w =
     (S1 + of_nat (unat n) * (ucast a + ucast a), S2 + of_nat (unat n) * (ucast b + ucast b),
      w\<lparr>n_ADCW := n_ADCW w + 4 * unat n\<rparr>)"
proof -
  have a: "ADCW_in e (n_ADCW w + 4 * i) = a" "ADCW_in e (n_ADCW w + 4 * i + 2) = a" for i
    using ev by (simp_all add: alt)
  have b: "ADCW_in e (n_ADCW w + 4 * i + 1) = b" "ADCW_in e (n_ADCW w + 4 * i + 3) = b" for i
    using ev by (simp_all add: alt)
  show ?thesis
    unfolding ESR_loop_sums a b by (simp only: sum_constant card_lessThan)
qed

lemma ESR_prepare_sel:
  "NV (ESR_prepare e c w) = NV w" "n_ADCW (ESR_prepare e c w) = n_ADCW w"
  "Probes (ESR_prepare e c w) = UpdateProbes2 e (A c) (B c)"
  by (simp_all add: ESR_prepare_def DischargeProbes_def Let_def)

lemma ESR_loop_NV:
  assumes "ESR_loop e n S1 S2 w = (Sum_1, Sum_2, w3)"
  shows "NV w3 = NV w" "Probes w3 = Probes w"
  using assms by (auto simp: ESR_loop_sums)

lemma unat_ESR_raw:
  assumes "Sum_1 < Sum_2"
  shows "unat (ESR_raw w Sum_1 Sum_2)
     = ((unat (RiL (NV w)) * 10) mod 2 ^ 16 * (unat Sum_2 - unat Sum_1)) mod 2 ^ 32
         div unat Sum_1 mod 2 ^ 16"
proof -
  have le: "Sum_1 \<le> Sum_2"
    using assms by simp
  have a: "unat (ucast (RiL (NV w) * 10) :: u32) = (unat (RiL (NV w)) * 10) mod 2 ^ 16"
  proof -
    have "(unat (RiL (NV w)) * 10) mod 2 ^ 16 < (2 ^ 32 :: nat)"
      by (rule less_trans [OF mod_less_divisor]) simp_all
    then show ?thesis
      by (simp add: unsigned_ucast_eq take_bit_eq_mod unat_word_ariths(2))
  qed
  have b: "unat (Sum_2 - Sum_1) = unat Sum_2 - unat Sum_1"
    using le by (simp add: unat_sub)
  show ?thesis
    by (simp add: ESR_raw_def Let_def unsigned_ucast_eq take_bit_eq_mod unat_div a b
          unat_word_ariths(2))
qed

lemma ESR_raw_exact:
  assumes "Sum_1 < Sum_2"
    and "unat (RiL (NV w)) * 10 < 2 ^ 16"
    and "unat (RiL (NV w)) * 10 * (unat Sum_2 - unat Sum_1) < 2 ^ 32"
    and "spec_ESR_raw (unat (RiL (NV w))) (unat Sum_1) (unat Sum_2) < 2 ^ 16"
  shows "unat (ESR_raw w Sum_1 Sum_2) = spec_ESR_raw (unat (RiL (NV w))) (unat Sum_1) (unat Sum_2)"
  using assms(2-4) unfolding unat_ESR_raw [OF assms(1)] spec_ESR_raw_def
  by simp

lemma MeasureESR_run:
  assumes "\<not> sint (CmpValue e (Value c) (Scale c) 10 (- 9)) < 0"
    and "Found (Check (DischargeProbes e w)) \<noteq> COMP_ERROR e"
    and "SetUpDelayTimer (ESR_delay e) \<noteq> 0"
    and "ESR_loop e 255 1 1 (ESR_prepare e c w) = (Sum_1, Sum_2, w3)"
  shows "fst (MeasureESR e (Some c) w) = ESR_process e w3 c Sum_1 Sum_2"
  using assms by (simp add: MeasureESR_def)

lemma RZero_cur_cong:
  "NV w' = NV w \<Longrightarrow> Probes w' = Probes w \<Longrightarrow> RZero_cur e w' = RZero_cur e w"
  by (simp add: RZero_cur_def)

lemma unat_ticks_combined:
  fixes Ticks Ticks2 :: u16
  shows "unat ((ucast Ticks :: u32) OR push_bit 16 (ucast Ticks2))
           = unat Ticks + 65536 * unat Ticks2"
proof -
  have disj: "(ucast Ticks :: u32) AND push_bit 16 (ucast Ticks2) = 0"
    by (rule bit_eqI) (auto simp: bit_simps dest: bit_imp_le_length)
  have t1: "unat Ticks < 65536"
    using unsigned_less [of Ticks] by simp
  have t2: "unat Ticks2 < 65536"
    using unsigned_less [of Ticks2] by simp
  have lo: "unat (ucast Ticks :: u32) = unat Ticks"
    using t1 by (simp add: unsigned_ucast_eq take_bit_eq_mod)
  have hi: "unat (push_bit 16 (ucast Ticks2) :: u32) = 65536 * unat Ticks2"
  proof -
    have "unat (ucast Ticks2 :: u32) = unat Ticks2"
      using t2 by (simp add: unsigned_ucast_eq take_bit_eq_mod)
    then show ?thesis
      using t2 by (simp add: push_bit_eq_mult unat_word_ariths(2))
  qed
  have "unat ((ucast Ticks :: u32) + push_bit 16 (ucast Ticks2)) = unat Ticks + 65536 * unat Ticks2"
    using t1 t2 by (simp add: unat_word_ariths(1) lo hi)
  then show ?thesis
    by (simp only: disjunctive_add_eq_or [OF disj])
qed

lemma DischargeProbes_sel:
  "NV (DischargeProbes e w) = NV w" "Cfg (DischargeProbes e w) = Cfg w"
  "Probes (DischargeProbes e w) = Probes w" "Caps (DischargeProbes e w) = Caps w"
  "n_ReadU (DischargeProbes e w) = n_ReadU w" "n_TIFR1 (DischargeProbes e w) = n_TIFR1 w"
  "n_ADCW (DischargeProbes e w) = n_ADCW w"
  "n_Discharge (DischargeProbes e w) = Suc (n_Discharge w)"
  "Pulses_given (DischargeProbes e w) = Pulses_given w"
  "Resistors (DischargeProbes e w) = Resistors w" "Diodes (DischargeProbes e w) = Diodes w"
  by (simp_all add: DischargeProbes_def Let_def)

lemma ReadU_sel:
  "fst (ReadU e ch w) = ReadU_in e (n_ReadU w) ch"
  "snd (ReadU e ch w) = w\<lparr>n_ReadU := Suc (n_ReadU w)\<rparr>"
  by (simp_all add: ReadU_def)

lemma SmallCap_timer_frame:
  assumes "SmallCap_timer e t w = Some (tb, t', w')"
  shows "\<exists>k. w' = w\<lparr>n_TIFR1 := k\<rparr>"
proof -
  have "\<exists>k. snd (snd y) = w\<lparr>n_TIFR1 := k\<rparr>" if "SmallCap_timer e t w = Some y" for y
  proof (rule SmallCap_timer.raw_induct
      [where P = "\<lambda>e t w y. \<exists>k. snd (snd y) = w\<lparr>n_TIFR1 := k\<rparr>", OF _ that])
    fix tm :: "env \<Rightarrow> u16 \<Rightarrow> world \<Rightarrow> (u8 \<times> u16 \<times> world) option"
      and e t w y
    assume IH: "\<And>e t w y. tm e t w = Some y \<Longrightarrow> \<exists>k. snd (snd y) = w\<lparr>n_TIFR1 := k\<rparr>"
      and body: "(if TIFR1_in e (n_TIFR1 w) AND push_bit (ICF1 e) 1 \<noteq> 0
          then Some (TIFR1_in e (n_TIFR1 w), t, w\<lparr>n_TIFR1 := Suc (n_TIFR1 w)\<rparr>)
          else if TIFR1_in e (n_TIFR1 w) AND push_bit (TOV1 e) 1 \<noteq> 0
          then (if unat (t + 1) = CPU_FREQ e div 5000
                then Some (TIFR1_in e (n_TIFR1 w), t + 1, w\<lparr>n_TIFR1 := Suc (n_TIFR1 w)\<rparr>)
                else tm e (t + 1) (w\<lparr>n_TIFR1 := Suc (n_TIFR1 w)\<rparr>))
          else tm e t (w\<lparr>n_TIFR1 := Suc (n_TIFR1 w)\<rparr>)) = Some y"
    have step: "\<exists>k. snd (snd y) = w\<lparr>n_TIFR1 := k\<rparr>"
      if "tm e t1 (w\<lparr>n_TIFR1 := Suc (n_TIFR1 w)\<rparr>) = Some y" for t1
      using IH [OF that] by auto
    show "\<exists>k. snd (snd y) = w\<lparr>n_TIFR1 := k\<rparr>"
      using body step by (auto split: if_splits)
  qed
  from this [OF assms] show ?thesis by simp
qed

lemma SmallCap_discharge_frame:
  assumes "SmallCap_discharge e w = Some w'"
  shows "\<exists>k. w' = w\<lparr>n_ReadU := k\<rparr>"
proof (rule SmallCap_discharge.raw_induct
    [where P = "\<lambda>e w w'. \<exists>k. w' = w\<lparr>n_ReadU := k\<rparr>", OF _ assms])
  fix dis :: "env \<Rightarrow> world \<Rightarrow> world option" and e w w'
  assume IH: "\<And>e w w'. dis e w = Some w' \<Longrightarrow> \<exists>k. w' = w\<lparr>n_ReadU := k\<rparr>"
    and body: "(if 980 < fst (ReadU e (Ch_1 (Probes w)) w)
        then dis e (snd (ReadU e (Ch_1 (Probes w)) w))
        else Some (snd (ReadU e (Ch_1 (Probes w)) w))) = Some w'"
  have step: "\<exists>k. w' = w\<lparr>n_ReadU := k\<rparr>"
    if "dis e (w\<lparr>n_ReadU := Suc (n_ReadU w)\<rparr>) = Some w'"
    using IH [OF that] by auto
  show "\<exists>k. w' = w\<lparr>n_ReadU := k\<rparr>"
    using body step by (auto simp: ReadU_sel split: if_splits)
qed

lemma SmallCap_measure_frame:
  assumes "SmallCap_measure e w = Some (Ticks, Ticks2, U_c, w1)"
  shows "NV w1 = NV w" "Cfg w1 = Cfg w" "Probes w1 = Probes w" "Caps w1 = Caps w"
    "Check w1 = Check w"
  using assms
  by (auto simp: SmallCap_measure_def Let_def ReadU_def split: option.splits if_splits
        dest!: SmallCap_timer_frame)

lemma CapZero_cur_cong:
  "NV w' = NV w \<Longrightarrow> Probes w' = Probes w \<Longrightarrow> CapZero_cur e w' = CapZero_cur e w"
  by (simp add: CapZero_cur_def)

lemma SmallCap_success:
  assumes "SmallCap e c w = Some (3, c', w')"
  obtains Ticks Ticks2 U_c w1 where
    "SmallCap_measure e (DischargeProbes e w) = Some (Ticks, Ticks2, U_c, w1)"
    "SmallCap_calc e w1 Ticks Ticks2 = Some (Scale c', Raw c', Value c')"
  using assms
  by (auto simp: SmallCap_def SmallCap_vloss_def Let_def split: option.splits if_splits)

lemma SmallCap_calc_cases:
  assumes "SmallCap_calc e w Ticks Ticks2 = Some (Sc, Rw, Val)"
  shows "if 4294967 < SmallCap_ticks Ticks Ticks2
         then Sc = - 9 \<and> Val = Rw
         else Sc = - 12
              \<and> Val = (if ucast (CapZero_cur e w) \<le> Rw then Rw - ucast (CapZero_cur e w) else 0)"
  using assms by (auto simp: SmallCap_calc_def Let_def split: if_splits)

lemma no_capture_Suc:
  "no_capture e n0 (Suc M)
     \<longleftrightarrow> TIFR1_in e n0 AND push_bit (ICF1 e) 1 = 0 \<and> no_capture e (Suc n0) M"
  by (auto simp: no_capture_def atLeastLessThan_iff Suc_le_eq intro: le_neq_implies_less
        dest: le_neq_implies_less)

lemma overflows_seen_Suc:
  "overflows_seen e n0 (Suc M)
     = (if TIFR1_in e n0 AND push_bit (TOV1 e) 1 \<noteq> 0 then 1 else 0) + overflows_seen e (Suc n0) M"
  by (simp add: overflows_seen_def upt_conv_Cons del: upt_Suc)

lemma SmallCap_timer_skip:
  assumes "no_capture e (n_TIFR1 w) M"
    and "overflows_seen e (n_TIFR1 w) M + unat t < CPU_FREQ e div 5000"
    and "CPU_FREQ e div 5000 \<le> 65536"
  shows "SmallCap_timer e t w
     = SmallCap_timer e (t + of_nat (overflows_seen e (n_TIFR1 w) M)) (w\<lparr>n_TIFR1 := n_TIFR1 w + M\<rparr>)"
  using assms
proof (induction M arbitrary: t w)
  case 0
  then show ?case by (simp add: overflows_seen_def)
next
  case (Suc M)
  let ?w1 = "w\<lparr>n_TIFR1 := Suc (n_TIFR1 w)\<rparr>"
  from Suc.prems(1) have icf: "TIFR1_in e (n_TIFR1 w) AND push_bit (ICF1 e) 1 = 0"
    and nc: "no_capture e (n_TIFR1 ?w1) M"
    by (simp_all add: no_capture_Suc)
  show ?case
  proof (cases "TIFR1_in e (n_TIFR1 w) AND push_bit (TOV1 e) 1 \<noteq> 0")
    case True
    with Suc.prems(2) have ov: "Suc (overflows_seen e (Suc (n_TIFR1 w)) M + unat t) < CPU_FREQ e div 5000"
      by (simp add: overflows_seen_Suc)
    with Suc.prems(3) have "unat t + 1 < 65536"
      by simp
    then have ut: "unat (t + 1) = unat t + 1"
      by (simp add: unat_word_ariths(1))
    with ov have ne: "unat (t + 1) \<noteq> CPU_FREQ e div 5000"
      by simp
    have ov': "overflows_seen e (n_TIFR1 ?w1) M + unat (t + 1) < CPU_FREQ e div 5000"
      using ov ut by simp
    have "SmallCap_timer e t w = SmallCap_timer e (t + 1) ?w1"
      using icf True ne by (subst SmallCap_timer.simps) simp
    also have "\<dots> = SmallCap_timer e (t + 1 + of_nat (overflows_seen e (n_TIFR1 ?w1) M))
                       (?w1\<lparr>n_TIFR1 := n_TIFR1 ?w1 + M\<rparr>)"
      by (rule Suc.IH [OF nc ov' Suc.prems(3)])
    finally show ?thesis
      using True by (simp add: overflows_seen_Suc add.assoc)
  next
    case False
    with Suc.prems(2) have ov': "overflows_seen e (n_TIFR1 ?w1) M + unat t < CPU_FREQ e div 5000"
      by (simp add: overflows_seen_Suc)
    have "SmallCap_timer e t w = SmallCap_timer e t ?w1"
      using icf False by (subst SmallCap_timer.simps) simp
    also have "\<dots> = SmallCap_timer e (t + of_nat (overflows_seen e (n_TIFR1 ?w1) M))
                       (?w1\<lparr>n_TIFR1 := n_TIFR1 ?w1 + M\<rparr>)"
      by (rule Suc.IH [OF nc ov' Suc.prems(3)])
    finally show ?thesis
      using False by (simp add: overflows_seen_Suc)
  qed
qed

lemma no_capture_last:
  "no_capture e n0 (Suc M)
     \<longleftrightarrow> no_capture e n0 M \<and> TIFR1_in e (n0 + M) AND push_bit (ICF1 e) 1 = 0"
  by (auto simp: no_capture_def atLeastLessThan_iff less_Suc_eq)

lemma SmallCap_timer_timeout:
  assumes nc: "no_capture e (n_TIFR1 w) (Suc M)"
    and ov: "overflows_seen e (n_TIFR1 w) M + 1 = CPU_FREQ e div 5000"
    and tov: "TIFR1_in e (n_TIFR1 w + M) AND push_bit (TOV1 e) 1 \<noteq> 0"
    and b: "CPU_FREQ e div 5000 < 65536"
  shows "SmallCap_timer e 0 w
     = Some (TIFR1_in e (n_TIFR1 w + M), of_nat (CPU_FREQ e div 5000),
             w\<lparr>n_TIFR1 := Suc (n_TIFR1 w + M)\<rparr>)"
proof -
  let ?k = "overflows_seen e (n_TIFR1 w) M"
  let ?w = "w\<lparr>n_TIFR1 := n_TIFR1 w + M\<rparr>"
  from nc have nc': "no_capture e (n_TIFR1 w) M"
    and icf: "TIFR1_in e (n_TIFR1 w + M) AND push_bit (ICF1 e) 1 = 0"
    by (simp_all add: no_capture_last)
  have "SmallCap_timer e 0 w = SmallCap_timer e (0 + of_nat ?k) ?w"
    using ov b by (intro SmallCap_timer_skip [OF nc']) simp_all
  moreover have "unat ((of_nat ?k :: u16) + 1) = CPU_FREQ e div 5000"
  proof -
    have "(of_nat ?k :: u16) + 1 = of_nat (Suc ?k)"
      by simp
    then show ?thesis
      using ov b by (simp only: unat_of_nat) simp
  qed
  moreover have "(of_nat ?k :: u16) + 1 = of_nat (CPU_FREQ e div 5000)"
    using ov by (metis of_nat_Suc Suc_eq_plus1 add.commute)
  ultimately show ?thesis
    using icf tov by (subst (asm) (2) SmallCap_timer.simps) simp
qed

lemma SmallCap_timer_capture:
  assumes nc: "no_capture e (n_TIFR1 w) M"
    and ov: "overflows_seen e (n_TIFR1 w) M < CPU_FREQ e div 5000"
    and icf: "TIFR1_in e (n_TIFR1 w + M) AND push_bit (ICF1 e) 1 \<noteq> 0"
    and b: "CPU_FREQ e div 5000 \<le> 65536"
  shows "SmallCap_timer e 0 w
     = Some (TIFR1_in e (n_TIFR1 w + M), of_nat (overflows_seen e (n_TIFR1 w) M),
             w\<lparr>n_TIFR1 := Suc (n_TIFR1 w + M)\<rparr>)"
proof -
  let ?k = "overflows_seen e (n_TIFR1 w) M"
  let ?w = "w\<lparr>n_TIFR1 := n_TIFR1 w + M\<rparr>"
  have "SmallCap_timer e 0 w = SmallCap_timer e (0 + of_nat ?k) ?w"
    using ov b by (intro SmallCap_timer_skip [OF nc]) simp_all
  then show ?thesis
    using icf by (subst (asm) (2) SmallCap_timer.simps) simp
qed

lemma overflows_seen_all:
  assumes "\<And>k. n0 \<le> k \<Longrightarrow> k < n0 + N \<Longrightarrow> TIFR1_in e k AND push_bit (TOV1 e) 1 \<noteq> 0"
  shows "overflows_seen e n0 N = N"
proof -
  have "filter (\<lambda>k. TIFR1_in e k AND push_bit (TOV1 e) 1 \<noteq> 0) [n0..<n0 + N] = [n0..<n0 + N]"
    using assms by (intro filter_True) auto
  then show ?thesis
    by (simp add: overflows_seen_def)
qed

lemma SmallCap_vloss_frame:
  assumes "SmallCap_vloss e Sc Val c w = (f, c', w')"
  shows "Scale c' = Scale c" "Raw c' = Raw c" "Value c' = Value c" "NV w' = NV w"
  using assms
  by (auto simp: SmallCap_vloss_def Let_def ReadU_def DischargeProbes_sel split: if_splits)

lemma SmallCap_success_NV:
  assumes "SmallCap e c w = Some (3, c', w')"
    and "SmallCap_measure e (DischargeProbes e w) = Some (Ticks, Ticks2, U_c, w1)"
  shows "if \<not> HW_ADJUST_CAP e
            \<and> ((Scale c' = - 12 \<and> 100000 \<le> Value c') \<or> (Scale c' = - 9 \<and> Value c' \<le> 20000))
         then \<exists>w2. SmallCap_adjust e U_c (Value c') w1 = Some w2 \<and> NV w' = NV w2
         else NV w' = NV w1"
proof -
  from assms obtain Sc Rw Val where
    cl: "SmallCap_calc e w1 Ticks Ticks2 = Some (Sc, Rw, Val)"
    by (auto simp: SmallCap_def split: option.splits if_splits)
  define c1 where "c1 = c\<lparr>A := ID_2 (Probes w1), B := ID_1 (Probes w1), Scale := Sc,
                                Raw := Rw, Value := Val\<rparr>"
  define win where "win \<longleftrightarrow> \<not> HW_ADJUST_CAP e
                                 \<and> ((Sc = - 12 \<and> Val \<ge> 100000) \<or> (Sc = - 9 \<and> Val \<le> 20000))"
  from assms cl obtain w2 where
    ad: "(if win then SmallCap_adjust e U_c Val w1 else Some w1) = Some w2"
    and fin: "(if SW_C_VLOSS e then SmallCap_vloss e Sc Val c1 w2 else (3, c1, w2)) = (3, c', w')"
    by (auto simp: SmallCap_def Let_def c1_def win_def split: option.splits if_splits)
  have c': "Scale c' = Sc" "Value c' = Val" and nv: "NV w' = NV w2"
    using fin SmallCap_vloss_frame [of e Sc Val c1 w2 3 c' w']
    by (auto simp: c1_def split: if_splits)
  show ?thesis
    using ad by (auto simp: c' nv win_def split: if_splits)
qed

lemma SmallCap_calc_no_wrap:
  assumes "SmallCap_calc e w Ticks Ticks2 = Some (Sc, Rw, Val)"
  shows "(unat Rw * (if Sc = - 12 then 1 else 1000) < unat (CapZero_cur e w) \<longrightarrow> Val = 0)
       \<and> unat Val \<le> unat Rw
       \<and> (Sc = - 12 \<and> unat (CapZero_cur e w) \<le> unat Rw
            \<longrightarrow> unat Val = unat Rw - unat (CapZero_cur e w))"
proof -
  let ?cz = "CapZero_cur e w"
  have "unat ?cz < 2 ^ LENGTH(8)"
    by (rule unsigned_less)
  then have small: "unat ?cz < 1000"
    by simp
  have ucz: "unat (ucast ?cz :: u32) = unat ?cz"
    using small by (simp add: unsigned_ucast_eq take_bit_eq_mod)
  have le: "(ucast ?cz \<le> Rw) = (unat ?cz \<le> unat Rw)"
    by (simp add: word_le_nat_alt ucz)
  from SmallCap_calc_cases [OF assms] show ?thesis
  proof (cases "4294967 < SmallCap_ticks Ticks Ticks2")
    case True
    with SmallCap_calc_cases [OF assms] have "Sc = - 9" "Val = Rw"
      by simp_all
    moreover have "Rw = 0" if "unat Rw * 1000 < unat ?cz"
      using that small by (cases "unat Rw = 0") (simp_all add: unat_eq_zero)
    ultimately show ?thesis
      by simp
  next
    case False
    with SmallCap_calc_cases [OF assms] have sc: "Sc = - 12"
      and val: "Val = (if ucast ?cz \<le> Rw then Rw - ucast ?cz else 0)"
      by simp_all
    show ?thesis
      by (simp add: sc val le unat_sub word_le_nat_alt ucz)
  qed
qed

lemma PullProbe_sel:
  "Probes (PullProbe m Mode w) = Probes w" "n_ReadU (PullProbe m Mode w) = n_ReadU w"
  "n_Discharge (PullProbe m Mode w) = n_Discharge w"
  "Pulses_given (PullProbe m Mode w) = (m, Mode) # Pulses_given w"
  by (simp_all add: PullProbe_def)

lemma LargeCap_zero_sel:
  "fst (LargeCap_zero e w)
     = ReadU_in e (n_ReadU w) (Ch_1 (Probes w)) - ReadU_in e (Suc (n_ReadU w)) (Ch_2 (Probes w))"
  "snd (LargeCap_zero e w) = w\<lparr>n_ReadU := n_ReadU w + 2\<rparr>"
  by (simp_all add: LargeCap_zero_def Let_def ReadU_def)

lemma LargeCap_charge_n_Discharge:
  "n_Discharge (snd (snd (LargeCap_charge e Mode U_Zero Pulses w))) = n_Discharge w"
proof (induction e Mode U_Zero Pulses w rule: LargeCap_charge.induct)
  case (1 e Mode U_Zero Pulses w)
  let ?r = "ReadU e (Ch_1 (Probes w)) (PullProbe (Rl_1 (Probes w)) Mode w)"
  let ?U = "LargeCap_offset U_Zero (fst ?r)"
  have n: "n_Discharge (snd ?r) = n_Discharge w"
    by (simp add: ReadU_def PullProbe_def)
  show ?case
  proof (cases "Pulses + 1 = 126 \<and> ?U < 75 \<or> 300 \<le> ?U \<or> Pulses + 1 = 500")
    case True
    then have "LargeCap_charge e Mode U_Zero Pulses w = (Pulses + 1, ?U, snd ?r)"
      by (subst LargeCap_charge.simps) (simp only: Let_def if_True)
    then show ?thesis
      by (simp only: snd_conv n)
  next
    case False
    then have "LargeCap_charge e Mode U_Zero Pulses w
        = LargeCap_charge e Mode U_Zero (Pulses + 1) (snd ?r)"
      by (subst LargeCap_charge.simps) (simp only: Let_def if_False)
    then show ?thesis
      using "1.IH" [OF refl refl False] by (simp only: n)
  qed
qed

lemma LargeCap_delay_n_Discharge:
  "n_Discharge (snd (LargeCap_delay e TempInt U_leak w)) = n_Discharge w"
proof (induction e TempInt U_leak w rule: LargeCap_delay.induct)
  case (1 e TempInt U_leak w)
  let ?r = "ReadU e (Ch_1 (Probes w)) w"
  have n: "n_Discharge (snd ?r) = n_Discharge w"
    by (simp add: ReadU_def)
  show ?case
  proof (cases "0 < TempInt")
    case True
    then have "LargeCap_delay e TempInt U_leak w = LargeCap_delay e (TempInt - 1) (fst ?r) (snd ?r)"
      by (subst LargeCap_delay.simps) (simp only: if_True)
    then show ?thesis
      using "1.IH" [OF True] by (simp only: n)
  next
    case False
    then show ?thesis
      by (subst LargeCap_delay.simps) simp
  qed
qed

lemma LargeCap_attempt_n_Discharge:
  "n_Discharge (snd (snd (LargeCap_attempt e Mode w))) = n_Discharge w"
  by (simp add: LargeCap_attempt_def LargeCap_charge_n_Discharge LargeCap_zero_sel)

lemma LargeCap_drop_n_Discharge:
  assumes "LargeCap_drop e Pulses U_Cap c w = (Flag, U_Drop, U_leak, c1, w1)"
  shows "n_Discharge w1 = n_Discharge w"
  using assms LargeCap_delay_n_Discharge [of e Pulses 0 "snd (ReadU e (Ch_1 (Probes w)) w)"]
  by (auto simp: LargeCap_drop_def Let_def ReadU_def)

lemma LargeCap_calc_defined:
  assumes "(word_of_int (1000 - CAP_FACTOR_LARGE e) :: u32) \<noteq> 0"
    and "(word_of_int (1000 - CAP_FACTOR_MID e) :: u32) \<noteq> 0"
  shows "LargeCap_calc e Mode Pulses U_Cap U_Drop U_leak w c \<noteq> None"
  using assms by (simp add: LargeCap_calc_def Let_def)

lemma LargeCap_finish_defined:
  assumes "(word_of_int (1000 - CAP_FACTOR_LARGE e) :: u32) \<noteq> 0"
    and "(word_of_int (1000 - CAP_FACTOR_MID e) :: u32) \<noteq> 0"
  shows "\<exists>Flag' c' w'. LargeCap_finish e Mode Flag Pulses U_Cap c w = Some (Flag', c', w')
           \<and> n_Discharge w' = n_Discharge w"
proof (cases "Flag = 3")
  case False
  then show ?thesis
    by (simp add: LargeCap_finish_def)
next
  case True
  obtain Flag1 U_Drop U_leak c1 w1 where
    d: "LargeCap_drop e Pulses U_Cap c w = (Flag1, U_Drop, U_leak, c1, w1)"
    by (metis prod_cases5)
  note n = LargeCap_drop_n_Discharge [OF d]
  show ?thesis
  proof (cases "Flag1 = 3")
    case False
    with True d n show ?thesis
      by (simp add: LargeCap_finish_def)
  next
    case f1: True
    from LargeCap_calc_defined [OF assms] obtain c2 where
      "LargeCap_calc e Mode Pulses U_Cap U_Drop U_leak w1 c1 = Some c2"
      by blast
    with True f1 d n show ?thesis
      by (simp add: LargeCap_finish_def)
  qed
qed

lemma LargeCap_from_1ms:
  assumes "Mode AND PULL_10MS e = 0"
  shows "LargeCap_from e Mode c w
     = (if Found (Check (DischargeProbes e w)) = COMP_ERROR e
        then Some (0, c, DischargeProbes e w)
        else LargeCap_finish e Mode
               (if fst (LargeCap_attempt e Mode (DischargeProbes e w)) = 1
                    \<and> 1300 < fst (snd (LargeCap_attempt e Mode (DischargeProbes e w)))
                then 2
                else if fst (snd (LargeCap_attempt e Mode (DischargeProbes e w))) < 300
                then 1 else 3)
               (fst (LargeCap_attempt e Mode (DischargeProbes e w)))
               (fst (snd (LargeCap_attempt e Mode (DischargeProbes e w))))
               c (snd (snd (LargeCap_attempt e Mode (DischargeProbes e w)))))"
  using assms by (subst LargeCap_from.simps) (simp add: Let_def)

lemma LargeCap_from_once:
  assumes flags: "Mode AND PULL_10MS e = 0"
    and dv: "(word_of_int (1000 - CAP_FACTOR_LARGE e) :: u32) \<noteq> 0"
      "(word_of_int (1000 - CAP_FACTOR_MID e) :: u32) \<noteq> 0"
  shows "\<exists>Flag c' w'. LargeCap_from e Mode c w = Some (Flag, c', w')
           \<and> n_Discharge w' = Suc (n_Discharge w)"
proof (cases "Found (Check (DischargeProbes e w)) = COMP_ERROR e")
  case True
  then show ?thesis
    by (simp add: LargeCap_from_1ms [OF flags] DischargeProbes_sel)
next
  case False
  let ?at = "LargeCap_attempt e Mode (DischargeProbes e w)"
  have n: "n_Discharge (snd (snd ?at)) = Suc (n_Discharge w)"
    by (simp add: LargeCap_attempt_n_Discharge DischargeProbes_sel)
  from LargeCap_finish_defined [OF dv] obtain Flag' c' w' where
    "LargeCap_finish e Mode
       (if fst ?at = 1 \<and> 1300 < fst (snd ?at) then 2 else if fst (snd ?at) < 300 then 1 else 3)
       (fst ?at) (fst (snd ?at)) c (snd (snd ?at)) = Some (Flag', c', w')"
    and "n_Discharge w' = n_Discharge (snd (snd ?at))"
    by blast
  with False n show ?thesis
    by (simp add: LargeCap_from_1ms [OF flags])
qed

lemma MeasureCap_resistors_defined:
  assumes "i \<le> unat TempByte" and "unat cnt \<le> length rs" and "unat cnt \<le> 100"
  shows "MeasureCap_resistors e rs cnt Probe1 Probe2 TempByte i \<noteq> None"
  using assms
proof (induction e rs cnt Probe1 Probe2 TempByte i rule: MeasureCap_resistors.induct)
  case (1 e rs cnt Probe1 Probe2 TempByte i)
  show ?case
  proof (cases "TempByte < cnt")
    case False
    then show ?thesis
      by (subst MeasureCap_resistors.simps) simp
  next
    case True
    then have lt: "unat TempByte < unat cnt"
      by (simp add: word_less_nat_alt)
    with "1.prems" have i: "i < length rs"
      by simp
    let ?T = "(if ((R_A (rs ! i) = Probe1 \<and> R_B (rs ! i) = Probe2)
                     \<or> (R_A (rs ! i) = Probe2 \<and> R_B (rs ! i) = Probe1))
                    \<and> sint (CmpValue e (R_Value (rs ! i)) (R_Scale (rs ! i)) 10 0) = - 1
               then 99 else TempByte) + 1"
    have "unat (TempByte + 1) = unat TempByte + 1"
      using lt "1.prems"(3) by (simp add: unat_word_ariths(1))
    then have "Suc i \<le> unat ?T"
      using lt "1.prems"(1,3) by auto
    from "1.IH" [OF True i this "1.prems"(2,3)]
    show ?thesis
      using True i by (subst MeasureCap_resistors.simps) simp
  qed
qed

lemma Cap_reset_sel:
  "A (Cap_reset e c) = 0" "B (Cap_reset e c) = 0" "Scale (Cap_reset e c) = - 12"
  "Raw (Cap_reset e c) = 0" "Value (Cap_reset e c) = 0" "I_leak_Value (Cap_reset e c) = 0"
  by (simp_all add: Cap_reset_def Let_def)

lemma reads_above_iff:
  "reads_above e ch lim n0 k
     \<longleftrightarrow> (\<forall>j<k. lim < ReadU_in e (n0 + j) ch) \<and> ReadU_in e (n0 + k) ch \<le> lim"
  by (auto simp: reads_above_def list_all_iff)

lemma reads_above_0:
  "reads_above e ch lim n0 0 \<longleftrightarrow> ReadU_in e n0 ch \<le> lim"
  by (simp add: reads_above_iff)

lemma reads_above_Suc:
  "reads_above e ch lim n0 (Suc k)
     \<longleftrightarrow> lim < ReadU_in e n0 ch \<and> reads_above e ch lim (Suc n0) k"
  by (simp add: reads_above_iff All_less_Suc2)

lemma SmallCap_discharge_reads:
  assumes "reads_above e (Ch_1 (Probes w)) 980 (n_ReadU w) k"
  shows "SmallCap_discharge e w = Some (w\<lparr>n_ReadU := n_ReadU w + Suc k\<rparr>)"
  using assms
proof (induction k arbitrary: w)
  case 0
  then have "\<not> 980 < ReadU_in e (n_ReadU w) (Ch_1 (Probes w))"
    by (simp add: reads_above_0 not_less)
  then show ?case
    by (subst SmallCap_discharge.simps) (simp add: ReadU_def)
next
  case (Suc k)
  let ?w1 = "w\<lparr>n_ReadU := Suc (n_ReadU w)\<rparr>"
  from Suc.prems have gt: "980 < ReadU_in e (n_ReadU w) (Ch_1 (Probes w))"
    and rest: "reads_above e (Ch_1 (Probes ?w1)) 980 (n_ReadU ?w1) k"
    by (simp_all add: reads_above_Suc)
  have "SmallCap_discharge e w = SmallCap_discharge e ?w1"
    using gt by (subst SmallCap_discharge.simps) (simp add: ReadU_def)
  also have "\<dots> = Some (?w1\<lparr>n_ReadU := n_ReadU ?w1 + Suc k\<rparr>)"
    by (rule Suc.IH [OF rest])
  finally show ?case
    by simp
qed

lemma SmallCap_measure_reads:
  assumes "SmallCap_measure e w = Some (Ticks, Ticks2, U_c, w1)"
    and "\<not> HW_ADJUST_CAP e"
  shows "U_c = ReadU_in e (n_ReadU w) (Ch_1 (Probes w))" "n_ReadU w1 = Suc (n_ReadU w)"
  using assms
  by (auto simp: SmallCap_measure_def Let_def ReadU_def split: option.splits if_splits
        dest!: SmallCap_timer_frame)

lemma SmallCap_adjust_reads:
  assumes "reads_above e (Ch_1 (Probes w)) 980 (n_ReadU w) k"
    and "SmallCap_adjust e U_c Val w = Some w'"
    and "- 4 \<le> sint (ReadU_in e (n_ReadU w + k + 1) (Ch_1 (Probes w))
                      - ReadU_in e (n_ReadU w + k + 2) (Ch_1 (Probes w)))"
    and "sint (ReadU_in e (n_ReadU w + k + 1) (Ch_1 (Probes w))
                - ReadU_in e (n_ReadU w + k + 2) (Ch_1 (Probes w))) \<le> 4"
  shows "CompOffset (NV w')
           = (if - 50 < sint (U_c - Bandgap (Cfg w)) \<and> sint (U_c - Bandgap (Cfg w)) < 50
              then ucast (U_c - Bandgap (Cfg w)) else CompOffset (NV w))"
  using assms(2-4)
  by (auto simp: SmallCap_adjust_def SmallCap_discharge_reads [OF assms(1)] Let_def ReadU_def
        SmallCap_comp_def)

lemma RefCap_discharge_reads:
  assumes "reads_above e (TP_CAP e) 980 (n_ReadU w) k"
  shows "RefCap_discharge e w = Some (w\<lparr>n_ReadU := n_ReadU w + Suc k\<rparr>)"
  using assms
proof (induction k arbitrary: w)
  case 0
  then have "\<not> 980 < ReadU_in e (n_ReadU w) (TP_CAP e)"
    by (simp add: reads_above_0 not_less)
  then show ?case
    by (subst RefCap_discharge.simps) (simp add: ReadU_def)
next
  case (Suc k)
  let ?w1 = "w\<lparr>n_ReadU := Suc (n_ReadU w)\<rparr>"
  from Suc.prems have gt: "980 < ReadU_in e (n_ReadU w) (TP_CAP e)"
    and rest: "reads_above e (TP_CAP e) 980 (n_ReadU ?w1) k"
    by (simp_all add: reads_above_Suc)
  have "RefCap_discharge e w = RefCap_discharge e ?w1"
    using gt by (subst RefCap_discharge.simps) (simp add: ReadU_def)
  also have "\<dots> = Some (?w1\<lparr>n_ReadU := n_ReadU ?w1 + Suc k\<rparr>)"
    by (rule Suc.IH [OF rest])
  finally show ?case
    by simp
qed

lemma RefCap_wait_reads:
  assumes "reads_above e (TP_CAP e) (CAP_DISCHARGED e) (n_ReadU w) m"
    and "unat t + m \<le> 50"
  shows "RefCap_wait e t w = (100, w\<lparr>n_ReadU := n_ReadU w + Suc m\<rparr>)"
  using assms
proof (induction m arbitrary: t w)
  case 0
  from 0(2) have le: "t \<le> 50"
    by (simp add: word_le_nat_alt)
  from 0(1) have rd: "ReadU_in e (n_ReadU w) (TP_CAP e) \<le> CAP_DISCHARGED e"
    by (simp add: reads_above_0)
  have "RefCap_wait e t w = RefCap_wait e 100 (w\<lparr>n_ReadU := Suc (n_ReadU w)\<rparr>)"
    using le rd by (subst RefCap_wait.simps) (simp add: ReadU_def)
  also have "\<dots> = (100, w\<lparr>n_ReadU := Suc (n_ReadU w)\<rparr>)"
    by (subst RefCap_wait.simps) simp
  finally show ?case
    by simp
next
  case (Suc m)
  let ?w1 = "w\<lparr>n_ReadU := Suc (n_ReadU w)\<rparr>"
  from Suc.prems(2) have le: "t \<le> 50"
    by (simp add: word_le_nat_alt)
  from Suc.prems(1) have gt: "\<not> ReadU_in e (n_ReadU w) (TP_CAP e) \<le> CAP_DISCHARGED e"
    and rest: "reads_above e (TP_CAP e) (CAP_DISCHARGED e) (n_ReadU ?w1) m"
    by (simp_all add: reads_above_Suc not_le)
  from Suc.prems(2) have u: "unat (t + 1) = unat t + 1"
    by (simp add: unat_word_ariths(1))
  have "RefCap_wait e t w = RefCap_wait e (t + 1) ?w1"
    using le gt by (subst RefCap_wait.simps) (simp add: ReadU_def)
  also have "\<dots> = (100, ?w1\<lparr>n_ReadU := n_ReadU ?w1 + Suc m\<rparr>)"
    using Suc.prems(2) u by (intro Suc.IH [OF rest]) simp
  finally show ?case
    by simp
qed

lemma RefCap_wait_timeout:
  assumes "unat t + d = 51"
    and "\<And>k. k < d \<Longrightarrow> CAP_DISCHARGED e < ReadU_in e (n_ReadU w + k) (TP_CAP e)"
  shows "RefCap_wait e t w = (51, w\<lparr>n_ReadU := n_ReadU w + d\<rparr>)"
  using assms
proof (induction d arbitrary: t w)
  case 0
  then have "unat t = 51"
    by simp
  then have "(of_nat (unat t) :: u8) = of_nat 51"
    by (rule arg_cong)
  then have t: "t = 51"
    by simp
  show ?case
    unfolding t by (subst RefCap_wait.simps) simp
next
  case (Suc d)
  let ?w1 = "w\<lparr>n_ReadU := Suc (n_ReadU w)\<rparr>"
  from Suc.prems(1) have le: "t \<le> 50"
    by (simp add: word_le_nat_alt)
  from Suc.prems(1) have u: "unat (t + 1) = unat t + 1"
    by (simp add: unat_word_ariths(1))
  from Suc.prems(2) [of 0] have gt: "\<not> ReadU_in e (n_ReadU w) (TP_CAP e) \<le> CAP_DISCHARGED e"
    by (simp add: not_le)
  have "RefCap_wait e t w = RefCap_wait e (t + 1) ?w1"
    using le gt by (subst RefCap_wait.simps) (simp add: ReadU_def)
  also have "\<dots> = (51, ?w1\<lparr>n_ReadU := n_ReadU ?w1 + d\<rparr>)"
  proof (rule Suc.IH)
    show "unat (t + 1) + d = 51"
      using Suc.prems(1) u by simp
    show "CAP_DISCHARGED e < ReadU_in e (n_ReadU ?w1 + k) (TP_CAP e)" if "k < d" for k
      using Suc.prems(2) [of "Suc k"] that by simp
  qed
  finally show ?case
    by simp
qed

lemma RefCap_wait_frame:
  "\<exists>k. snd (RefCap_wait e t w) = w\<lparr>n_ReadU := k\<rparr>"
proof (induction e t w rule: RefCap_wait.induct)
  case (1 e TempByte w)
  show ?case
  proof (cases "TempByte \<le> 50")
    case False
    then have "snd (RefCap_wait e TempByte w) = w\<lparr>n_ReadU := n_ReadU w\<rparr>"
      by (subst RefCap_wait.simps) simp
    then show ?thesis ..
  next
    case le: True
    show ?thesis
    proof (cases "fst (ReadU e (TP_CAP e) w) \<le> CAP_DISCHARGED e")
      case True
      from "1.IH"(1) [OF le True] obtain k where
        "snd (RefCap_wait e 100 (snd (ReadU e (TP_CAP e) w))) = (snd (ReadU e (TP_CAP e) w))\<lparr>n_ReadU := k\<rparr>"
        by blast
      then have "snd (RefCap_wait e TempByte w) = w\<lparr>n_ReadU := k\<rparr>"
        using le True by (subst RefCap_wait.simps) (simp add: ReadU_def)
      then show ?thesis ..
    next
      case False
      from "1.IH"(2) [OF le False] obtain k where
        "snd (RefCap_wait e (TempByte + 1) (snd (ReadU e (TP_CAP e) w)))
           = (snd (ReadU e (TP_CAP e) w))\<lparr>n_ReadU := k\<rparr>"
        by blast
      then have "snd (RefCap_wait e TempByte w) = w\<lparr>n_ReadU := k\<rparr>"
        using le False by (subst RefCap_wait.simps) (simp add: ReadU_def)
      then show ?thesis ..
    qed
  qed
qed

lemma RefCap_measure_reads:
  assumes "RefCap_measure e w = Some (Ticks2, U_c, w1)"
  shows "U_c = ReadU_in e (n_ReadU w) (TP_CAP e)" "n_ReadU w1 = Suc (n_ReadU w)"
    "NV w1 = NV w" "Cfg w1 = Cfg w"
  using assms
  by (auto simp: RefCap_measure_def Let_def ReadU_def split: option.splits
        dest!: SmallCap_timer_frame)

lemma RefCap_adjust_reads:
  assumes "reads_above e (TP_CAP e) 980 (n_ReadU w) j"
    and "RefCap_adjust e U_c w = Some w'"
  shows "let U_vcc = ReadU_in e (n_ReadU w + j + 1) (TP_CAP e);
             U_bg = ReadU_in e (n_ReadU w + j + 2) (TP_CAP e);
             Val = (word_of_int ((sint (U_vcc - U_bg) * uint (Bandgap (Cfg w))) sdiv uint U_bg) :: u32);
             U_bandgap = (if - 4 \<le> sint (U_vcc - U_bg) \<and> sint (U_vcc - U_bg) \<le> 4
                          then Bandgap (Cfg w)
                          else Bandgap (Cfg w) + scast (ucast Val :: u8));
             Offset = U_c - U_bandgap
         in CompOffset (NV w')
              = (if - 50 < sint Offset \<and> sint Offset < 50 then ucast Offset
                 else CompOffset (NV w))
            \<and> Bandgap (Cfg w') = U_bandgap"
  using assms(2)
  by (auto simp: RefCap_adjust_def RefCap_discharge_reads [OF assms(1)] Let_def ReadU_def
        RefCap_comp_def split: if_splits)

lemma RefCap_cases:
  assumes "RefCap e v = Some (r, v')"
  obtains (timeout) "r = 0" "NV v' = NV v"
  | (adjusted) Ticks2 U_c w1 where "r = 1" "fst (RefCap_wait e 0 v) = 100"
      "RefCap_measure e (snd (RefCap_wait e 0 v)) = Some (Ticks2, U_c, w1)"
      "RefCap_adjust e U_c w1 = Some v'"
proof (cases "fst (RefCap_wait e 0 v) = 100")
  case False
  with assms have "r = 0" "v' = snd (RefCap_wait e 0 v)"
    by (auto simp: RefCap_def Let_def)
  moreover obtain k where "snd (RefCap_wait e 0 v) = v\<lparr>n_ReadU := k\<rparr>"
    using RefCap_wait_frame by blast
  ultimately show ?thesis
    by (intro timeout) simp_all
next
  case True
  with assms obtain Ticks2 U_c w1 where
    m: "RefCap_measure e (snd (RefCap_wait e 0 v)) = Some (Ticks2, U_c, w1)"
    by (auto simp: RefCap_def Let_def split: option.splits)
  obtain k where k: "snd (RefCap_wait e 0 v) = v\<lparr>n_ReadU := k\<rparr>"
    using RefCap_wait_frame by blast
  have nv: "NV w1 = NV v"
    using RefCap_measure_reads(3) [OF m] by (simp add: k)
  show ?thesis
  proof (cases "unat Ticks2 < CPU_FREQ e div 5000")
    case False
    with assms True m have "r = 0" "v' = w1"
      by (auto simp: RefCap_def Let_def)
    with nv show ?thesis
      by (intro timeout) simp_all
  next
    case lt: True
    with assms True m have "r = 1" "RefCap_adjust e U_c w1 = Some v'"
      by (auto simp: RefCap_def Let_def split: option.splits)
    with True m show ?thesis
      by (intro adjusted)
  qed
qed

lemma unat_LargeCap_offset:
  "unat (LargeCap_offset U_Zero U) = unat U - unat U_Zero"
  by (simp add: LargeCap_offset_def word_less_nat_alt unat_sub word_le_nat_alt)

lemma LargeCap_charge_stops:
  assumes "unat Pulses + d < 500"
    and "\<And>k. k < d \<Longrightarrow>
           \<not> ((unat Pulses + k + 1 = 126
                 \<and> unat (ReadU_in e (n_ReadU w + k) (Ch_1 (Probes w))) - unat U_Zero < 75)
               \<or> 300 \<le> unat (ReadU_in e (n_ReadU w + k) (Ch_1 (Probes w))) - unat U_Zero)"
    and "(unat Pulses + d + 1 = 126
            \<and> unat (ReadU_in e (n_ReadU w + d) (Ch_1 (Probes w))) - unat U_Zero < 75)
         \<or> 300 \<le> unat (ReadU_in e (n_ReadU w + d) (Ch_1 (Probes w))) - unat U_Zero
         \<or> unat Pulses + d + 1 = 500"
  shows "LargeCap_charge e Mode U_Zero Pulses w
     = (of_nat (unat Pulses + d + 1),
        LargeCap_offset U_Zero (ReadU_in e (n_ReadU w + d) (Ch_1 (Probes w))),
        w\<lparr>n_ReadU := n_ReadU w + Suc d,
          Pulses_given := replicate (Suc d) (Rl_1 (Probes w), Mode) @ Pulses_given w\<rparr>)"
  using assms
proof (induction d arbitrary: Pulses w)
  case 0
  let ?U = "LargeCap_offset U_Zero (ReadU_in e (n_ReadU w) (Ch_1 (Probes w)))"
  from 0(1) have u: "unat (Pulses + 1) = unat Pulses + 1"
    by (simp add: unat_word_ariths(1))
  have p: "Pulses + 1 = of_nat (unat Pulses + 1)"
    by simp
  have e126: "Pulses + 1 = 126 \<longleftrightarrow> unat Pulses + 1 = 126"
    and e500: "Pulses + 1 = 500 \<longleftrightarrow> unat Pulses + 1 = 500"
    using u by (auto simp: word_unat_eq_iff)
  have c75: "?U < 75 \<longleftrightarrow> unat (ReadU_in e (n_ReadU w) (Ch_1 (Probes w))) - unat U_Zero < 75"
    and c300: "300 \<le> ?U \<longleftrightarrow> 300 \<le> unat (ReadU_in e (n_ReadU w) (Ch_1 (Probes w))) - unat U_Zero"
    by (simp_all add: word_less_nat_alt word_le_nat_alt unat_LargeCap_offset)
  have stop: "(Pulses + 1 = 126 \<and> ?U < 75) \<or> 300 \<le> ?U \<or> Pulses + 1 = 500"
    using 0(3) unfolding e126 e500 c75 c300 by simp
  show ?case
    using stop
    by (subst LargeCap_charge.simps) (auto simp: Let_def ReadU_def PullProbe_def p)
next
  case (Suc d)
  let ?U = "LargeCap_offset U_Zero (ReadU_in e (n_ReadU w) (Ch_1 (Probes w)))"
  let ?w1 = "snd (ReadU e (Ch_1 (Probes w)) (PullProbe (Rl_1 (Probes w)) Mode w))"
  have w1: "?w1 = w\<lparr>n_ReadU := Suc (n_ReadU w),
                     Pulses_given := (Rl_1 (Probes w), Mode) # Pulses_given w\<rparr>"
    by (simp add: ReadU_def PullProbe_def)
  from Suc.prems(1) have u: "unat (Pulses + 1) = unat Pulses + 1"
    by (simp add: unat_word_ariths(1))
  have e126: "Pulses + 1 = 126 \<longleftrightarrow> unat Pulses + 1 = 126"
    and e500: "Pulses + 1 = 500 \<longleftrightarrow> unat Pulses + 1 = 500"
    using u by (auto simp: word_unat_eq_iff)
  have c75: "?U < 75 \<longleftrightarrow> unat (ReadU_in e (n_ReadU w) (Ch_1 (Probes w))) - unat U_Zero < 75"
    and c300: "300 \<le> ?U \<longleftrightarrow> 300 \<le> unat (ReadU_in e (n_ReadU w) (Ch_1 (Probes w))) - unat U_Zero"
    by (simp_all add: word_less_nat_alt word_le_nat_alt unat_LargeCap_offset)
  have go: "\<not> ((Pulses + 1 = 126 \<and> ?U < 75) \<or> 300 \<le> ?U \<or> Pulses + 1 = 500)"
    using Suc.prems(2) [of 0] Suc.prems(1) unfolding e126 e500 c75 c300 by simp
  have step: "LargeCap_charge e Mode U_Zero Pulses w = LargeCap_charge e Mode U_Zero (Pulses + 1) ?w1"
    using go
    by (subst LargeCap_charge.simps) (auto simp: Let_def ReadU_def PullProbe_def)
  have "LargeCap_charge e Mode U_Zero (Pulses + 1) ?w1
     = (of_nat (unat (Pulses + 1) + d + 1),
        LargeCap_offset U_Zero (ReadU_in e (n_ReadU ?w1 + d) (Ch_1 (Probes ?w1))),
        ?w1\<lparr>n_ReadU := n_ReadU ?w1 + Suc d,
          Pulses_given := replicate (Suc d) (Rl_1 (Probes ?w1), Mode) @ Pulses_given ?w1\<rparr>)"
  proof (rule Suc.IH)
    show "unat (Pulses + 1) + d < 500"
      using Suc.prems(1) u by simp
    show "\<not> ((unat (Pulses + 1) + k + 1 = 126
                 \<and> unat (ReadU_in e (n_ReadU ?w1 + k) (Ch_1 (Probes ?w1))) - unat U_Zero < 75)
               \<or> 300 \<le> unat (ReadU_in e (n_ReadU ?w1 + k) (Ch_1 (Probes ?w1))) - unat U_Zero)"
      if "k < d" for k
      using Suc.prems(2) [of "Suc k"] that by (simp add: w1 u)
    show "(unat (Pulses + 1) + d + 1 = 126
            \<and> unat (ReadU_in e (n_ReadU ?w1 + d) (Ch_1 (Probes ?w1))) - unat U_Zero < 75)
         \<or> 300 \<le> unat (ReadU_in e (n_ReadU ?w1 + d) (Ch_1 (Probes ?w1))) - unat U_Zero
         \<or> unat (Pulses + 1) + d + 1 = 500"
      using Suc.prems(3) by (simp add: w1 u)
  qed
  then show ?case
    unfolding step by (simp add: w1 u replicate_app_Cons_same)
qed

subsection \<open>Runs of the reference build\<close>

lemma env_esr_sel:
  "CmpValue (env_esr a b) = CmpValue_ref" "COMP_ERROR (env_esr a b) = 1"
  "Discharge_fails (env_esr a b) = (\<lambda>k. False)" "R_MULTIOFFSET (env_esr a b) = False"
  "CPU_FREQ (env_esr a b) = 8000000" "MCU_CYCLES_PER_ADC (env_esr a b) = 64"
  "MCU_CYCLES_PER_US (env_esr a b) = 8"
  "UpdateProbes2 (env_esr a b) = (\<lambda>p q. \<lparr>ID_1 = p, ID_2 = q, Ch_1 = p, Ch_2 = q, Rl_1 = 1\<rparr>)"
  "ADCW_in (env_esr a b) = (\<lambda>k. if even k then a else b)"
  by (simp_all add: env_esr_def env_ref_sel)

lemma env_esr_runs:
  "\<not> sint (CmpValue (env_esr a b) (Value cap_ref) (Scale cap_ref) 10 (- 9)) < 0"
  "Found (Check (DischargeProbes (env_esr a b) world_ref)) \<noteq> COMP_ERROR (env_esr a b)"
  "SetUpDelayTimer (ESR_delay (env_esr a b)) \<noteq> 0"
  by (simp_all add: env_esr_sel cap_ref_sel world_ref_sel CmpValue_ref_def DischargeProbes_def
        SetUpDelayTimer_def ESR_delay_def)

lemma env_esr_loop:
  "ESR_loop (env_esr a b) 255 1 1 (ESR_prepare (env_esr a b) cap_ref world_ref)
     = (1 + 255 * (ucast a + ucast a), 1 + 255 * (ucast b + ucast b),
        (ESR_prepare (env_esr a b) cap_ref world_ref)\<lparr>n_ADCW := 1020\<rparr>)"
  by (simp add: ESR_loop_alternating [where a = a and b = b] ESR_prepare_sel world_ref_sel env_esr_sel)

lemma env_esr_RZero:
  "RZero_cur (env_esr a b) (ESR_prepare (env_esr a b) cap_ref world_ref) = 20"
  "RiL (NV world_ref) = 200"
  by (simp_all add: RZero_cur_def ESR_prepare_sel world_ref_sel env_esr_sel)

lemma env_small_sel:
  "CPU_FREQ (env_small n icr u) = 8000000" "COMP_ERROR (env_small n icr u) = 1"
  "Discharge_fails (env_small n icr u) = (\<lambda>k. False)"
  "TIFR1_in (env_small n icr u) = (\<lambda>k. if k < n then 1 else 32)"
  "ICR1_in (env_small n icr u) = (\<lambda>k. icr)" "TCNT1_in (env_small n icr u) = (\<lambda>k. 0)"
  "ReadU_in (env_small n icr u) = (\<lambda>k ch. if k = 0 then u else 900)"
  "ICF1 (env_small n icr u) = 5" "TOV1 (env_small n icr u) = 0"
  "HW_ADJUST_CAP (env_small n icr u) = False" "SW_C_VLOSS (env_small n icr u) = False"
  "CAP_MULTIOFFSET (env_small n icr u) = False" "CAP_FACTOR_SMALL (env_small n icr u) = 0"
  "GetFactor (env_small n icr u) = (\<lambda>u t. 500)"
  by (simp_all add: env_small_def env_ref_sel)

lemma env_small_polls:
  "no_capture (env_small n icr u) 0 n" "overflows_seen (env_small n icr u) 0 n = n"
  "TIFR1_in (env_small n icr u) n AND push_bit (ICF1 (env_small n icr u)) 1 \<noteq> 0"
  by (simp_all add: no_capture_def overflows_seen_all env_small_sel)

lemma env_small_discharged:
  "Found (Check (DischargeProbes (env_small n icr u) world_ref)) \<noteq> COMP_ERROR (env_small n icr u)"
  by (simp add: DischargeProbes_def env_small_sel world_ref_sel)

lemma env_small_measure:
  assumes "n < 1600"
  shows "SmallCap_measure (env_small n icr u) (DischargeProbes (env_small n icr u) world_ref)
     = Some (icr, of_nat n, u,
         (DischargeProbes (env_small n icr u) world_ref)\<lparr>n_TIFR1 := Suc n, n_ReadU := 1\<rparr>)"
proof -
  let ?e = "env_small n icr u"
  let ?w = "DischargeProbes ?e world_ref"
  have n0: "n_TIFR1 ?w = 0"
    by (simp add: DischargeProbes_sel world_ref_sel)
  have "SmallCap_timer ?e 0 ?w
     = Some (TIFR1_in ?e (n_TIFR1 ?w + n), of_nat (overflows_seen ?e (n_TIFR1 ?w) n),
             ?w\<lparr>n_TIFR1 := Suc (n_TIFR1 ?w + n)\<rparr>)"
    using assms by (intro SmallCap_timer_capture) (simp_all add: n0 env_small_polls env_small_sel)
  then have t: "SmallCap_timer ?e 0 ?w = Some (32, of_nat n, ?w\<lparr>n_TIFR1 := Suc n\<rparr>)"
    by (simp add: n0 env_small_polls env_small_sel)
  show ?thesis
    by (simp add: SmallCap_measure_def t Let_def env_small_sel ReadU_def DischargeProbes_sel
          world_ref_sel)
qed

lemma env_small_budget_polls:
  "no_capture (env_small 1600 icr u) 0 (Suc 1599)"
  "overflows_seen (env_small 1600 icr u) 0 1599 + 1 = CPU_FREQ (env_small 1600 icr u) div 5000"
  "TIFR1_in (env_small 1600 icr u) (0 + 1599) AND push_bit (TOV1 (env_small 1600 icr u)) 1 \<noteq> 0"
  by (simp_all add: no_capture_def overflows_seen_all env_small_sel)

lemma env_small_run_66:
  "\<exists>w'. SmallCap (env_small 66 0 u) cap_ref world_ref
          = Some (3, cap_ref\<lparr>A := 1, B := 0, Scale := - 9, Raw := 2703, Value := 2703\<rparr>, w')
      \<and> CompOffset (NV w')
          = (if - 50 < sint (u - 1100) \<and> sint (u - 1100) < 50 then ucast (u - 1100) else 7)"
proof -
  let ?e = "env_small 66 0 u"
  let ?w1 = "(DischargeProbes ?e world_ref)\<lparr>n_TIFR1 := Suc 66, n_ReadU := 1\<rparr>"
  have m: "SmallCap_measure ?e (DischargeProbes ?e world_ref) = Some (0, 66, u, ?w1)"
    using env_small_measure [of 66 0 u] by simp
  have c: "SmallCap_calc ?e ?w1 0 66 = Some (- 9, 2703, 2703)"
    by (simp add: SmallCap_calc_def SmallCap_ticks_def env_small_sel)
  have d: "SmallCap_discharge ?e ?w1 = Some (?w1\<lparr>n_ReadU := 2\<rparr>)"
    by (subst SmallCap_discharge.simps) (simp add: ReadU_def env_small_sel)
  have a: "\<exists>w'. SmallCap_adjust ?e u 2703 ?w1 = Some w'
      \<and> CompOffset (NV w')
          = (if - 50 < sint (u - 1100) \<and> sint (u - 1100) < 50 then ucast (u - 1100) else 7)"
    using d
    by (simp add: SmallCap_adjust_def ReadU_def env_small_sel Let_def SmallCap_comp_def
          DischargeProbes_sel world_ref_sel)
  then obtain w' where a1: "SmallCap_adjust ?e u 2703 ?w1 = Some w'"
    and a2: "CompOffset (NV w')
          = (if - 50 < sint (u - 1100) \<and> sint (u - 1100) < 50 then ucast (u - 1100) else 7)"
    by blast
  have "SmallCap ?e cap_ref world_ref
          = Some (3, cap_ref\<lparr>A := 1, B := 0, Scale := - 9, Raw := 2703, Value := 2703\<rparr>, w')"
    using env_small_discharged [of 66 0 u] m c a1
    by (simp add: SmallCap_def env_small_sel DischargeProbes_sel world_ref_sel)
  with a2 show ?thesis
    by blast
qed

lemma env_small_run_0:
  "SmallCap (env_small 0 10 u) cap_ref world_ref
     = Some (3, cap_ref\<lparr>A := 1, B := 0, Scale := - 12, Raw := 5, Value := 0\<rparr>,
             (DischargeProbes (env_small 0 10 u) world_ref)\<lparr>n_TIFR1 := Suc 0, n_ReadU := 1\<rparr>)"
proof -
  let ?e = "env_small 0 10 u"
  let ?w1 = "(DischargeProbes ?e world_ref)\<lparr>n_TIFR1 := Suc 0, n_ReadU := 1\<rparr>"
  have m: "SmallCap_measure ?e (DischargeProbes ?e world_ref) = Some (10, 0, u, ?w1)"
    using env_small_measure [of 0 10 u] by simp
  have c: "SmallCap_calc ?e ?w1 10 0 = Some (- 12, 5, 0)"
    by (simp add: SmallCap_calc_def SmallCap_ticks_def env_small_sel CapZero_cur_def
          DischargeProbes_sel world_ref_sel)
  show ?thesis
    using env_small_discharged [of 0 10 u] m c
    by (simp add: SmallCap_def env_small_sel DischargeProbes_sel world_ref_sel)
qed

lemma env_large_sel:
  "COMP_ERROR env_large = 1" "Discharge_fails env_large = (\<lambda>k. False)"
  "PULL_UP env_large = 1" "PULL_1MS env_large = 8" "PULL_10MS env_large = 16"
  "CAP_FACTOR_MID env_large = - 40" "CAP_FACTOR_LARGE env_large = - 90"
  "ReadU_in env_large = (\<lambda>k ch. if k = 2 \<or> k = 5 then 2000 else 0)"
  by (simp_all add: env_large_def env_ref_sel)

lemma env_large_attempt:
  assumes "n_ReadU w = 0 \<or> n_ReadU w = 3"
  shows "LargeCap_attempt env_large Mode w
     = (1, 2000, w\<lparr>n_ReadU := n_ReadU w + 3,
                     Pulses_given := (Rl_1 (Probes w), Mode) # Pulses_given w\<rparr>)"
  using assms
  by (auto simp: LargeCap_attempt_def LargeCap_zero_sel LargeCap_charge.simps [of _ _ _ 0]
        Let_def ReadU_def PullProbe_def LargeCap_offset_def env_large_sel)

lemma env_charge_sel:
  "COMP_ERROR (env_charge u) = 1" "Discharge_fails (env_charge u) = (\<lambda>k. False)"
  "PULL_UP (env_charge u) = 1" "PULL_10MS (env_charge u) = 16"
  "ReadU_in (env_charge u) = (\<lambda>k ch. if k = 0 then 140 else if k = 1 then 100 else u)"
  by (simp_all add: env_charge_def env_ref_sel)

lemma env_charge_corrected:
  "1 \<le> k \<Longrightarrow> offset_corrected (env_charge u) world_ref k = unat u - 40"
  by (simp add: offset_corrected_def env_charge_sel world_ref_sel)

lemma env_cal_sel:
  "CPU_FREQ (env_cal u a b) = 8000000" "COMP_ERROR (env_cal u a b) = 1"
  "Discharge_fails (env_cal u a b) = (\<lambda>k. False)"
  "TIFR1_in (env_cal u a b) = (\<lambda>k. if k < 66 then 1 else 32)"
  "ICR1_in (env_cal u a b) = (\<lambda>k. 0)" "TCNT1_in (env_cal u a b) = (\<lambda>k. 0)"
  "ReadU_in (env_cal u a b)
     = (\<lambda>k ch. if k = 0 then u else if k = 1 then 1050 else if k = 2 then 1000
               else if k = 3 then 900 else if k = 4 then a else b)"
  "ICF1 (env_cal u a b) = 5" "TOV1 (env_cal u a b) = 0"
  "HW_ADJUST_CAP (env_cal u a b) = False" "SW_C_VLOSS (env_cal u a b) = False"
  "CAP_MULTIOFFSET (env_cal u a b) = False" "CAP_FACTOR_SMALL (env_cal u a b) = 0"
  "GetFactor (env_cal u a b) = (\<lambda>u t. 500)"
  by (simp_all add: env_cal_def env_small_sel)

lemma env_cal_measure:
  "SmallCap_measure (env_cal u a b) (DischargeProbes (env_cal u a b) world_ref)
     = Some (0, 66, u,
         (DischargeProbes (env_cal u a b) world_ref)\<lparr>n_TIFR1 := Suc 66, n_ReadU := 1\<rparr>)"
proof -
  let ?e = "env_cal u a b"
  let ?w = "DischargeProbes ?e world_ref"
  have n0: "n_TIFR1 ?w = 0"
    by (simp add: DischargeProbes_sel world_ref_sel)
  have "SmallCap_timer ?e 0 ?w
     = Some (TIFR1_in ?e (n_TIFR1 ?w + 66), of_nat (overflows_seen ?e (n_TIFR1 ?w) 66),
             ?w\<lparr>n_TIFR1 := Suc (n_TIFR1 ?w + 66)\<rparr>)"
    by (intro SmallCap_timer_capture)
      (simp_all add: n0 no_capture_def overflows_seen_all env_cal_sel)
  then have t: "SmallCap_timer ?e 0 ?w = Some (32, 66, ?w\<lparr>n_TIFR1 := Suc 66\<rparr>)"
    by (simp add: n0 overflows_seen_all env_cal_sel)
  show ?thesis
    by (simp add: SmallCap_measure_def t Let_def env_cal_sel ReadU_def DischargeProbes_sel
          world_ref_sel)
qed

lemma env_cal_reads:
  "reads_above (env_cal u a b) 0 980 1 2"
  by (auto simp: reads_above_def env_cal_sel list_all_iff)

lemma env_cal_run:
  "\<exists>w'. SmallCap (env_cal u 902 900) cap_ref world_ref
          = Some (3, cap_ref\<lparr>A := 1, B := 0, Scale := - 9, Raw := 2703, Value := 2703\<rparr>, w')"
proof -
  let ?e = "env_cal u 902 900"
  let ?w1 = "(DischargeProbes ?e world_ref)\<lparr>n_TIFR1 := Suc 66, n_ReadU := 1\<rparr>"
  have m: "SmallCap_measure ?e (DischargeProbes ?e world_ref) = Some (0, 66, u, ?w1)"
    by (rule env_cal_measure)
  have c: "SmallCap_calc ?e ?w1 0 66 = Some (- 9, 2703, 2703)"
    by (simp add: SmallCap_calc_def SmallCap_ticks_def env_cal_sel)
  have "reads_above ?e (Ch_1 (Probes ?w1)) 980 (n_ReadU ?w1) 2"
    using env_cal_reads [of u 902 900] by (simp add: DischargeProbes_sel world_ref_sel)
  then have d: "SmallCap_discharge ?e ?w1 = Some (?w1\<lparr>n_ReadU := n_ReadU ?w1 + Suc 2\<rparr>)"
    by (rule SmallCap_discharge_reads)
  have a: "\<exists>w'. SmallCap_adjust ?e u 2703 ?w1 = Some w'"
    using d by (simp add: SmallCap_adjust_def ReadU_def env_cal_sel Let_def)
  then obtain w' where a1: "SmallCap_adjust ?e u 2703 ?w1 = Some w'"
    by blast
  have d0: "Found (Check (DischargeProbes ?e world_ref)) \<noteq> COMP_ERROR ?e"
    by (simp add: DischargeProbes_def env_cal_sel world_ref_sel)
  have "SmallCap ?e cap_ref world_ref
          = Some (3, cap_ref\<lparr>A := 1, B := 0, Scale := - 9, Raw := 2703, Value := 2703\<rparr>, w')"
    using d0 m c a1
    by (simp add: SmallCap_def env_cal_sel DischargeProbes_sel world_ref_sel)
  then show ?thesis
    by blast
qed

lemma env_refcap_sel:
  "CPU_FREQ (env_refcap u a b) = 8000000"
  "TIFR1_in (env_refcap u a b) = (\<lambda>k. if k < 3 then 1 else 32)"
  "ReadU_in (env_refcap u a b)
     = (\<lambda>k ch. if k = 0 then 30 else if k = 1 then 10 else if k = 2 then 2
               else if k = 3 then u else if k = 4 then 1050 else if k = 5 then 1000
               else if k = 6 then 900 else if k = 7 then a else b)"
  "ICF1 (env_refcap u a b) = 5" "TOV1 (env_refcap u a b) = 0"
  "HW_ADJUST_CAP (env_refcap u a b) = True"
  "TP_CAP (env_refcap u a b) = 5" "CAP_DISCHARGED (env_refcap u a b) = 2"
  by (simp_all add: env_refcap_def env_ref_sel)

lemma env_refcap_reads:
  "reads_above (env_refcap u a b) 5 2 0 2"
  "reads_above (env_refcap u a b) 5 980 4 2"
  by (auto simp: reads_above_def env_refcap_sel list_all_iff)

lemma env_refcap_run:
  "\<exists>v'. RefCap (env_refcap u 910 900) world_ref = Some (1, v')"
proof -
  let ?e = "env_refcap u 910 900"
  let ?w0 = "world_ref\<lparr>n_ReadU := n_ReadU world_ref + Suc 2\<rparr>"
  let ?w1 = "?w0\<lparr>n_TIFR1 := Suc (Suc 3), n_ReadU := 4\<rparr>"
  have "reads_above ?e (TP_CAP ?e) (CAP_DISCHARGED ?e) (n_ReadU world_ref) 2"
    using env_refcap_reads(1) [of u 910 900] by (simp add: env_refcap_sel world_ref_sel)
  then have wt: "RefCap_wait ?e 0 world_ref = (100, ?w0)"
    by (rule RefCap_wait_reads) simp
  have n0: "n_TIFR1 ?w0 = 0"
    by (simp add: world_ref_sel)
  have "SmallCap_timer ?e 0 ?w0
     = Some (TIFR1_in ?e (n_TIFR1 ?w0 + 3), of_nat (overflows_seen ?e (n_TIFR1 ?w0) 3),
             ?w0\<lparr>n_TIFR1 := Suc (n_TIFR1 ?w0 + 3)\<rparr>)"
    by (intro SmallCap_timer_capture)
      (simp_all add: world_ref_sel no_capture_def overflows_seen_all env_refcap_sel)
  then have t: "SmallCap_timer ?e 0 ?w0 = Some (32, 3, ?w0\<lparr>n_TIFR1 := Suc 3\<rparr>)"
    by (simp add: world_ref_sel overflows_seen_all env_refcap_sel)
  have me: "RefCap_measure ?e ?w0 = Some (3, u, ?w1)"
    using t by (simp add: RefCap_measure_def Let_def ReadU_def env_refcap_sel world_ref_sel)
  have "reads_above ?e (TP_CAP ?e) 980 (n_ReadU ?w1) 2"
    using env_refcap_reads(2) [of u 910 900] by (simp add: env_refcap_sel)
  then have d: "RefCap_discharge ?e ?w1 = Some (?w1\<lparr>n_ReadU := n_ReadU ?w1 + Suc 2\<rparr>)"
    by (rule RefCap_discharge_reads)
  have "\<exists>v'. RefCap_adjust ?e u ?w1 = Some v'"
    using d by (simp add: RefCap_adjust_def ReadU_def env_refcap_sel Let_def)
  then obtain v' where a: "RefCap_adjust ?e u ?w1 = Some v'"
    by blast
  have "RefCap ?e world_ref = Some (1, v')"
    using me a by (simp add: RefCap_def wt env_refcap_sel)
  then show ?thesis
    by blast
qed

lemma env_stuck_run:
  "RefCap env_stuck world_ref = Some (0, world_ref\<lparr>n_ReadU := n_ReadU world_ref + 51\<rparr>)"
proof -
  have "RefCap_wait env_stuck 0 world_ref = (51, world_ref\<lparr>n_ReadU := n_ReadU world_ref + 51\<rparr>)"
    by (rule RefCap_wait_timeout) (simp_all add: env_stuck_def env_ref_sel)
  then show ?thesis
    by (simp add: RefCap_def)
qed

subsection \<open>The claims\<close>

text \<open>
  C1 (amended). For an ESR measurement that passes its validity guard
  (\<open>Sum_2 > Sum_1\<close>), \<open>MeasureESR\<close> computes the raw ESR as
  \<open>(RiL * 10) * (Sum_2 - Sum_1) / Sum_1\<close> in the widths of the code: \<open>RiL * 10\<close> is
  reduced modulo \<open>2^16\<close>, the product modulo \<open>2^32\<close>, and the quotient modulo \<open>2^16\<close>.
  This is the exact value of the formula whenever nothing overflows. When the raw value
  exceeds the zero offset \<open>RZero\<close>, the result is raw minus \<open>RZero\<close>; otherwise it is 0
  for a capacitor that compares greater than 1000 uF and \<open>UINT16_MAX\<close> for any other.
\<close>

theorem MeasureESR_result:
  assumes run: "\<not> sint (CmpValue e (Value c) (Scale c) 10 (- 9)) < 0"
      "Found (Check (DischargeProbes e w)) \<noteq> COMP_ERROR e"
      "SetUpDelayTimer (ESR_delay e) \<noteq> 0"
    and loop: "ESR_loop e 255 1 1 (ESR_prepare e c w) = (Sum_1, Sum_2, w3)"
    and valid: "Sum_1 < Sum_2"
  shows "(let raw = ((unat (RiL (NV w)) * 10) mod 2 ^ 16 * (unat Sum_2 - unat Sum_1)) mod 2 ^ 32
                      div unat Sum_1 mod 2 ^ 16;
              rz = unat (RZero_cur e (ESR_prepare e c w))
          in unat (fst (MeasureESR e (Some c) w))
               = (if rz < raw then raw - rz
                  else if 0 < sint (CmpValue e (Value c) (Scale c) 1000 (- 6)) then 0
                  else 65535)
             \<and> (unat (RiL (NV w)) * 10 < 2 ^ 16
                  \<and> unat (RiL (NV w)) * 10 * (unat Sum_2 - unat Sum_1) < 2 ^ 32
                  \<and> spec_ESR_raw (unat (RiL (NV w))) (unat Sum_1) (unat Sum_2) < 2 ^ 16
                \<longrightarrow> raw = spec_ESR_raw (unat (RiL (NV w))) (unat Sum_1) (unat Sum_2)))"
proof -
  have nv: "NV w3 = NV w"
    using ESR_loop_NV(1) [OF loop] by (simp add: ESR_prepare_sel)
  have rz: "RZero_cur e w3 = RZero_cur e (ESR_prepare e c w)"
    using ESR_loop_NV [OF loop] by (rule RZero_cur_cong)
  have raw: "unat (ESR_raw w3 Sum_1 Sum_2)
     = ((unat (RiL (NV w)) * 10) mod 2 ^ 16 * (unat Sum_2 - unat Sum_1)) mod 2 ^ 32
         div unat Sum_1 mod 2 ^ 16"
    using unat_ESR_raw [OF valid, of w3] by (simp only: nv)
  have exact: "unat (ESR_raw w3 Sum_1 Sum_2) = spec_ESR_raw (unat (RiL (NV w))) (unat Sum_1) (unat Sum_2)"
    if "unat (RiL (NV w)) * 10 < 2 ^ 16"
      and "unat (RiL (NV w)) * 10 * (unat Sum_2 - unat Sum_1) < 2 ^ 32"
      and "spec_ESR_raw (unat (RiL (NV w))) (unat Sum_1) (unat Sum_2) < 2 ^ 16"
    using ESR_raw_exact [OF valid, of w3] that by (simp only: nv)
  have res: "unat (fst (MeasureESR e (Some c) w))
     = (if unat (RZero_cur e w3) < unat (ESR_raw w3 Sum_1 Sum_2)
        then unat (ESR_raw w3 Sum_1 Sum_2) - unat (RZero_cur e w3)
        else if 0 < sint (CmpValue e (Value c) (Scale c) 1000 (- 6)) then 0 else 65535)"
    unfolding MeasureESR_run [OF run loop]
    using valid by (simp add: ESR_process_def Let_def word_less_nat_alt unat_sub word_le_nat_alt)
  show ?thesis
    unfolding Let_def using res exact by (simp only: raw [symmetric] rz [symmetric]) simp
qed

theorem MeasureESR_result_witness:
  "\<not> sint (CmpValue (env_esr 100 150) (Value cap_ref) (Scale cap_ref) 10 (- 9)) < 0
   \<and> Found (Check (DischargeProbes (env_esr 100 150) world_ref)) \<noteq> COMP_ERROR (env_esr 100 150)
   \<and> SetUpDelayTimer (ESR_delay (env_esr 100 150)) \<noteq> 0
   \<and> ESR_loop (env_esr 100 150) 255 1 1 (ESR_prepare (env_esr 100 150) cap_ref world_ref)
       = (51001, 76501, (ESR_prepare (env_esr 100 150) cap_ref world_ref)\<lparr>n_ADCW := 1020\<rparr>)
   \<and> (51001 :: u32) < 76501
   \<and> unat (fst (MeasureESR (env_esr 100 150) (Some cap_ref) world_ref)) = 979
   \<and> spec_ESR_raw 200 51001 76501 = 999"
proof -
  have l: "ESR_loop (env_esr 100 150) 255 1 1 (ESR_prepare (env_esr 100 150) cap_ref world_ref)
       = (51001, 76501, (ESR_prepare (env_esr 100 150) cap_ref world_ref)\<lparr>n_ADCW := 1020\<rparr>)"
    by (simp add: env_esr_loop)
  have v: "(51001 :: u32) < 76501"
    by simp
  show ?thesis
    using MeasureESR_result [OF env_esr_runs l v] env_esr_runs l
    by (simp add: env_esr_RZero spec_ESR_raw_def)
qed

text \<open>
  The claim as it was stated, with the exact value of the formula, fails: with unloaded
  readings of 30 and loaded readings of 1023 the exact raw value is 66195, the code
  keeps its low 16 bits, 659, and returns 639 instead of 66175.
\<close>

theorem MeasureESR_exact_counterexample:
  "\<not> sint (CmpValue (env_esr 30 1023) (Value cap_ref) (Scale cap_ref) 10 (- 9)) < 0
   \<and> Found (Check (DischargeProbes (env_esr 30 1023) world_ref)) \<noteq> COMP_ERROR (env_esr 30 1023)
   \<and> SetUpDelayTimer (ESR_delay (env_esr 30 1023)) \<noteq> 0
   \<and> ESR_loop (env_esr 30 1023) 255 1 1 (ESR_prepare (env_esr 30 1023) cap_ref world_ref)
       = (15301, 521731, (ESR_prepare (env_esr 30 1023) cap_ref world_ref)\<lparr>n_ADCW := 1020\<rparr>)
   \<and> (15301 :: u32) < 521731
   \<and> spec_ESR_raw (unat (RiL (NV world_ref))) 15301 521731 = 66195
   \<and> unat (RZero_cur (env_esr 30 1023) (ESR_prepare (env_esr 30 1023) cap_ref world_ref)) = 20
   \<and> unat (fst (MeasureESR (env_esr 30 1023) (Some cap_ref) world_ref)) = 639
   \<and> unat (fst (MeasureESR (env_esr 30 1023) (Some cap_ref) world_ref))
        \<noteq> spec_ESR_raw (unat (RiL (NV world_ref))) 15301 521731
           - unat (RZero_cur (env_esr 30 1023) (ESR_prepare (env_esr 30 1023) cap_ref world_ref))"
proof -
  have l: "ESR_loop (env_esr 30 1023) 255 1 1 (ESR_prepare (env_esr 30 1023) cap_ref world_ref)
       = (15301, 521731, (ESR_prepare (env_esr 30 1023) cap_ref world_ref)\<lparr>n_ADCW := 1020\<rparr>)"
    by (simp add: env_esr_loop)
  have raw: "ESR_raw ((ESR_prepare (env_esr 30 1023) cap_ref world_ref)\<lparr>n_ADCW := 1020\<rparr>) 15301 521731 = 659"
    by (simp add: ESR_raw_def ESR_prepare_sel world_ref_sel)
  have r: "fst (MeasureESR (env_esr 30 1023) (Some cap_ref) world_ref) = 639"
    unfolding MeasureESR_run [OF env_esr_runs l]
    by (simp add: ESR_process_def raw RZero_cur_def ESR_prepare_sel world_ref_sel env_esr_sel)
  show ?thesis
    using env_esr_runs [of 30 1023] l
    by (simp add: r env_esr_RZero spec_ESR_raw_def)
qed

text \<open>
  C2. \<open>LargeCap\<close> switches from 10 ms pulses to 1 ms pulses at most once. With mode
  flags in which the 1 ms mode does not contain the 10 ms bit (and compensation factors
  that are not 100 %), every call returns, and it passes the label \<open>large_cap\<close>, where
  the probes are discharged, at most twice; it passes twice only when the first attempt,
  in 10 ms mode, reached more than 1300 mV with a single pulse. In 1 ms mode the same
  condition gives the return value 2 without another attempt.
\<close>

theorem LargeCap_at_most_two_attempts:
  assumes flags: "(PULL_1MS e OR PULL_UP e) AND PULL_10MS e = 0"
    and dv: "(word_of_int (1000 - CAP_FACTOR_LARGE e) :: u32) \<noteq> 0"
      "(word_of_int (1000 - CAP_FACTOR_MID e) :: u32) \<noteq> 0"
  shows "(\<exists>Flag c' w'. LargeCap e c w = Some (Flag, c', w')
            \<and> n_Discharge w' \<le> n_Discharge w + 2
            \<and> (n_Discharge w' = n_Discharge w + 2 \<longrightarrow>
                 (PULL_10MS e OR PULL_UP e) AND PULL_10MS e \<noteq> 0
                 \<and> fst (LargeCap_attempt e (PULL_10MS e OR PULL_UP e) (DischargeProbes e w)) = 1
                 \<and> 1300 < fst (snd (LargeCap_attempt e (PULL_10MS e OR PULL_UP e)
                                       (DischargeProbes e w)))))
       \<and> (\<forall>w0. Found (Check (DischargeProbes e w0)) \<noteq> COMP_ERROR e
              \<and> fst (LargeCap_attempt e (PULL_1MS e OR PULL_UP e) (DischargeProbes e w0)) = 1
              \<and> 1300 < fst (snd (LargeCap_attempt e (PULL_1MS e OR PULL_UP e)
                                    (DischargeProbes e w0)))
            \<longrightarrow> LargeCap_from e (PULL_1MS e OR PULL_UP e) c w0
                = Some (2, c, snd (snd (LargeCap_attempt e (PULL_1MS e OR PULL_UP e)
                                          (DischargeProbes e w0)))))"
proof (intro conjI allI impI)
  fix w0
  assume "Found (Check (DischargeProbes e w0)) \<noteq> COMP_ERROR e
              \<and> fst (LargeCap_attempt e (PULL_1MS e OR PULL_UP e) (DischargeProbes e w0)) = 1
              \<and> 1300 < fst (snd (LargeCap_attempt e (PULL_1MS e OR PULL_UP e)
                                    (DischargeProbes e w0)))"
  then show "LargeCap_from e (PULL_1MS e OR PULL_UP e) c w0
                = Some (2, c, snd (snd (LargeCap_attempt e (PULL_1MS e OR PULL_UP e)
                                          (DischargeProbes e w0))))"
    by (simp add: LargeCap_from_1ms [OF flags] LargeCap_finish_def)
next
  let ?M = "PULL_10MS e OR PULL_UP e"
  let ?w0 = "DischargeProbes e w"
  let ?at = "LargeCap_attempt e ?M ?w0"
  let ?goal = "\<exists>Flag c' w'. LargeCap e c w = Some (Flag, c', w')
            \<and> n_Discharge w' \<le> n_Discharge w + 2
            \<and> (n_Discharge w' = n_Discharge w + 2 \<longrightarrow>
                 ?M AND PULL_10MS e \<noteq> 0 \<and> fst ?at = 1 \<and> 1300 < fst (snd ?at))"
  have n: "n_Discharge (snd (snd ?at)) = Suc (n_Discharge w)"
    by (simp add: LargeCap_attempt_n_Discharge DischargeProbes_sel)
  show ?goal
  proof (cases "?M AND PULL_10MS e \<noteq> 0 \<and> Found (Check ?w0) \<noteq> COMP_ERROR e
                  \<and> fst ?at = 1 \<and> 1300 < fst (snd ?at)")
    case True
    then have "LargeCap e c w = LargeCap_from e (PULL_1MS e OR PULL_UP e) c (snd (snd ?at))"
      unfolding LargeCap_def by (subst LargeCap_from.simps) (simp add: Let_def)
    moreover from LargeCap_from_once [OF flags dv] obtain Flag c' w' where
      "LargeCap_from e (PULL_1MS e OR PULL_UP e) c (snd (snd ?at)) = Some (Flag, c', w')"
      and "n_Discharge w' = Suc (n_Discharge (snd (snd ?at)))"
      by blast
    ultimately show ?thesis
      using True n by simp
  next
    case False
    show ?thesis
    proof (cases "Found (Check ?w0) = COMP_ERROR e")
      case True
      then have "LargeCap e c w = Some (0, c, ?w0)"
        unfolding LargeCap_def by (subst LargeCap_from.simps) simp
      then show ?thesis
        by (simp add: DischargeProbes_sel)
    next
      case ok: False
      have "LargeCap e c w = LargeCap_finish e ?M
               (if fst ?at = 1 \<and> 1300 < fst (snd ?at) then 2
                else if fst (snd ?at) < 300 then 1 else 3)
               (fst ?at) (fst (snd ?at)) c (snd (snd ?at))"
        unfolding LargeCap_def using False ok
        by (subst LargeCap_from.simps) (auto simp: Let_def)
      moreover from LargeCap_finish_defined [OF dv] obtain Flag' c' w' where
        "LargeCap_finish e ?M
           (if fst ?at = 1 \<and> 1300 < fst (snd ?at) then 2
            else if fst (snd ?at) < 300 then 1 else 3)
           (fst ?at) (fst (snd ?at)) c (snd (snd ?at)) = Some (Flag', c', w')"
        and "n_Discharge w' = n_Discharge (snd (snd ?at))"
        by blast
      ultimately show ?thesis
        using n by simp
    qed
  qed
qed

theorem LargeCap_at_most_two_attempts_witness:
  "(PULL_1MS env_large OR PULL_UP env_large) AND PULL_10MS env_large = 0
   \<and> (word_of_int (1000 - CAP_FACTOR_LARGE env_large) :: u32) \<noteq> 0
   \<and> (word_of_int (1000 - CAP_FACTOR_MID env_large) :: u32) \<noteq> 0
   \<and> (\<exists>w'. LargeCap env_large cap_ref world_ref = Some (2, cap_ref, w')
          \<and> n_Discharge w' = n_Discharge world_ref + 2
          \<and> Pulses_given w' = [(1, 9), (1, 17)])"
proof -
  let ?e = "env_large"
  let ?M1 = "PULL_1MS ?e OR PULL_UP ?e"
  let ?M10 = "PULL_10MS ?e OR PULL_UP ?e"
  let ?w0 = "DischargeProbes ?e world_ref"
  let ?w3 = "snd (snd (LargeCap_attempt ?e ?M10 ?w0))"
  let ?w4 = "DischargeProbes ?e ?w3"
  let ?w5 = "snd (snd (LargeCap_attempt ?e ?M1 ?w4))"
  have h1: "?M1 AND PULL_10MS ?e = 0"
    by (simp add: env_large_sel)
  have h2: "(word_of_int (1000 - CAP_FACTOR_LARGE ?e) :: u32) \<noteq> 0"
    and h3: "(word_of_int (1000 - CAP_FACTOR_MID ?e) :: u32) \<noteq> 0"
    by (simp_all add: env_large_sel)
  have ok0: "Found (Check ?w0) \<noteq> COMP_ERROR ?e"
    by (simp add: DischargeProbes_def env_large_sel world_ref_sel)
  have a1: "LargeCap_attempt ?e ?M10 ?w0
     = (1, 2000, ?w0\<lparr>n_ReadU := 3, Pulses_given := [(1, ?M10)]\<rparr>)"
    by (simp add: env_large_attempt DischargeProbes_sel world_ref_sel)
  have ok1: "Found (Check ?w4) \<noteq> COMP_ERROR ?e"
    using a1 by (simp add: DischargeProbes_def env_large_sel world_ref_sel)
  have a2: "LargeCap_attempt ?e ?M1 ?w4
     = (1, 2000, ?w4\<lparr>n_ReadU := 6, Pulses_given := [(1, ?M1), (1, ?M10)]\<rparr>)"
    using a1 by (simp add: env_large_attempt DischargeProbes_sel world_ref_sel)
  have first: "LargeCap ?e cap_ref world_ref = LargeCap_from ?e ?M1 cap_ref ?w3"
    unfolding LargeCap_def using ok0 a1 by (subst LargeCap_from.simps) (simp add: Let_def env_large_sel)
  from LargeCap_at_most_two_attempts [OF h1 h2 h3, of cap_ref world_ref]
  have "\<forall>w0. Found (Check (DischargeProbes ?e w0)) \<noteq> COMP_ERROR ?e
              \<and> fst (LargeCap_attempt ?e ?M1 (DischargeProbes ?e w0)) = 1
              \<and> 1300 < fst (snd (LargeCap_attempt ?e ?M1 (DischargeProbes ?e w0)))
            \<longrightarrow> LargeCap_from ?e ?M1 cap_ref w0
                = Some (2, cap_ref, snd (snd (LargeCap_attempt ?e ?M1 (DischargeProbes ?e w0))))"
    by (rule conjunct2)
  then have "LargeCap_from ?e ?M1 cap_ref ?w3 = Some (2, cap_ref, ?w5)"
    using ok1 a2 by simp
  with first have r: "LargeCap ?e cap_ref world_ref = Some (2, cap_ref, ?w5)"
    by simp
  have "n_Discharge ?w5 = n_Discharge world_ref + 2" "Pulses_given ?w5 = [(1, 9), (1, 17)]"
    using a1 a2 by (simp_all add: DischargeProbes_sel env_large_sel)
  with r h1 h2 h3 show ?thesis
    by blast
qed

text \<open>
  C3. When \<open>SmallCap\<close> has discharged the probes and the comparator capture never
  shows before the overflow counter reaches \<open>CPU_FREQ / 5000\<close> (polls \<open>0..M\<close> of the
  timer flags show no capture, and poll \<open>M\<close> shows the overflow that completes the
  budget), \<open>SmallCap\<close> returns 1 and the capacitor record is the one it was given; the
  other capacitor records and the calibration store are unchanged too. The budget has to
  fit the 16-bit counter with room for the missed-overflow correction.
\<close>

theorem SmallCap_timeout:
  assumes "Found (Check (DischargeProbes e w)) \<noteq> COMP_ERROR e"
    and "CPU_FREQ e div 5000 < 65535"
    and "no_capture e (n_TIFR1 w) (Suc M)"
    and "overflows_seen e (n_TIFR1 w) M + 1 = CPU_FREQ e div 5000"
    and "TIFR1_in e (n_TIFR1 w + M) AND push_bit (TOV1 e) 1 \<noteq> 0"
  shows "\<exists>w'. SmallCap e c w = Some (1, c, w') \<and> Caps w' = Caps w \<and> NV w' = NV w"
proof -
  let ?w0 = "DischargeProbes e w"
  let ?b = "CPU_FREQ e div 5000"
  have n: "n_TIFR1 ?w0 = n_TIFR1 w"
    by (simp add: DischargeProbes_sel)
  have t: "SmallCap_timer e 0 ?w0
     = Some (TIFR1_in e (n_TIFR1 w + M), of_nat ?b, ?w0\<lparr>n_TIFR1 := Suc (n_TIFR1 w + M)\<rparr>)"
    using SmallCap_timer_timeout [of e ?w0 M] assms(2-5) by (simp add: n)
  have u0: "unat (of_nat ?b :: u16) = ?b"
    using assms(2) by (simp add: unat_of_nat)
  have u1: "unat ((of_nat ?b :: u16) + 1) = ?b + 1"
    using assms(2) u0 by (simp add: unat_word_ariths(1))
  have "\<exists>Ticks Ticks2 U_c w1. SmallCap_measure e ?w0 = Some (Ticks, Ticks2, U_c, w1)
           \<and> (Ticks2 = of_nat ?b \<or> Ticks2 = of_nat ?b + 1)"
    by (simp add: SmallCap_measure_def t Let_def)
  then obtain Ticks Ticks2 U_c w1 where
    m: "SmallCap_measure e ?w0 = Some (Ticks, Ticks2, U_c, w1)"
    and t2: "Ticks2 = of_nat ?b \<or> Ticks2 = of_nat ?b + 1"
    by blast
  from t2 have ge: "?b \<le> unat Ticks2"
    using u0 u1 by auto
  have "SmallCap e c w = Some (1, c, w1)"
    using assms(1) m ge by (simp add: SmallCap_def)
  moreover have "Caps w1 = Caps w" "NV w1 = NV w"
    using SmallCap_measure_frame [OF m] by (simp_all add: DischargeProbes_sel)
  ultimately show ?thesis
    by blast
qed

theorem SmallCap_timeout_witness:
  "Found (Check (DischargeProbes (env_small 1600 0 0) world_ref)) \<noteq> COMP_ERROR (env_small 1600 0 0)
   \<and> CPU_FREQ (env_small 1600 0 0) div 5000 < 65535
   \<and> no_capture (env_small 1600 0 0) (n_TIFR1 world_ref) (Suc 1599)
   \<and> overflows_seen (env_small 1600 0 0) (n_TIFR1 world_ref) 1599 + 1
        = CPU_FREQ (env_small 1600 0 0) div 5000
   \<and> TIFR1_in (env_small 1600 0 0) (n_TIFR1 world_ref + 1599)
        AND push_bit (TOV1 (env_small 1600 0 0)) 1 \<noteq> 0
   \<and> (\<exists>w'. SmallCap (env_small 1600 0 0) cap_ref world_ref = Some (1, cap_ref, w')
         \<and> Caps w' = Caps world_ref \<and> NV w' = NV world_ref)"
proof -
  let ?e = "env_small 1600 0 0"
  have h1: "Found (Check (DischargeProbes ?e world_ref)) \<noteq> COMP_ERROR ?e"
    by (rule env_small_discharged)
  have h2: "CPU_FREQ ?e div 5000 < 65535"
    by (simp add: env_small_sel)
  have n0: "n_TIFR1 world_ref = 0"
    by (simp add: world_ref_sel)
  have h3: "no_capture ?e (n_TIFR1 world_ref) (Suc 1599)"
    and h4: "overflows_seen ?e (n_TIFR1 world_ref) 1599 + 1 = CPU_FREQ ?e div 5000"
    and h5: "TIFR1_in ?e (n_TIFR1 world_ref + 1599) AND push_bit (TOV1 ?e) 1 \<noteq> 0"
    unfolding n0 by (rule env_small_budget_polls)+
  from SmallCap_timeout [OF h1 h2 h3 h4 h5, of cap_ref] h1 h2 h3 h4 h5 show ?thesis
    by blast
qed

text \<open>
  C4. When a diode with a forward voltage below 1500 mV is recorded between the two
  probes, \<open>MeasureCap\<close> returns without running an estimator: the state it returns is
  the state it was called in with \<open>Caps[ID]\<close> reset (no discharge, no read, no pulse),
  and the reset record has \<open>A = 0\<close>, \<open>B = 0\<close>, \<open>Scale = -12\<close>, \<open>Raw = 0\<close>, \<open>Value = 0\<close>
  and \<open>I_leak_Value = 0\<close>. \<open>ID\<close> has to be in the array, and the resistor table has to
  hold the \<open>Check.Resistors\<close> entries the scan reads.
\<close>

theorem MeasureCap_skips_diode:
  assumes "unat ID < length (Caps w)"
    and "unat (Check_Resistors (Check w)) \<le> length (Resistors w)"
    and "length (Resistors w) \<le> 100"
    and "SearchDiode e (Diodes w) Probe1 Probe2 = Some Diode"
    and "V_f Diode < 1500"
  shows "MeasureCap e Probe1 Probe2 ID w
           = Some (w\<lparr>Caps := (Caps w)[unat ID := Cap_reset e (Caps w ! unat ID)]\<rparr>)
       \<and> A (Cap_reset e (Caps w ! unat ID)) = 0
       \<and> B (Cap_reset e (Caps w ! unat ID)) = 0
       \<and> sint (Scale (Cap_reset e (Caps w ! unat ID))) = - 12
       \<and> Raw (Cap_reset e (Caps w ! unat ID)) = 0
       \<and> Value (Cap_reset e (Caps w ! unat ID)) = 0
       \<and> I_leak_Value (Cap_reset e (Caps w ! unat ID)) = 0"
proof -
  let ?w0 = "w\<lparr>Caps := (Caps w)[unat ID := Cap_reset e (Caps w ! unat ID)]\<rparr>"
  have d: "MeasureCap_skip_diode e Probe1 Probe2 ?w0"
    using assms(4,5) by (simp add: MeasureCap_skip_diode_def)
  have "MeasureCap_resistors e (Resistors w) (Check_Resistors (Check w)) Probe1 Probe2 0 0 \<noteq> None"
    using assms(2,3) by (intro MeasureCap_resistors_defined) simp_all
  then have "\<exists>b. MeasureCap_skip_resistor e Probe1 Probe2 ?w0 = Some b"
    by (auto simp: MeasureCap_skip_resistor_def)
  then obtain b where r: "MeasureCap_skip_resistor e Probe1 Probe2 ?w0 = Some b"
    by blast
  have "MeasureCap e Probe1 Probe2 ID w = Some ?w0"
    using assms(1) d r by (cases b) (simp_all add: MeasureCap_def Let_def)
  then show ?thesis
    by (simp add: Cap_reset_sel)
qed

theorem MeasureCap_skips_diode_witness:
  "unat (0 :: u8) < length (Caps world_diode)
   \<and> unat (Check_Resistors (Check world_diode)) \<le> length (Resistors world_diode)
   \<and> length (Resistors world_diode) \<le> 100
   \<and> SearchDiode env_ref (Diodes world_diode) 0 1 = Some \<lparr>D_A = 0, D_C = 1, V_f = 700\<rparr>
   \<and> V_f \<lparr>D_A = 0, D_C = 1, V_f = 700\<rparr> < 1500
   \<and> MeasureCap env_ref 0 1 0 world_diode
       = Some (world_diode\<lparr>Caps := [Cap_reset env_ref cap_ref, cap_ref, cap_ref]\<rparr>)
   \<and> Cap_reset env_ref cap_ref
       = \<lparr>A = 0, B = 0, Scale = - 12, Raw = 0, Value = 0, I_leak_Value = 0,
          I_leak_Scale = - 6, U_loss = 0\<rparr>"
proof -
  have h1: "unat (0 :: u8) < length (Caps world_diode)"
    and h2: "unat (Check_Resistors (Check world_diode)) \<le> length (Resistors world_diode)"
    and h3: "length (Resistors world_diode) \<le> 100"
    and h4: "SearchDiode env_ref (Diodes world_diode) 0 1 = Some \<lparr>D_A = 0, D_C = 1, V_f = 700\<rparr>"
    and h5: "V_f \<lparr>D_A = 0, D_C = 1, V_f = 700\<rparr> < 1500"
    by (simp_all add: world_diode_def world_ref_sel env_ref_sel)
  have c: "Cap_reset env_ref cap_ref
       = \<lparr>A = 0, B = 0, Scale = - 12, Raw = 0, Value = 0, I_leak_Value = 0,
          I_leak_Scale = - 6, U_loss = 0\<rparr>"
    by (simp add: Cap_reset_def env_ref_sel cap_ref_def)
  from MeasureCap_skips_diode [OF h1 h2 h3 h4 h5]
  have "MeasureCap env_ref 0 1 0 world_diode
       = Some (world_diode\<lparr>Caps := [Cap_reset env_ref cap_ref, cap_ref, cap_ref]\<rparr>)"
    by (simp add: world_diode_def world_ref_sel)
  with h1 h2 h3 h4 h5 c show ?thesis
    by blast
qed

text \<open>
  C5. Subtracting a zero offset never wraps. In a successful \<open>SmallCap\<close> run, whenever
  \<open>CapZero\<close> (in pF) is greater than the computed value (in pF: \<open>Raw\<close>, times 1000 on
  the nF scale), \<open>Value\<close> is exactly 0; \<open>Value\<close> never exceeds \<open>Raw\<close>; and on the pF
  scale with \<open>CapZero \<le> Raw\<close> it is the difference. In \<open>MeasureESR\<close>, when the raw ESR
  does not exceed \<open>RZero\<close> the result is 0 for a capacitor that compares greater than
  1000 uF and \<open>UINT16_MAX\<close> otherwise, and when it does exceed \<open>RZero\<close> the result is
  the difference of the two as numbers.
\<close>

theorem zero_offset_never_wraps:
  "(SmallCap e c w = Some (3, c', w') \<longrightarrow>
      (unat (Raw c') * (if Scale c' = - 12 then 1 else 1000) < unat (CapZero_cur e w)
         \<longrightarrow> Value c' = 0)
      \<and> unat (Value c') \<le> unat (Raw c')
      \<and> (Scale c' = - 12 \<and> unat (CapZero_cur e w) \<le> unat (Raw c')
           \<longrightarrow> unat (Value c') = unat (Raw c') - unat (CapZero_cur e w)))
   \<and> (\<not> sint (CmpValue e (Value c) (Scale c) 10 (- 9)) < 0
        \<and> Found (Check (DischargeProbes e w)) \<noteq> COMP_ERROR e
        \<and> SetUpDelayTimer (ESR_delay e) \<noteq> 0
        \<and> ESR_loop e 255 1 1 (ESR_prepare e c w) = (Sum_1, Sum_2, w3)
        \<and> Sum_1 < Sum_2 \<longrightarrow>
      (ESR_raw w3 Sum_1 Sum_2 \<le> RZero_cur e w3
         \<longrightarrow> fst (MeasureESR e (Some c) w)
               = (if 0 < sint (CmpValue e (Value c) (Scale c) 1000 (- 6)) then 0 else 0xFFFF))
      \<and> (RZero_cur e w3 < ESR_raw w3 Sum_1 Sum_2
           \<longrightarrow> unat (fst (MeasureESR e (Some c) w))
                 = unat (ESR_raw w3 Sum_1 Sum_2) - unat (RZero_cur e w3)))"
proof (intro conjI impI)
  assume s: "SmallCap e c w = Some (3, c', w')"
  then obtain Ticks Ticks2 U_c w1 where
    m: "SmallCap_measure e (DischargeProbes e w) = Some (Ticks, Ticks2, U_c, w1)"
    and cl: "SmallCap_calc e w1 Ticks Ticks2 = Some (Scale c', Raw c', Value c')"
    by (rule SmallCap_success)
  have cz: "CapZero_cur e w1 = CapZero_cur e w"
    using SmallCap_measure_frame [OF m]
    by (intro CapZero_cur_cong) (simp_all add: DischargeProbes_sel)
  note nw = SmallCap_calc_no_wrap [OF cl, unfolded cz]
  show "unat (Value c') \<le> unat (Raw c')"
    using nw by simp
  show "Value c' = 0"
    if "unat (Raw c') * (if Scale c' = - 12 then 1 else 1000) < unat (CapZero_cur e w)"
    using nw that by simp
  show "unat (Value c') = unat (Raw c') - unat (CapZero_cur e w)"
    if "Scale c' = - 12 \<and> unat (CapZero_cur e w) \<le> unat (Raw c')"
    using nw that by simp
next
  assume a: "\<not> sint (CmpValue e (Value c) (Scale c) 10 (- 9)) < 0
        \<and> Found (Check (DischargeProbes e w)) \<noteq> COMP_ERROR e
        \<and> SetUpDelayTimer (ESR_delay e) \<noteq> 0
        \<and> ESR_loop e 255 1 1 (ESR_prepare e c w) = (Sum_1, Sum_2, w3)
        \<and> Sum_1 < Sum_2"
  then have r: "fst (MeasureESR e (Some c) w) = ESR_process e w3 c Sum_1 Sum_2"
    by (intro MeasureESR_run) simp_all
  show "fst (MeasureESR e (Some c) w)
               = (if 0 < sint (CmpValue e (Value c) (Scale c) 1000 (- 6)) then 0 else 0xFFFF)"
    if "ESR_raw w3 Sum_1 Sum_2 \<le> RZero_cur e w3"
    using a that by (simp add: r ESR_process_def Let_def not_less [symmetric])
  show "unat (fst (MeasureESR e (Some c) w))
                 = unat (ESR_raw w3 Sum_1 Sum_2) - unat (RZero_cur e w3)"
    if "RZero_cur e w3 < ESR_raw w3 Sum_1 Sum_2"
    using a that by (simp add: r ESR_process_def Let_def unat_sub)
qed

theorem zero_offset_never_wraps_witness:
  "SmallCap (env_small 0 10 0) cap_ref world_ref
     = Some (3, cap_ref\<lparr>A := 1, B := 0, Scale := - 12, Raw := 5, Value := 0\<rparr>,
             (DischargeProbes (env_small 0 10 0) world_ref)\<lparr>n_TIFR1 := Suc 0, n_ReadU := 1\<rparr>)
   \<and> unat (Raw (cap_ref\<lparr>A := 1, B := 0, Scale := - 12, Raw := 5, Value := 0\<rparr>)) * 1
        < unat (CapZero_cur (env_small 0 10 0) world_ref)
   \<and> Value (cap_ref\<lparr>A := 1, B := 0, Scale := - 12, Raw := 5, Value := 0\<rparr>) = 0
   \<and> \<not> sint (CmpValue (env_esr 100 101) (Value cap_ref) (Scale cap_ref) 10 (- 9)) < 0
   \<and> Found (Check (DischargeProbes (env_esr 100 101) world_ref)) \<noteq> COMP_ERROR (env_esr 100 101)
   \<and> SetUpDelayTimer (ESR_delay (env_esr 100 101)) \<noteq> 0
   \<and> ESR_loop (env_esr 100 101) 255 1 1 (ESR_prepare (env_esr 100 101) cap_ref world_ref)
       = (51001, 51511, (ESR_prepare (env_esr 100 101) cap_ref world_ref)\<lparr>n_ADCW := 1020\<rparr>)
   \<and> (51001 :: u32) < 51511
   \<and> ESR_raw ((ESR_prepare (env_esr 100 101) cap_ref world_ref)\<lparr>n_ADCW := 1020\<rparr>) 51001 51511
        \<le> RZero_cur (env_esr 100 101) ((ESR_prepare (env_esr 100 101) cap_ref world_ref)\<lparr>n_ADCW := 1020\<rparr>)
   \<and> fst (MeasureESR (env_esr 100 101) (Some cap_ref) world_ref) = 0xFFFF"
proof -
  let ?e = "env_small 0 10 0"
  let ?c = "cap_ref\<lparr>A := 1, B := 0, Scale := - 12, Raw := 5, Value := 0\<rparr>"
  let ?w = "(DischargeProbes ?e world_ref)\<lparr>n_TIFR1 := Suc 0, n_ReadU := 1\<rparr>"
  let ?f = "env_esr 100 101"
  let ?w3 = "(ESR_prepare ?f cap_ref world_ref)\<lparr>n_ADCW := 1020\<rparr>"
  have r: "SmallCap ?e cap_ref world_ref = Some (3, ?c, ?w)"
    by (rule env_small_run_0)
  have lt: "unat (Raw ?c) * (if Scale ?c = - 12 then 1 else 1000) < unat (CapZero_cur ?e world_ref)"
    by (simp add: CapZero_cur_def env_small_sel world_ref_sel)
  from zero_offset_never_wraps [of ?e cap_ref world_ref ?c ?w] r lt have v: "Value ?c = 0"
    by blast
  have l: "ESR_loop ?f 255 1 1 (ESR_prepare ?f cap_ref world_ref) = (51001, 51511, ?w3)"
    by (simp add: env_esr_loop)
  have le: "ESR_raw ?w3 51001 51511 \<le> RZero_cur ?f ?w3"
    by (simp add: ESR_raw_def RZero_cur_def ESR_prepare_sel world_ref_sel env_esr_sel)
  have big: "\<not> 0 < sint (CmpValue ?f (Value cap_ref) (Scale cap_ref) 1000 (- 6))"
    by (simp add: env_esr_sel cap_ref_sel CmpValue_ref_def)
  from zero_offset_never_wraps [of ?f cap_ref world_ref _ _ 51001 51511 ?w3]
    env_esr_runs [of 100 101] l le big
  have s: "fst (MeasureESR ?f (Some cap_ref) world_ref) = 0xFFFF"
    by simp
  have lt': "unat (Raw ?c) * 1 < unat (CapZero_cur ?e world_ref)"
    using lt by simp
  show ?thesis
    using r lt' v env_esr_runs [of 100 101] l le s by simp
qed

text \<open>
  C6. When the loaded sum \<open>Sum_2\<close> is not greater than the unloaded sum \<open>Sum_1\<close> after
  the 255 runs of the loop, \<open>MeasureESR\<close> returns \<open>UINT16_MAX\<close>.
\<close>

theorem MeasureESR_invalid_sums:
  assumes "ESR_loop e 255 1 1 (ESR_prepare e c w) = (Sum_1, Sum_2, w3)"
    and "Sum_2 \<le> Sum_1"
  shows "fst (MeasureESR e (Some c) w) = 0xFFFF"
  using assms by (auto simp: MeasureESR_def ESR_process_def)

theorem MeasureESR_invalid_sums_witness:
  "ESR_loop (env_esr 100 100) 255 1 1 (ESR_prepare (env_esr 100 100) cap_ref world_ref)
     = (51001, 51001, (ESR_prepare (env_esr 100 100) cap_ref world_ref)\<lparr>n_ADCW := 1020\<rparr>)
   \<and> (51001 :: u32) \<le> 51001
   \<and> fst (MeasureESR (env_esr 100 100) (Some cap_ref) world_ref) = 0xFFFF"
proof -
  have l: "ESR_loop (env_esr 100 100) 255 1 1 (ESR_prepare (env_esr 100 100) cap_ref world_ref)
     = (51001, 51001, (ESR_prepare (env_esr 100 100) cap_ref world_ref)\<lparr>n_ADCW := 1020\<rparr>)"
    by (simp add: env_esr_loop)
  show ?thesis
    using l MeasureESR_invalid_sums [OF l] by simp
qed

text \<open>
  C7 (amended). The comparator offset is not clamped: it is stored only when it lies
  strictly between -50 mV and 50 mV, and otherwise \<open>NV.CompOffset\<close> keeps its value.

  \<open>SmallCap\<close>, successful run: the self-adjustment is done in a build without
  \<open>HW_ADJUST_CAP\<close> for a value from 100 nF to 20 uF, and outside of it \<open>NV.CompOffset\<close>
  is not written. In it \<open>U_c\<close> is the voltage read after the capture; \<open>k\<close> reads above
  980 mV and one at or below it discharge the DUT, then come the readings \<open>U_vcc\<close> and
  \<open>U_bg\<close>. When these two differ by at most 4 mV the reference is not adjusted, and the
  offset \<open>U_c - Cfg.Bandgap\<close> is stored under the guard above.

  \<open>RefCap\<close>: it returns 0 or 1, and with 0 the store \<open>NV\<close> is unchanged. With 1, after
  \<open>m\<close> reads above \<open>CAP_DISCHARGED\<close> and one at or below it, \<open>U_c\<close> is the voltage read
  after the capture, \<open>j\<close> reads above 980 mV and one at or below it follow, then \<open>U_vcc\<close>
  and \<open>U_bg\<close>. The bandgap estimate is \<open>Cfg.Bandgap\<close> when they differ by at most 4 mV,
  and otherwise \<open>Cfg.Bandgap\<close> plus the correction
  \<open>(int8_t)((U_vcc - U_bg) * Cfg.Bandgap / U_bg)\<close>; it is the new \<open>Cfg.Bandgap\<close>, and
  the offset \<open>U_c\<close> less this estimate is stored under the guard above.

  The theorem leaves open what \<open>SmallCap\<close> stores when its two readings differ by more
  than 4 mV: there line 1440 adds \<open>(int8_t)Value\<close> to the local bandgap estimate, and
  \<open>Value\<close> holds the capacitance, where \<open>RefCap\<close> in line 1868 adds the correction.
\<close>

theorem CompOffset_guard:
  "(SmallCap e c w = Some (3, c', w') \<longrightarrow>
      (let ch = Ch_1 (Probes w);
           n0 = n_ReadU w;
           U_c = ReadU_in e n0 ch;
           U_vcc = ReadU_in e (n0 + k + 2) ch;
           U_bg = ReadU_in e (n0 + k + 3) ch;
           Offset = U_c - Bandgap (Cfg w)
       in if \<not> HW_ADJUST_CAP e
             \<and> ((Scale c' = - 12 \<and> 100000 \<le> Value c') \<or> (Scale c' = - 9 \<and> Value c' \<le> 20000))
          then reads_above e ch 980 (n0 + 1) k
                 \<and> - 4 \<le> sint (U_vcc - U_bg) \<and> sint (U_vcc - U_bg) \<le> 4
               \<longrightarrow> CompOffset (NV w')
                     = (if - 50 < sint Offset \<and> sint Offset < 50 then ucast Offset
                        else CompOffset (NV w))
          else CompOffset (NV w') = CompOffset (NV w)))
   \<and> (RefCap e v = Some (r, v') \<longrightarrow>
      (let tp = TP_CAP e;
           m0 = n_ReadU v;
           U_c = ReadU_in e (m0 + m + 1) tp;
           U_vcc = ReadU_in e (m0 + m + j + 3) tp;
           U_bg = ReadU_in e (m0 + m + j + 4) tp;
           Val = (word_of_int ((sint (U_vcc - U_bg) * uint (Bandgap (Cfg v))) sdiv uint U_bg) :: u32);
           U_bandgap = (if - 4 \<le> sint (U_vcc - U_bg) \<and> sint (U_vcc - U_bg) \<le> 4
                        then Bandgap (Cfg v)
                        else Bandgap (Cfg v) + scast (ucast Val :: u8));
           Offset = U_c - U_bandgap
       in (r = 0 \<or> r = 1)
          \<and> (r = 0 \<longrightarrow> NV v' = NV v)
          \<and> (r = 1 \<and> m \<le> 50 \<and> reads_above e tp (CAP_DISCHARGED e) m0 m
                \<and> reads_above e tp 980 (m0 + m + 2) j
              \<longrightarrow> CompOffset (NV v')
                    = (if - 50 < sint Offset \<and> sint Offset < 50 then ucast Offset
                       else CompOffset (NV v))
                  \<and> Bandgap (Cfg v') = U_bandgap)))"
proof (intro conjI impI)
  assume run: "SmallCap e c w = Some (3, c', w')"
  let ?ch = "Ch_1 (Probes w)"
  let ?n0 = "n_ReadU w"
  let ?win = "\<not> HW_ADJUST_CAP e
      \<and> ((Scale c' = - 12 \<and> 100000 \<le> Value c') \<or> (Scale c' = - 9 \<and> Value c' \<le> 20000))"
  from run obtain Ticks Ticks2 U w1 where
    m: "SmallCap_measure e (DischargeProbes e w) = Some (Ticks, Ticks2, U, w1)"
    by (rule SmallCap_success)
  have fr: "NV w1 = NV w" "Cfg w1 = Cfg w" "Probes w1 = Probes w"
    using SmallCap_measure_frame [OF m] by (simp_all add: DischargeProbes_sel)
  have "if ?win
        then reads_above e ?ch 980 (?n0 + 1) k
               \<and> - 4 \<le> sint (ReadU_in e (?n0 + k + 2) ?ch - ReadU_in e (?n0 + k + 3) ?ch)
               \<and> sint (ReadU_in e (?n0 + k + 2) ?ch - ReadU_in e (?n0 + k + 3) ?ch) \<le> 4
             \<longrightarrow> CompOffset (NV w')
                   = (if - 50 < sint (ReadU_in e ?n0 ?ch - Bandgap (Cfg w))
                         \<and> sint (ReadU_in e ?n0 ?ch - Bandgap (Cfg w)) < 50
                      then ucast (ReadU_in e ?n0 ?ch - Bandgap (Cfg w))
                      else CompOffset (NV w))
        else CompOffset (NV w') = CompOffset (NV w)"
  proof (cases ?win)
    case False
    with SmallCap_success_NV [OF run m] have "NV w' = NV w1"
      by auto
    then show ?thesis
      unfolding if_not_P [OF False] by (simp add: fr)
  next
    case True
    then have hw: "\<not> HW_ADJUST_CAP e"
      by simp
    from True SmallCap_success_NV [OF run m] obtain w2 where
      a: "SmallCap_adjust e U (Value c') w1 = Some w2" and nv: "NV w' = NV w2"
      by auto
    have rd: "U = ReadU_in e ?n0 ?ch" "n_ReadU w1 = Suc ?n0"
      using SmallCap_measure_reads [OF m hw] by (simp_all add: DischargeProbes_sel)
    have "CompOffset (NV w')
            = (if - 50 < sint (ReadU_in e ?n0 ?ch - Bandgap (Cfg w))
                  \<and> sint (ReadU_in e ?n0 ?ch - Bandgap (Cfg w)) < 50
               then ucast (ReadU_in e ?n0 ?ch - Bandgap (Cfg w))
               else CompOffset (NV w))"
      if ra: "reads_above e ?ch 980 (?n0 + 1) k"
        and lo: "- 4 \<le> sint (ReadU_in e (?n0 + k + 2) ?ch - ReadU_in e (?n0 + k + 3) ?ch)"
        and hi: "sint (ReadU_in e (?n0 + k + 2) ?ch - ReadU_in e (?n0 + k + 3) ?ch) \<le> 4"
    proof -
      have ra1: "reads_above e (Ch_1 (Probes w1)) 980 (n_ReadU w1) k"
        using ra by (simp add: fr rd)
      have i1: "n_ReadU w1 + k + 1 = ?n0 + k + 2" and i2: "n_ReadU w1 + k + 2 = ?n0 + k + 3"
        by (simp_all add: rd)
      have "CompOffset (NV w2)
           = (if - 50 < sint (U - Bandgap (Cfg w1)) \<and> sint (U - Bandgap (Cfg w1)) < 50
              then ucast (U - Bandgap (Cfg w1)) else CompOffset (NV w1))"
        by (rule SmallCap_adjust_reads [OF ra1 a]) (simp_all only: fr i1 i2 lo hi)
      then show ?thesis
        unfolding nv fr rd .
    qed
    then show ?thesis
      unfolding if_P [OF True] by blast
  qed
  then show "let ch = Ch_1 (Probes w);
           n0 = n_ReadU w;
           U_c = ReadU_in e n0 ch;
           U_vcc = ReadU_in e (n0 + k + 2) ch;
           U_bg = ReadU_in e (n0 + k + 3) ch;
           Offset = U_c - Bandgap (Cfg w)
       in if \<not> HW_ADJUST_CAP e
             \<and> ((Scale c' = - 12 \<and> 100000 \<le> Value c') \<or> (Scale c' = - 9 \<and> Value c' \<le> 20000))
          then reads_above e ch 980 (n0 + 1) k
                 \<and> - 4 \<le> sint (U_vcc - U_bg) \<and> sint (U_vcc - U_bg) \<le> 4
               \<longrightarrow> CompOffset (NV w')
                     = (if - 50 < sint Offset \<and> sint Offset < 50 then ucast Offset
                        else CompOffset (NV w))
          else CompOffset (NV w') = CompOffset (NV w)"
    unfolding Let_def .
next
  assume run: "RefCap e v = Some (r, v')"
  let ?tp = "TP_CAP e"
  let ?m0 = "n_ReadU v"
  let ?D = "ReadU_in e (?m0 + m + j + 3) ?tp - ReadU_in e (?m0 + m + j + 4) ?tp"
  let ?Val = "(word_of_int ((sint ?D * uint (Bandgap (Cfg v)))
                 sdiv uint (ReadU_in e (?m0 + m + j + 4) ?tp)) :: u32)"
  let ?T = "if - 4 \<le> sint ?D \<and> sint ?D \<le> 4 then Bandgap (Cfg v)
            else Bandgap (Cfg v) + scast (ucast ?Val :: u8)"
  let ?O = "ReadU_in e (?m0 + m + 1) ?tp - ?T"
  have r01: "r = 0 \<or> r = 1"
    using run by (rule RefCap_cases) simp_all
  have r0: "r = 0 \<longrightarrow> NV v' = NV v"
    using run by (rule RefCap_cases) simp_all
  have r1: "CompOffset (NV v')
               = (if - 50 < sint ?O \<and> sint ?O < 50 then ucast ?O else CompOffset (NV v))
            \<and> Bandgap (Cfg v') = ?T"
    if "r = 1" and m50: "m \<le> 50"
      and wa: "reads_above e ?tp (CAP_DISCHARGED e) ?m0 m"
      and di: "reads_above e ?tp 980 (?m0 + m + 2) j"
  proof -
    have "r = 1 \<longrightarrow>
        (\<exists>Ticks2 U w1. RefCap_measure e (snd (RefCap_wait e 0 v)) = Some (Ticks2, U, w1)
           \<and> RefCap_adjust e U w1 = Some v')"
      using run by (rule RefCap_cases) auto
    with \<open>r = 1\<close> obtain Ticks2 U w1 where
      me: "RefCap_measure e (snd (RefCap_wait e 0 v)) = Some (Ticks2, U, w1)"
      and ad: "RefCap_adjust e U w1 = Some v'"
      by blast
    have wt: "RefCap_wait e 0 v = (100, v\<lparr>n_ReadU := ?m0 + Suc m\<rparr>)"
      using m50 by (intro RefCap_wait_reads [OF wa]) simp
    have rd: "U = ReadU_in e (?m0 + m + 1) ?tp" "n_ReadU w1 = ?m0 + m + 2"
      "NV w1 = NV v" "Cfg w1 = Cfg v"
      using RefCap_measure_reads [OF me] by (simp_all add: wt)
    have di1: "reads_above e ?tp 980 (n_ReadU w1) j"
      using di by (simp add: rd)
    have i1: "?m0 + m + 2 + j + 1 = ?m0 + m + j + 3" and i2: "?m0 + m + 2 + j + 2 = ?m0 + m + j + 4"
      by simp_all
    from RefCap_adjust_reads [OF di1 ad] show ?thesis
      unfolding Let_def rd i1 i2 .
  qed
  from r01 r0 r1 show "let tp = TP_CAP e;
           m0 = n_ReadU v;
           U_c = ReadU_in e (m0 + m + 1) tp;
           U_vcc = ReadU_in e (m0 + m + j + 3) tp;
           U_bg = ReadU_in e (m0 + m + j + 4) tp;
           Val = (word_of_int ((sint (U_vcc - U_bg) * uint (Bandgap (Cfg v))) sdiv uint U_bg) :: u32);
           U_bandgap = (if - 4 \<le> sint (U_vcc - U_bg) \<and> sint (U_vcc - U_bg) \<le> 4
                        then Bandgap (Cfg v)
                        else Bandgap (Cfg v) + scast (ucast Val :: u8));
           Offset = U_c - U_bandgap
       in (r = 0 \<or> r = 1)
          \<and> (r = 0 \<longrightarrow> NV v' = NV v)
          \<and> (r = 1 \<and> m \<le> 50 \<and> reads_above e tp (CAP_DISCHARGED e) m0 m
                \<and> reads_above e tp 980 (m0 + m + 2) j
              \<longrightarrow> CompOffset (NV v')
                    = (if - 50 < sint Offset \<and> sint Offset < 50 then ucast Offset
                       else CompOffset (NV v))
                  \<and> Bandgap (Cfg v') = U_bandgap)"
    unfolding Let_def by blast
qed

theorem CompOffset_guard_witness:
  "(\<exists>w'. SmallCap (env_cal 1120 902 900) cap_ref world_ref
            = Some (3, cap_ref\<lparr>A := 1, B := 0, Scale := - 9, Raw := 2703, Value := 2703\<rparr>, w')
         \<and> CompOffset (NV w') = 20)
   \<and> reads_above (env_cal 1120 902 900) (Ch_1 (Probes world_ref)) 980 (n_ReadU world_ref + 1) 2
   \<and> sint (ReadU_in (env_cal 1120 902 900) (n_ReadU world_ref + 2 + 2) (Ch_1 (Probes world_ref))
            - ReadU_in (env_cal 1120 902 900) (n_ReadU world_ref + 2 + 3) (Ch_1 (Probes world_ref)))
       = 2
   \<and> sint (ReadU_in (env_cal 1120 902 900) (n_ReadU world_ref) (Ch_1 (Probes world_ref))
            - Bandgap (Cfg world_ref)) = 20
   \<and> (\<exists>w'. SmallCap (env_small 0 10 1120) cap_ref world_ref
            = Some (3, cap_ref\<lparr>A := 1, B := 0, Scale := - 12, Raw := 5, Value := 0\<rparr>, w')
         \<and> CompOffset (NV w') = CompOffset (NV world_ref))
   \<and> (\<exists>v'. RefCap (env_refcap 1120 910 900) world_ref = Some (1, v')
         \<and> CompOffset (NV v') = 8 \<and> Bandgap (Cfg v') = 1112)
   \<and> reads_above (env_refcap 1120 910 900) (TP_CAP (env_refcap 1120 910 900))
        (CAP_DISCHARGED (env_refcap 1120 910 900)) (n_ReadU world_ref) 2
   \<and> reads_above (env_refcap 1120 910 900) (TP_CAP (env_refcap 1120 910 900)) 980
        (n_ReadU world_ref + 2 + 2) 2
   \<and> sint (ReadU_in (env_refcap 1120 910 900) (n_ReadU world_ref + 2 + 2 + 3)
              (TP_CAP (env_refcap 1120 910 900))
            - ReadU_in (env_refcap 1120 910 900) (n_ReadU world_ref + 2 + 2 + 4)
                (TP_CAP (env_refcap 1120 910 900))) = 10
   \<and> (\<exists>v'. RefCap env_stuck world_ref = Some (0, v') \<and> NV v' = NV world_ref)"
proof -
  let ?e = "env_cal 1120 902 900"
  let ?c = "cap_ref\<lparr>A := 1, B := 0, Scale := - 9, Raw := 2703, Value := 2703\<rparr>"
  let ?f = "env_refcap 1120 910 900"
  let ?g = "env_small 0 10 1120"
  let ?d = "cap_ref\<lparr>A := 1, B := 0, Scale := - 12, Raw := 5, Value := 0\<rparr>"
  have ra: "reads_above ?e (Ch_1 (Probes world_ref)) 980 (n_ReadU world_ref + 1) 2"
    using env_cal_reads [of 1120 902 900] by (simp add: world_ref_sel)
  have d1: "sint (ReadU_in ?e (n_ReadU world_ref + 2 + 2) (Ch_1 (Probes world_ref))
            - ReadU_in ?e (n_ReadU world_ref + 2 + 3) (Ch_1 (Probes world_ref))) = 2"
    by (simp add: env_cal_sel world_ref_sel)
  have o1: "sint (ReadU_in ?e (n_ReadU world_ref) (Ch_1 (Probes world_ref))
            - Bandgap (Cfg world_ref)) = 20"
    by (simp add: env_cal_sel world_ref_sel)
  from env_cal_run [of 1120] obtain w' where
    run: "SmallCap ?e cap_ref world_ref = Some (3, ?c, w')"
    by blast
  have "CompOffset (NV w') = 20"
    using CompOffset_guard [where e = ?e and c = cap_ref and w = world_ref and c' = ?c and w' = w'
          and k = 2, THEN conjunct1, THEN mp, OF run]
      ra d1 o1
    by (simp add: Let_def env_cal_sel world_ref_sel)
  with run have A: "\<exists>w'. SmallCap ?e cap_ref world_ref = Some (3, ?c, w') \<and> CompOffset (NV w') = 20"
    by blast
  have run0: "SmallCap ?g cap_ref world_ref
      = Some (3, ?d, (DischargeProbes ?g world_ref)\<lparr>n_TIFR1 := Suc 0, n_ReadU := 1\<rparr>)"
    by (rule env_small_run_0)
  have "CompOffset (NV ((DischargeProbes ?g world_ref)\<lparr>n_TIFR1 := Suc 0, n_ReadU := 1\<rparr>))
          = CompOffset (NV world_ref)"
    using CompOffset_guard [where e = ?g and c = cap_ref and w = world_ref and c' = ?d and k = 0,
          THEN conjunct1, THEN mp, OF run0]
    by (simp add: Let_def)
  with run0 have B: "\<exists>w'. SmallCap ?g cap_ref world_ref = Some (3, ?d, w')
         \<and> CompOffset (NV w') = CompOffset (NV world_ref)"
    by blast
  have i4: "n_ReadU world_ref + 2 + 2 = 4"
    by (simp add: world_ref_sel)
  have wa: "reads_above ?f (TP_CAP ?f) (CAP_DISCHARGED ?f) (n_ReadU world_ref) 2"
    using env_refcap_reads(1) [of 1120 910 900] by (simp add: env_refcap_sel world_ref_sel)
  have di: "reads_above ?f (TP_CAP ?f) 980 (n_ReadU world_ref + 2 + 2) 2"
    unfolding i4 using env_refcap_reads(2) [of 1120 910 900] by (simp add: env_refcap_sel)
  have d2: "sint (ReadU_in ?f (n_ReadU world_ref + 2 + 2 + 3) (TP_CAP ?f)
            - ReadU_in ?f (n_ReadU world_ref + 2 + 2 + 4) (TP_CAP ?f)) = 10"
    by (simp add: env_refcap_sel world_ref_sel)
  from env_refcap_run [of 1120] obtain v' where
    runr: "RefCap ?f world_ref = Some (1, v')"
    by blast
  have "CompOffset (NV v') = 8 \<and> Bandgap (Cfg v') = 1112"
    using CompOffset_guard [where e = ?f and v = world_ref and r = 1 and v' = v' and m = 2 and j = 2,
          THEN conjunct2, THEN mp, OF runr]
      wa di d2
    by (simp add: Let_def env_refcap_sel world_ref_sel signed_divide_int_def)
  with runr have C: "\<exists>v'. RefCap ?f world_ref = Some (1, v')
         \<and> CompOffset (NV v') = 8 \<and> Bandgap (Cfg v') = 1112"
    by blast
  have "NV (world_ref\<lparr>n_ReadU := n_ReadU world_ref + 51\<rparr>) = NV world_ref"
    using CompOffset_guard [where e = env_stuck and v = world_ref and r = 0,
          THEN conjunct2, THEN mp, OF env_stuck_run]
    by (simp add: Let_def)
  with env_stuck_run have D: "\<exists>v'. RefCap env_stuck world_ref = Some (0, v') \<and> NV v' = NV world_ref"
    by blast
  from A ra d1 o1 B C wa di d2 D show ?thesis
    by blast
qed

text \<open>
  The claim as it was stated, with the offset clamped to +-50 mV, fails: for a measured
  \<open>U_c\<close> of 1180 mV and a bandgap of 1100 mV the offset is 80 mV; clamped it would be
  50 mV, but \<open>NV.CompOffset\<close> keeps its old value 7.
\<close>

theorem SmallCap_CompOffset_clamp_counterexample:
  "SmallCap_measure (env_small 66 0 1180) (DischargeProbes (env_small 66 0 1180) world_ref)
     = Some (0, 66, 1180,
         (DischargeProbes (env_small 66 0 1180) world_ref)\<lparr>n_TIFR1 := Suc 66, n_ReadU := 1\<rparr>)
   \<and> fst (the (SmallCap (env_small 66 0 1180) cap_ref world_ref)) = 3
   \<and> Scale (fst (snd (the (SmallCap (env_small 66 0 1180) cap_ref world_ref)))) = - 9
   \<and> Value (fst (snd (the (SmallCap (env_small 66 0 1180) cap_ref world_ref)))) \<le> 20000
   \<and> sint (1180 - Bandgap (Cfg world_ref)) = 80
   \<and> spec_clamp_50 (sint (1180 - Bandgap (Cfg world_ref))) = 50
   \<and> sint (CompOffset (NV world_ref)) = 7
   \<and> sint (CompOffset (NV (snd (snd (the (SmallCap (env_small 66 0 1180) cap_ref world_ref)))))) = 7
   \<and> sint (CompOffset (NV (snd (snd (the (SmallCap (env_small 66 0 1180) cap_ref world_ref))))))
        \<noteq> spec_clamp_50 (sint (1180 - Bandgap (Cfg world_ref)))"
proof -
  let ?e = "env_small 66 0 1180"
  from env_small_run_66 [of 1180] obtain w' where
    r: "SmallCap ?e cap_ref world_ref
          = Some (3, cap_ref\<lparr>A := 1, B := 0, Scale := - 9, Raw := 2703, Value := 2703\<rparr>, w')"
    and o: "CompOffset (NV w') = 7"
    by auto
  have m: "SmallCap_measure ?e (DischargeProbes ?e world_ref)
      = Some (0, 66, 1180, (DischargeProbes ?e world_ref)\<lparr>n_TIFR1 := Suc 66, n_ReadU := 1\<rparr>)"
    using env_small_measure [of 66 0 1180] by simp
  show ?thesis
    using m by (simp add: r o world_ref_sel spec_clamp_50_def)
qed

text \<open>
  C8. In a successful \<open>SmallCap\<close> run the zero offset \<open>CapZero\<close> is subtracted only on
  the pF scale: when the tick count exceeds \<open>UINT32_MAX / 1000\<close> the scale is -9 and
  \<open>Value\<close> equals \<open>Raw\<close>; otherwise the scale is -12 and \<open>Value\<close> is \<open>Raw - CapZero\<close>,
  or 0 when \<open>CapZero\<close> is greater than \<open>Raw\<close>.
\<close>

theorem SmallCap_zero_offset_only_pF:
  assumes "SmallCap e c w = Some (3, c', w')"
    and "SmallCap_measure e (DischargeProbes e w) = Some (Ticks, Ticks2, U_c, w1)"
  shows "if 4294967 < SmallCap_ticks Ticks Ticks2
         then Scale c' = - 9 \<and> Value c' = Raw c'
         else Scale c' = - 12
              \<and> Value c' = (if ucast (CapZero_cur e w) \<le> Raw c'
                             then Raw c' - ucast (CapZero_cur e w) else 0)"
proof -
  from assms(1) obtain T T2 U w1' where
    m: "SmallCap_measure e (DischargeProbes e w) = Some (T, T2, U, w1')"
    and cl: "SmallCap_calc e w1' T T2 = Some (Scale c', Raw c', Value c')"
    by (rule SmallCap_success)
  from m assms(2) have eq: "T = Ticks" "T2 = Ticks2" "w1' = w1"
    by simp_all
  have cz: "CapZero_cur e w1 = CapZero_cur e w"
    using SmallCap_measure_frame [OF assms(2)]
    by (intro CapZero_cur_cong) (simp_all add: DischargeProbes_sel)
  show ?thesis
    using SmallCap_calc_cases [OF cl] by (simp only: eq cz)
qed

theorem SmallCap_zero_offset_only_pF_witness:
  "\<exists>w'. SmallCap (env_small 66 0 1120) cap_ref world_ref
          = Some (3, cap_ref\<lparr>A := 1, B := 0, Scale := - 9, Raw := 2703, Value := 2703\<rparr>, w')
      \<and> SmallCap_measure (env_small 66 0 1120) (DischargeProbes (env_small 66 0 1120) world_ref)
          = Some (0, 66, 1120,
              (DischargeProbes (env_small 66 0 1120) world_ref)\<lparr>n_TIFR1 := Suc 66, n_ReadU := 1\<rparr>)
      \<and> (4294967 :: u32) < SmallCap_ticks 0 66
      \<and> Scale (cap_ref\<lparr>A := 1, B := 0, Scale := - 9, Raw := 2703, Value := 2703\<rparr>) = - 9
      \<and> Value (cap_ref\<lparr>A := 1, B := 0, Scale := - 9, Raw := 2703, Value := 2703\<rparr>)
          = Raw (cap_ref\<lparr>A := 1, B := 0, Scale := - 9, Raw := 2703, Value := 2703\<rparr>)"
proof -
  let ?e = "env_small 66 0 1120"
  let ?c = "cap_ref\<lparr>A := 1, B := 0, Scale := - 9, Raw := 2703, Value := 2703\<rparr>"
  from env_small_run_66 [of 1120] obtain w' where
    r: "SmallCap ?e cap_ref world_ref = Some (3, ?c, w')"
    by blast
  have m: "SmallCap_measure ?e (DischargeProbes ?e world_ref)
      = Some (0, 66, 1120, (DischargeProbes ?e world_ref)\<lparr>n_TIFR1 := Suc 66, n_ReadU := 1\<rparr>)"
    using env_small_measure [of 66 0 1120] by simp
  have t: "(4294967 :: u32) < SmallCap_ticks 0 66"
    by (simp add: SmallCap_ticks_def)
  from SmallCap_zero_offset_only_pF [OF r m] t have "Scale ?c = - 9 \<and> Value ?c = Raw ?c"
    by (simp only: if_True)
  with r m t show ?thesis
    by blast
qed

text \<open>
  C9. The charge loop of \<open>LargeCap\<close> ends at the first pulse \<open>n\<close> at which one of three
  conditions holds: \<open>n = 126\<close> and the offset-corrected voltage is below 75 mV (the early
  exit), the offset-corrected voltage has reached 300 mV, or \<open>n = 500\<close> (the pulse
  budget). When the probes can be discharged, the first attempt gives exactly \<open>n\<close> pulses
  of 10 ms and ends with the offset-corrected voltage of pulse \<open>n\<close>; when that voltage is
  below 300 mV, \<open>LargeCap\<close> returns 1 after these \<open>n\<close> pulses and leaves the capacitor
  record as it was. So a DUT that is still below 75 mV at pulse 126 gets the return value
  1 after 126 pulses, and one that is at 75 mV or more there, and stays below 300 mV,
  only after all 500.
\<close>

theorem LargeCap_early_exit:
  assumes "Found (Check (DischargeProbes e w)) \<noteq> COMP_ERROR e"
    and "1 \<le> n"
    and "\<And>k. 1 \<le> k \<Longrightarrow> k < n \<Longrightarrow>
           \<not> ((k = 126 \<and> offset_corrected e w k < 75) \<or> 300 \<le> offset_corrected e w k
               \<or> k = 500)"
    and "(n = 126 \<and> offset_corrected e w n < 75) \<or> 300 \<le> offset_corrected e w n \<or> n = 500"
  shows "\<exists>w1. LargeCap_attempt e (PULL_10MS e OR PULL_UP e) (DischargeProbes e w)
                 = (of_nat n, of_nat (offset_corrected e w n), w1)
           \<and> Pulses_given w1
               = replicate n (Rl_1 (Probes w), PULL_10MS e OR PULL_UP e) @ Pulses_given w
           \<and> (offset_corrected e w n < 300 \<longrightarrow> LargeCap e c w = Some (1, c, w1))"
proof -
  let ?M = "PULL_10MS e OR PULL_UP e"
  let ?w0 = "DischargeProbes e w"
  let ?w1 = "snd (LargeCap_zero e ?w0)"
  let ?Z = "ReadU_in e (n_ReadU w) (Ch_1 (Probes w)) - ReadU_in e (n_ReadU w + 1) (Ch_2 (Probes w))"
  let ?U = "LargeCap_offset ?Z (ReadU_in e (n_ReadU w + 1 + n) (Ch_1 (Probes w)))"
  let ?w2 = "?w1\<lparr>n_ReadU := n_ReadU ?w1 + Suc (n - 1),
          Pulses_given := replicate (Suc (n - 1)) (Rl_1 (Probes ?w1), ?M) @ Pulses_given ?w1\<rparr>"
  have z: "fst (LargeCap_zero e ?w0) = ?Z"
    by (simp add: LargeCap_zero_sel DischargeProbes_sel)
  have w1: "n_ReadU ?w1 = n_ReadU w + 2" "Probes ?w1 = Probes w" "Pulses_given ?w1 = Pulses_given w"
    by (simp_all add: LargeCap_zero_sel DischargeProbes_sel)
  have n500: "n \<le> 500"
  proof (rule ccontr)
    assume "\<not> n \<le> 500"
    then have "1 \<le> (500 :: nat)" "500 < n"
      by simp_all
    from assms(3) [OF this] show False
      by simp
  qed
  have corr: "unat (ReadU_in e (n_ReadU ?w1 + k) (Ch_1 (Probes ?w1))) - unat ?Z
                = offset_corrected e w (Suc k)" for k
    by (simp add: w1 offset_corrected_def)
  have n1: "Suc (n - 1) = n"
    using assms(2) by simp
  have "LargeCap_charge e ?M ?Z 0 ?w1
     = (of_nat (unat (0 :: u16) + (n - 1) + 1),
        LargeCap_offset ?Z (ReadU_in e (n_ReadU ?w1 + (n - 1)) (Ch_1 (Probes ?w1))), ?w2)"
  proof (rule LargeCap_charge_stops)
    show "unat (0 :: u16) + (n - 1) < 500"
      using n500 assms(2) by simp
    show "\<not> ((unat (0 :: u16) + k + 1 = 126
                 \<and> unat (ReadU_in e (n_ReadU ?w1 + k) (Ch_1 (Probes ?w1))) - unat ?Z < 75)
               \<or> 300 \<le> unat (ReadU_in e (n_ReadU ?w1 + k) (Ch_1 (Probes ?w1))) - unat ?Z)"
      if "k < n - 1" for k
      using assms(3) [of "Suc k"] that unfolding corr by simp
    show "(unat (0 :: u16) + (n - 1) + 1 = 126
            \<and> unat (ReadU_in e (n_ReadU ?w1 + (n - 1)) (Ch_1 (Probes ?w1))) - unat ?Z < 75)
         \<or> 300 \<le> unat (ReadU_in e (n_ReadU ?w1 + (n - 1)) (Ch_1 (Probes ?w1))) - unat ?Z
         \<or> unat (0 :: u16) + (n - 1) + 1 = 500"
      using assms(4) assms(2) unfolding corr n1 by auto
  qed
  then have ch: "LargeCap_charge e ?M ?Z 0 ?w1 = (of_nat n, ?U, ?w2)"
    using n1 by (simp add: w1)
  have U: "?U = of_nat (offset_corrected e w n)"
  proof -
    have "?U = of_nat (unat ?U)"
      by simp
    also have "unat ?U = offset_corrected e w n"
      by (simp add: unat_LargeCap_offset offset_corrected_def)
    finally show ?thesis .
  qed
  have at: "LargeCap_attempt e ?M ?w0 = (of_nat n, of_nat (offset_corrected e w n), ?w2)"
    unfolding LargeCap_attempt_def z ch U ..
  have "Pulses_given ?w2 = replicate (Suc (n - 1)) (Rl_1 (Probes w), ?M) @ Pulses_given w"
    by (simp add: w1 del: replicate.simps)
  then have pg: "Pulses_given ?w2 = replicate n (Rl_1 (Probes w), ?M) @ Pulses_given w"
    unfolding n1 .
  have ret: "LargeCap e c w = Some (1, c, ?w2)" if lt: "offset_corrected e w n < 300"
  proof -
    have "unat ?U < 300"
      using lt by (simp add: unat_LargeCap_offset offset_corrected_def)
    then have "?U < 300"
      by (simp add: word_less_nat_alt)
    then have small: "of_nat (offset_corrected e w n) < (300 :: u16)"
      unfolding U .
    then have "\<not> (1300 :: u16) < of_nat (offset_corrected e w n)"
      by (simp add: word_less_nat_alt)
    with small show ?thesis
      unfolding LargeCap_def
      using assms(1)
      by (subst LargeCap_from.simps) (simp add: at Let_def LargeCap_finish_def)
  qed
  from at pg ret show ?thesis
    by blast
qed

theorem LargeCap_early_exit_witness:
  "Found (Check (DischargeProbes (env_charge 100) world_ref)) \<noteq> COMP_ERROR (env_charge 100)
   \<and> list_all (\<lambda>k. \<not> ((k = 126 \<and> offset_corrected (env_charge 100) world_ref k < 75)
                        \<or> 300 \<le> offset_corrected (env_charge 100) world_ref k \<or> k = 500))
        [1..<126]
   \<and> offset_corrected (env_charge 100) world_ref 126 = 60
   \<and> (\<exists>w1. LargeCap_attempt (env_charge 100) 17 (DischargeProbes (env_charge 100) world_ref)
               = (126, 60, w1)
          \<and> Pulses_given w1 = replicate 126 (1, 17)
          \<and> LargeCap (env_charge 100) cap_ref world_ref = Some (1, cap_ref, w1))
   \<and> Found (Check (DischargeProbes (env_charge 120) world_ref)) \<noteq> COMP_ERROR (env_charge 120)
   \<and> list_all (\<lambda>k. \<not> ((k = 126 \<and> offset_corrected (env_charge 120) world_ref k < 75)
                        \<or> 300 \<le> offset_corrected (env_charge 120) world_ref k \<or> k = 500))
        [1..<500]
   \<and> offset_corrected (env_charge 120) world_ref 126 = 80
   \<and> (\<exists>w1. LargeCap_attempt (env_charge 120) 17 (DischargeProbes (env_charge 120) world_ref)
               = (500, 80, w1)
          \<and> Pulses_given w1 = replicate 500 (1, 17)
          \<and> LargeCap (env_charge 120) cap_ref world_ref = Some (1, cap_ref, w1))
   \<and> Found (Check (DischargeProbes (env_charge 400) world_ref)) \<noteq> COMP_ERROR (env_charge 400)
   \<and> offset_corrected (env_charge 400) world_ref 1 = 360
   \<and> (\<exists>w1. LargeCap_attempt (env_charge 400) 17 (DischargeProbes (env_charge 400) world_ref)
               = (1, 360, w1)
          \<and> Pulses_given w1 = replicate 1 (1, 17))"
proof -
  have h1: "Found (Check (DischargeProbes (env_charge u) world_ref)) \<noteq> COMP_ERROR (env_charge u)"
    for u
    by (simp add: DischargeProbes_def env_charge_sel world_ref_sel)
  have a3: "\<not> ((k = 126 \<and> offset_corrected (env_charge 100) world_ref k < 75)
               \<or> 300 \<le> offset_corrected (env_charge 100) world_ref k \<or> k = 500)"
    if "1 \<le> k" "k < 126" for k
    using that by (simp add: env_charge_corrected)
  have a4: "(126 = (126 :: nat) \<and> offset_corrected (env_charge 100) world_ref 126 < 75)
               \<or> 300 \<le> offset_corrected (env_charge 100) world_ref 126 \<or> 126 = (500 :: nat)"
    by (simp add: env_charge_corrected)
  have b3: "\<not> ((k = 126 \<and> offset_corrected (env_charge 120) world_ref k < 75)
               \<or> 300 \<le> offset_corrected (env_charge 120) world_ref k \<or> k = 500)"
    if "1 \<le> k" "k < 500" for k
    using that by (simp add: env_charge_corrected)
  have b4: "(500 = (126 :: nat) \<and> offset_corrected (env_charge 120) world_ref 500 < 75)
               \<or> 300 \<le> offset_corrected (env_charge 120) world_ref 500 \<or> 500 = (500 :: nat)"
    by simp
  have A: "\<exists>w1. LargeCap_attempt (env_charge 100) 17 (DischargeProbes (env_charge 100) world_ref)
               = (126, 60, w1)
          \<and> Pulses_given w1 = replicate 126 (1, 17)
          \<and> LargeCap (env_charge 100) cap_ref world_ref = Some (1, cap_ref, w1)"
    using LargeCap_early_exit [OF h1 _ a3 a4, of cap_ref]
    by (simp add: env_charge_corrected env_charge_sel world_ref_sel)
  have B: "\<exists>w1. LargeCap_attempt (env_charge 120) 17 (DischargeProbes (env_charge 120) world_ref)
               = (500, 80, w1)
          \<and> Pulses_given w1 = replicate 500 (1, 17)
          \<and> LargeCap (env_charge 120) cap_ref world_ref = Some (1, cap_ref, w1)"
    using LargeCap_early_exit [OF h1 _ b3 b4, of cap_ref]
    by (simp add: env_charge_corrected env_charge_sel world_ref_sel)
  have c3: "\<not> ((k = 126 \<and> offset_corrected (env_charge 400) world_ref k < 75)
               \<or> 300 \<le> offset_corrected (env_charge 400) world_ref k \<or> k = 500)"
    if "1 \<le> k" "k < 1" for k
    using that by simp
  have c4: "(1 = (126 :: nat) \<and> offset_corrected (env_charge 400) world_ref 1 < 75)
               \<or> 300 \<le> offset_corrected (env_charge 400) world_ref 1 \<or> 1 = (500 :: nat)"
    by (simp add: env_charge_corrected)
  have C: "\<exists>w1. LargeCap_attempt (env_charge 400) 17 (DischargeProbes (env_charge 400) world_ref)
               = (1, 360, w1)
          \<and> Pulses_given w1 = replicate 1 (1, 17)"
    using LargeCap_early_exit [OF h1 _ c3 c4, of cap_ref]
    by (simp add: env_charge_corrected env_charge_sel world_ref_sel)
  have C5: "offset_corrected (env_charge 400) world_ref 1 = 360"
    by (simp add: env_charge_corrected)
  have A3: "list_all (\<lambda>k. \<not> ((k = 126 \<and> offset_corrected (env_charge 100) world_ref k < 75)
                        \<or> 300 \<le> offset_corrected (env_charge 100) world_ref k \<or> k = 500))
        [1..<126]"
    unfolding list_all_iff
  proof (rule ballI)
    fix k :: nat
    assume "k \<in> set [1..<126]"
    then have "1 \<le> k" "k < 126"
      by simp_all
    then show "\<not> ((k = 126 \<and> offset_corrected (env_charge 100) world_ref k < 75)
                        \<or> 300 \<le> offset_corrected (env_charge 100) world_ref k \<or> k = 500)"
      by (rule a3)
  qed
  have B3: "list_all (\<lambda>k. \<not> ((k = 126 \<and> offset_corrected (env_charge 120) world_ref k < 75)
                        \<or> 300 \<le> offset_corrected (env_charge 120) world_ref k \<or> k = 500))
        [1..<500]"
    unfolding list_all_iff
  proof (rule ballI)
    fix k :: nat
    assume "k \<in> set [1..<500]"
    then have "1 \<le> k" "k < 500"
      by simp_all
    then show "\<not> ((k = 126 \<and> offset_corrected (env_charge 120) world_ref k < 75)
                        \<or> 300 \<le> offset_corrected (env_charge 120) world_ref k \<or> k = 500)"
      by (rule b3)
  qed
  have A5: "offset_corrected (env_charge 100) world_ref 126 = 60"
    and B5: "offset_corrected (env_charge 120) world_ref 126 = 80"
    by (simp_all add: env_charge_corrected)
  from h1 [of 100] h1 [of 120] h1 [of 400] A B C A3 B3 A5 B5 C5 show ?thesis
    by blast
qed

text \<open>
  C10. In \<open>SmallCap\<close> the 2 ticks of processing overhead are subtracted from the
  combined 32-bit tick count \<open>Ticks + 65536 * Ticks2\<close> only when the count exceeds 2:
  the result is the count less 2 then, and the count itself otherwise. It never wraps
  below zero.
\<close>

theorem SmallCap_ticks_no_underflow:
  "unat (SmallCap_ticks Ticks Ticks2)
     = (if 2 < unat Ticks + 65536 * unat Ticks2
        then unat Ticks + 65536 * unat Ticks2 - 2
        else unat Ticks + 65536 * unat Ticks2)"
proof -
  have "unat (x - 2) = unat x - 2" if "2 < x" for x :: u32
    using that by (simp add: unat_sub word_less_nat_alt word_le_nat_alt)
  then show ?thesis
    by (simp add: SmallCap_ticks_def Let_def word_less_nat_alt flip: unat_ticks_combined)
qed

end
